theory Spec2Isabelle
  imports Complex_Main "HOL-Library.Word" "HOL-Library.Monad_Syntax"
begin

unbundle bit_operations_syntax

section \<open>Data model of the blocky voxel model\<close>

text \<open>
  The source computes with 32-bit floats. They are idealised here as real numbers: rounding,
  infinities and NaN are outside the model. The conversions \<open>to_vec3f\<close> and \<open>to_vec2f\<close> of the
  source (from the engine's \<open>Vector3\<close>/\<open>Vector2\<close> to the float vectors) are therefore
  identities and do not appear.
\<close>

type_synonym float = real

datatype Vector2f = Vector2f (v2_x: float) (v2_y: float)

datatype Vector3f = Vector3f (v3_x: float) (v3_y: float) (v3_z: float)

datatype Color = Color float float float float

datatype AABB = AABB Vector3f Vector3f

text \<open>Operators of \<open>vector3f.h\<close> and their two-dimensional counterparts used by the bakers.\<close>

definition v3_sub :: "Vector3f \<Rightarrow> Vector3f \<Rightarrow> Vector3f" where
  "v3_sub a b = Vector3f (v3_x a - v3_x b) (v3_y a - v3_y b) (v3_z a - v3_z b)"

definition v3_scale :: "Vector3f \<Rightarrow> float \<Rightarrow> Vector3f" where
  "v3_scale a s = Vector3f (v3_x a * s) (v3_y a * s) (v3_z a * s)"

definition cross :: "Vector3f \<Rightarrow> Vector3f \<Rightarrow> Vector3f" where
  "cross a p_with = Vector3f
     ((v3_y a * v3_z p_with) - (v3_z a * v3_y p_with))
     ((v3_z a * v3_x p_with) - (v3_x a * v3_z p_with))
     ((v3_x a * v3_y p_with) - (v3_y a * v3_x p_with))"

definition dot :: "Vector3f \<Rightarrow> Vector3f \<Rightarrow> float" where
  "dot a p_with = v3_x a * v3_x p_with + v3_y a * v3_y p_with + v3_z a * v3_z p_with"

definition v2_add :: "Vector2f \<Rightarrow> Vector2f \<Rightarrow> Vector2f" where
  "v2_add a b = Vector2f (v2_x a + v2_x b) (v2_y a + v2_y b)"

definition v2_sub :: "Vector2f \<Rightarrow> Vector2f \<Rightarrow> Vector2f" where
  "v2_sub a b = Vector2f (v2_x a - v2_x b) (v2_y a - v2_y b)"

definition v2_scale :: "Vector2f \<Rightarrow> float \<Rightarrow> Vector2f" where
  "v2_scale a s = Vector2f (v2_x a * s) (v2_y a * s)"

subsection \<open>Meshes and references to them\<close>

text \<open>
  The arrays of surface 0 of a mesh, named after the engine's array slots. An array slot the
  mesh does not provide converts to an array of size 0, so absent and empty coincide, as they
  do for the source's \<open>size() == 0\<close> tests.
\<close>

record MeshArrays =
  ARRAY_VERTEX :: "Vector3f list"
  ARRAY_NORMAL :: "Vector3f list"
  ARRAY_TANGENT :: "float list"
  ARRAY_TEX_UV :: "Vector2f list"
  ARRAY_INDEX :: "int list"

text \<open>\<open>surface_get_arrays(0)\<close> is \<open>None\<close> when the returned array has size 0.\<close>

datatype Mesh = Mesh (surface_get_arrays: "MeshArrays option")

text \<open>
  A \<open>Ref<Mesh>\<close> is an address or null (\<open>None\<close>). Mesh objects live in a store; the addresses
  below \<open>heap_size\<close> are the allocated ones.
\<close>

type_synonym MeshRef = "nat option"

record Heap =
  mesh_at :: "nat \<Rightarrow> Mesh"
  heap_size :: nat

definition heap_alloc :: "Heap \<Rightarrow> Mesh \<Rightarrow> Heap \<times> nat" where
  "heap_alloc h m = (h\<lparr>mesh_at := (mesh_at h)(heap_size h := m), heap_size := heap_size h + 1\<rparr>, heap_size h)"

text \<open>
  The engine's \<open>Resource::duplicate\<close> on a mesh: a new object with the same contents.
\<close>

definition mesh_duplicate :: "Heap \<Rightarrow> nat \<Rightarrow> Heap \<times> nat" where
  "mesh_duplicate h r = heap_alloc h (mesh_at h r)"

subsection \<open>The model definition\<close>

datatype GeometryType = GEOMETRY_NONE | GEOMETRY_CUBE | GEOMETRY_CUSTOM_MESH | GEOMETRY_MAX

text \<open>
  The private members \<open>_id\<close>, \<open>_name\<close>, ... of \<open>VoxelBlockyModel\<close> are written \<open>m_id\<close>,
  \<open>m_name\<close>, ... The six cube tiles are indexed by side number.
\<close>

record VoxelBlockyModel =
  m_id :: int
  m_name :: string
  m_material_id :: nat
  m_transparency_index :: int
  m_color :: Color
  m_geometry_type :: GeometryType
  m_cube_tiles :: "nat \<Rightarrow> Vector2f"
  m_custom_mesh :: MeshRef
  m_collision_aabbs :: "AABB list"
  m_collision_mask :: "32 word"
  m_random_tickable :: bool
  m_empty :: bool

text \<open>
  The constructor. Its initialiser list sets five members; the others take the default member
  initialisers of the class declaration, which is not among the sources: they come in as
  the argument \<open>decl\<close>.
\<close>

definition VoxelBlockyModel_ctor :: "VoxelBlockyModel \<Rightarrow> VoxelBlockyModel" where
  "VoxelBlockyModel_ctor decl =
     decl\<lparr>m_id := -1, m_material_id := 0, m_transparency_index := 0,
          m_color := Color 1 1 1 1, m_geometry_type := GEOMETRY_NONE\<rparr>"

definition set_geometry_type :: "GeometryType \<Rightarrow> VoxelBlockyModel \<Rightarrow> VoxelBlockyModel" where
  "set_geometry_type type c =
     (if type = m_geometry_type c then c
      else
        let c1 = c\<lparr>m_geometry_type := type\<rparr> in
        (case m_geometry_type c1 of
           GEOMETRY_NONE \<Rightarrow> c1\<lparr>m_collision_aabbs := []\<rparr>
         | GEOMETRY_CUBE \<Rightarrow>
             c1\<lparr>m_collision_aabbs := [] @ [AABB (Vector3f 0 0 0) (Vector3f 1 1 1)],
                m_empty := False\<rparr>
         | GEOMETRY_CUSTOM_MESH \<Rightarrow> c1
         | GEOMETRY_MAX \<Rightarrow> c1))"

text \<open>
  \<open>duplicate\<close>: \<open>d\<close> is a freshly constructed model; the members are assigned one by one, and
  the mesh is duplicated in the store when sub-resources are asked for and the reference is
  not null.
\<close>

definition duplicate :: "VoxelBlockyModel \<Rightarrow> Heap \<Rightarrow> VoxelBlockyModel \<Rightarrow> bool \<Rightarrow> Heap \<times> VoxelBlockyModel" where
  "duplicate decl h c p_subresources =
     (let d = VoxelBlockyModel_ctor decl;
          d = d\<lparr>m_id := -1\<rparr>;
          d = d\<lparr>m_name := m_name c,
                m_material_id := m_material_id c,
                m_transparency_index := m_transparency_index c,
                m_color := m_color c,
                m_geometry_type := m_geometry_type c,
                m_cube_tiles := m_cube_tiles c,
                m_custom_mesh := m_custom_mesh c,
                m_collision_aabbs := m_collision_aabbs c,
                m_random_tickable := m_random_tickable c,
                m_empty := m_empty c\<rparr>
      in if p_subresources then
           (case m_custom_mesh d of
              Some r \<Rightarrow> (let (h', r') = mesh_duplicate h r in (h', d\<lparr>m_custom_mesh := Some r'\<rparr>))
            | None \<Rightarrow> (h, d))
         else (h, d))"

subsection \<open>The baked record\<close>

text \<open>
  \<open>BakedData::Model\<close>: the interior bucket (\<open>positions\<close>, \<open>normals\<close>, \<open>uvs\<close>, \<open>indices\<close>,
  \<open>tangents\<close>) and the six side buckets, each \<open>FixedArray\<close> of six vectors read as a function
  of the side number.
\<close>

record Model =
  positions :: "Vector3f list"
  normals :: "Vector3f list"
  uvs :: "Vector2f list"
  indices :: "int list"
  tangents :: "float list"
  side_positions :: "nat \<Rightarrow> Vector3f list"
  side_uvs :: "nat \<Rightarrow> Vector2f list"
  side_indices :: "nat \<Rightarrow> int list"
  side_tangents :: "nat \<Rightarrow> float list"

record BakedData =
  model :: Model
  color :: Color
  transparency_index :: int
  material_id :: nat
  empty :: bool

text \<open>
  Modelled from the spec: \<open>BakedData::clear\<close> is declared in \<open>voxel_blocky_model.h\<close>, which is
  not among the sources. The spec has the bake "clear any prior baked state": every bucket
  is emptied and the record counts as empty.
\<close>

definition Model_clear :: Model where
  "Model_clear =
     \<lparr>positions = [], normals = [], uvs = [], indices = [], tangents = [],
      side_positions = (\<lambda>_. []), side_uvs = (\<lambda>_. []), side_indices = (\<lambda>_. []),
      side_tangents = (\<lambda>_. [])\<rparr>"

definition BakedData_clear :: "BakedData \<Rightarrow> BakedData" where
  "BakedData_clear baked_data = baked_data\<lparr>model := Model_clear, empty := True\<rparr>"

text \<open>
  How a call ends: it returns, it returns after an engine error macro (\<open>ERR_FAIL_COND\<close>,
  \<open>ERR_PRINT\<close>) has reported an error, or the process is brought down (\<open>CRASH_COND\<close>, an
  out-of-range read of a packed array).
\<close>

datatype 'a outcome = Returned 'a | ErrFailed 'a | Crashed

subsection \<open>The cube tables\<close>

text \<open>
  The namespace \<open>Cube\<close> (side enumeration and constant tables) is declared in a header that
  is not among the sources. Its contents are a parameter of the bakers: the numeric values of
  the six \<open>SideAxis\<close> constants and the four tables, read as lookup functions.
\<close>

record CubeTables =
  SIDE_NEGATIVE_X :: nat
  SIDE_POSITIVE_X :: nat
  SIDE_NEGATIVE_Y :: nat
  SIDE_POSITIVE_Y :: nat
  SIDE_NEGATIVE_Z :: nat
  SIDE_POSITIVE_Z :: nat
  g_side_corners :: "nat \<Rightarrow> nat \<Rightarrow> int"
  g_corner_position :: "int \<Rightarrow> Vector3f"
  g_side_quad_triangles :: "nat \<Rightarrow> nat \<Rightarrow> int"
  g_side_tangents :: "nat \<Rightarrow> nat \<Rightarrow> float"

text \<open>Modelled from the spec: \<open>Cube::SIDE_COUNT\<close>, the number of cube faces, is six.\<close>

definition SIDE_COUNT :: nat where
  "SIDE_COUNT = 6"

section \<open>The cube baker\<close>

text \<open>
  Body of the first loop of \<open>bake_cube_geometry\<close> for one side. \<open>resize(4)\<close> followed by the
  assignment of all four entries leaves exactly the four computed positions, and likewise
  for the six indices.
\<close>

definition cube_side_geometry :: "CubeTables \<Rightarrow> nat \<Rightarrow> Model \<Rightarrow> Model" where
  "cube_side_geometry C side m =
     (let sy = 1;
          ps = map (\<lambda>i. let corner = g_side_corners C side i;
                              p = g_corner_position C corner
                          in if v3_y p > 0.9 then Vector3f (v3_x p) sy (v3_z p) else p) [0..<4];
          idx = map (\<lambda>i. g_side_quad_triangles C side i) [0..<6]
      in m\<lparr>side_positions := (side_positions m)(side := ps),
           side_indices := (side_indices m)(side := idx)\<rparr>)"

text \<open>The four corner UVs, inset by \<open>e\<close>.\<close>

definition cube_uv :: "Vector2f list" where
  "cube_uv =
     (let e = 0.001
      in [Vector2f e (1 - e), Vector2f (1 - e) (1 - e), Vector2f (1 - e) e, Vector2f e e])"

text \<open>Body of the second loop for one side; \<open>s\<close> is the reciprocal of the atlas size.\<close>

definition cube_side_uvs :: "CubeTables \<Rightarrow> VoxelBlockyModel \<Rightarrow> float \<Rightarrow> bool \<Rightarrow> nat \<Rightarrow> Model \<Rightarrow> Model" where
  "cube_side_uvs C config s bake_tangents side m =
     (let m1 = m\<lparr>side_uvs := (side_uvs m)
                 (side := map (\<lambda>i. v2_scale (v2_add (m_cube_tiles config side) (cube_uv ! i)) s) [0..<4])\<rparr>
      in if bake_tangents then
           m1\<lparr>side_tangents := (side_tangents m1)
                 (side := side_tangents m1 side @
                    concat (map (\<lambda>i. map (\<lambda>j. g_side_tangents C side j) [0..<4]) [0..<4]))\<rparr>
         else m1)"

definition bake_cube_geometry ::
  "CubeTables \<Rightarrow> VoxelBlockyModel \<Rightarrow> BakedData \<Rightarrow> int \<Rightarrow> bool \<Rightarrow> BakedData outcome" where
  "bake_cube_geometry C config baked_data p_atlas_size bake_tangents =
     (let m1 = fold (cube_side_geometry C) [0..<SIDE_COUNT] (model baked_data);
          atlas_size = real_of_int p_atlas_size
      in if atlas_size \<le> 0 then Crashed
         else
           let s = 1 / atlas_size;
               m2 = fold (cube_side_uvs C config s bake_tangents) [0..<SIDE_COUNT] m1
           in Returned (baked_data\<lparr>model := m2, empty := False\<rparr>))"

section \<open>The mesh baker\<close>

text \<open>
  The engine's \<open>Math::is_equal_approx(a, b, tolerance)\<close>: equal, or closer than the
  tolerance.
\<close>

definition is_equal_approx :: "float \<Rightarrow> float \<Rightarrow> float \<Rightarrow> bool" where
  "is_equal_approx a b tolerance = (a = b \<or> \<bar>a - b\<bar> < tolerance)"

text \<open>\<open>L::get_sides\<close>: the mask is a \<open>uint8_t\<close>; each test is shifted to its side's bit.\<close>

definition get_sides :: "CubeTables \<Rightarrow> Vector3f \<Rightarrow> 8 word" where
  "get_sides C pos =
     (let mask = 0;
          tolerance = 0.001;
          mask = mask OR push_bit (SIDE_NEGATIVE_X C) (of_bool (is_equal_approx (v3_x pos) 0 tolerance));
          mask = mask OR push_bit (SIDE_POSITIVE_X C) (of_bool (is_equal_approx (v3_x pos) 1 tolerance));
          mask = mask OR push_bit (SIDE_NEGATIVE_Y C) (of_bool (is_equal_approx (v3_y pos) 0 tolerance));
          mask = mask OR push_bit (SIDE_POSITIVE_Y C) (of_bool (is_equal_approx (v3_y pos) 1 tolerance));
          mask = mask OR push_bit (SIDE_NEGATIVE_Z C) (of_bool (is_equal_approx (v3_z pos) 0 tolerance));
          mask = mask OR push_bit (SIDE_POSITIVE_Z C) (of_bool (is_equal_approx (v3_z pos) 1 tolerance))
      in mask)"

text \<open>
  \<open>L::get_triangle_side\<close>: \<open>None\<close> is the source's \<open>false\<close>, \<open>Some side\<close> is \<open>true\<close> with
  \<open>out_side = side\<close>. The loop returns at the first side whose single bit is the mask.
\<close>

definition get_triangle_side :: "CubeTables \<Rightarrow> Vector3f \<Rightarrow> Vector3f \<Rightarrow> Vector3f \<Rightarrow> nat option" where
  "get_triangle_side C a b c =
     (let m = get_sides C a AND get_sides C b AND get_sides C c
      in if m = 0 then None
         else find (\<lambda>side. m = push_bit side 1) [0..<SIDE_COUNT])"

text \<open>
  A read \<open>xs[i]\<close> of a packed array: the engine crashes on an index out of range
  (\<open>CRASH_BAD_INDEX\<close>); \<open>None\<close> is that crash.
\<close>

definition packed_get :: "'a list \<Rightarrow> int \<Rightarrow> 'a option" where
  "packed_get xs i = (if 0 \<le> i \<and> i < int (length xs) then Some (xs ! nat i) else None)"

text \<open>
  The tangent computed for a triangle when the mesh has none and tangents are baked. Where
  the UV determinant is zero the source's float division gives an infinity or a NaN; the
  reals do not represent that, and no statement below depends on the computed values.
\<close>

definition generate_tangent ::
  "MeshArrays \<Rightarrow> int \<Rightarrow> int \<Rightarrow> int \<Rightarrow> Vector3f \<Rightarrow> Vector3f \<Rightarrow> Vector3f \<Rightarrow> float list option" where
  "generate_tangent a i0 i1 i2 p0 p1 p2 =
     do {
       uv0 \<leftarrow> packed_get (ARRAY_TEX_UV a) i0;
       uv1 \<leftarrow> packed_get (ARRAY_TEX_UV a) i1;
       uv2 \<leftarrow> packed_get (ARRAY_TEX_UV a) i2;
       n0 \<leftarrow> packed_get (ARRAY_NORMAL a) i0;
       let delta_uv1 = v2_sub uv1 uv0;
       let delta_uv2 = v2_sub uv2 uv0;
       let delta_pos1 = v3_sub p1 p0;
       let delta_pos2 = v3_sub p2 p0;
       let r = 1 / (v2_x delta_uv1 * v2_y delta_uv2 - v2_y delta_uv1 * v2_x delta_uv2);
       let t = v3_scale (v3_sub (v3_scale delta_pos1 (v2_y delta_uv2)) (v3_scale delta_pos2 (v2_y delta_uv1))) r;
       let bt = v3_scale (v3_sub (v3_scale delta_pos2 (v2_x delta_uv1)) (v3_scale delta_pos1 (v2_x delta_uv2))) r;
       Some [v3_x t, v3_y t, v3_z t, if dot bt (cross n0 t) < 0 then -1 else 1]
     }"

text \<open>
  The four floats pushed for a new vertex of the triangle that starts at position \<open>i\<close> of the
  index array: nothing when tangents are not baked, the computed \<open>tangent\<close> when the mesh has
  none, and otherwise the source tangents at \<open>ti = (i / 3) * 4\<close>.
\<close>

definition vertex_tangent :: "MeshArrays \<Rightarrow> bool \<Rightarrow> float list \<Rightarrow> nat \<Rightarrow> float list option" where
  "vertex_tangent a bake_tangents tangent i =
     (if bake_tangents then
        (if length (ARRAY_TANGENT a) = 0 then Some tangent
         else
           let ti = (int i div 3) * 4
           in do {
             t0 \<leftarrow> packed_get (ARRAY_TANGENT a) ti;
             t1 \<leftarrow> packed_get (ARRAY_TANGENT a) (ti + 1);
             t2 \<leftarrow> packed_get (ARRAY_TANGENT a) (ti + 2);
             t3 \<leftarrow> packed_get (ARRAY_TANGENT a) (ti + 3);
             Some [t0, t1, t2, t3]
           })
      else Some [])"

text \<open>
  The variables the triangle loop carries: the model being filled and the maps from source
  index to destination index, one per side and one for the interior.
\<close>

record bake_vars =
  bv_model :: Model
  added_side_indices :: "nat \<Rightarrow> int \<rightharpoonup> int"
  added_regular_indices :: "int \<rightharpoonup> int"

text \<open>
  Body of the loop over \<open>j\<close> for a triangle on a face; \<open>p\<close> is \<open>tri_positions[j]\<close> and
  \<open>src_index\<close> is \<open>indices[i + j]\<close>. The running \<open>next_side_index\<close> is passed along.
\<close>

definition side_add_vertex ::
  "MeshArrays \<Rightarrow> bool \<Rightarrow> float list \<Rightarrow> nat \<Rightarrow> nat \<Rightarrow> Vector3f \<Rightarrow> int \<Rightarrow> bake_vars \<times> int \<Rightarrow>
   (bake_vars \<times> int) option" where
  "side_add_vertex a bake_tangents tangent i side p src_index st =
     (case st of (v, next_side_index) \<Rightarrow>
        let m = bv_model v in
        (case added_side_indices v side src_index of
           None \<Rightarrow>
             do {
               uv \<leftarrow> packed_get (ARRAY_TEX_UV a) src_index;
               tg \<leftarrow> vertex_tangent a bake_tangents tangent i;
               Some (v\<lparr>bv_model := m
                         \<lparr>side_indices := (side_indices m)(side := side_indices m side @ [next_side_index]),
                          side_positions := (side_positions m)(side := side_positions m side @ [p]),
                          side_uvs := (side_uvs m)(side := side_uvs m side @ [uv]),
                          side_tangents := (side_tangents m)(side := side_tangents m side @ tg)\<rparr>,
                       added_side_indices := (added_side_indices v)
                          (side := (added_side_indices v side)(src_index \<mapsto> next_side_index))\<rparr>,
                     next_side_index + 1)
             }
         | Some existing_dst_index \<Rightarrow>
             Some (v\<lparr>bv_model := m
                       \<lparr>side_indices := (side_indices m)(side := side_indices m side @ [existing_dst_index])\<rparr>\<rparr>,
                   next_side_index)))"

text \<open>The same for a triangle that is not on a face; the normal is stored as well.\<close>

definition regular_add_vertex ::
  "MeshArrays \<Rightarrow> bool \<Rightarrow> float list \<Rightarrow> nat \<Rightarrow> Vector3f \<Rightarrow> int \<Rightarrow> bake_vars \<times> int \<Rightarrow>
   (bake_vars \<times> int) option" where
  "regular_add_vertex a bake_tangents tangent i p src_index st =
     (case st of (v, next_regular_index) \<Rightarrow>
        let m = bv_model v in
        (case added_regular_indices v src_index of
           None \<Rightarrow>
             do {
               n \<leftarrow> packed_get (ARRAY_NORMAL a) src_index;
               uv \<leftarrow> packed_get (ARRAY_TEX_UV a) src_index;
               tg \<leftarrow> vertex_tangent a bake_tangents tangent i;
               Some (v\<lparr>bv_model := m
                         \<lparr>indices := indices m @ [next_regular_index],
                          positions := positions m @ [p],
                          normals := normals m @ [n],
                          uvs := uvs m @ [uv],
                          tangents := tangents m @ tg\<rparr>,
                       added_regular_indices := (added_regular_indices v)(src_index \<mapsto> next_regular_index)\<rparr>,
                     next_regular_index + 1)
             }
         | Some existing_dst_index \<Rightarrow>
             Some (v\<lparr>bv_model := m\<lparr>indices := indices m @ [existing_dst_index]\<rparr>\<rparr>,
                   next_regular_index)))"

text \<open>
  Body of the triangle loop: \<open>i\<close> is the position of the triangle in the index array and
  \<open>i0\<close>, \<open>i1\<close>, \<open>i2\<close> are \<open>indices[i]\<close>, \<open>indices[i + 1]\<close>, \<open>indices[i + 2]\<close>.
\<close>

definition bake_triangle ::
  "CubeTables \<Rightarrow> MeshArrays \<Rightarrow> bool \<Rightarrow> nat \<Rightarrow> int \<Rightarrow> int \<Rightarrow> int \<Rightarrow> bake_vars \<Rightarrow> bake_vars option" where
  "bake_triangle C a bake_tangents i i0 i1 i2 v =
     do {
       p0 \<leftarrow> packed_get (ARRAY_VERTEX a) i0;
       p1 \<leftarrow> packed_get (ARRAY_VERTEX a) i1;
       p2 \<leftarrow> packed_get (ARRAY_VERTEX a) i2;
       tangent \<leftarrow> (if length (ARRAY_TANGENT a) = 0 \<and> bake_tangents
                    then generate_tangent a i0 i1 i2 p0 p1 p2 else Some []);
       (case get_triangle_side C p0 p1 p2 of
          Some side \<Rightarrow>
            do {
              let next_side_index = int (length (side_positions (bv_model v) side));
              st \<leftarrow> side_add_vertex a bake_tangents tangent i side p0 i0 (v, next_side_index);
              st \<leftarrow> side_add_vertex a bake_tangents tangent i side p1 i1 st;
              st \<leftarrow> side_add_vertex a bake_tangents tangent i side p2 i2 st;
              Some (fst st)
            }
        | None \<Rightarrow>
            do {
              let next_regular_index = int (length (positions (bv_model v)));
              st \<leftarrow> regular_add_vertex a bake_tangents tangent i p0 i0 (v, next_regular_index);
              st \<leftarrow> regular_add_vertex a bake_tangents tangent i p1 i1 st;
              st \<leftarrow> regular_add_vertex a bake_tangents tangent i p2 i2 st;
              Some (fst st)
            })
     }"

text \<open>
  The loop \<open>for (i = 0; i < indices.size(); i += 3)\<close> over the index array, with its three
  reads \<open>indices[i]\<close>, \<open>indices[i + 1]\<close> and \<open>indices[i + 2]\<close>.
\<close>

function bake_loop ::
  "CubeTables \<Rightarrow> MeshArrays \<Rightarrow> bool \<Rightarrow> nat \<Rightarrow> bake_vars \<Rightarrow> bake_vars option" where
  "bake_loop C a bake_tangents i v =
     (if i < length (ARRAY_INDEX a) then
        (case packed_get (ARRAY_INDEX a) (int i) of
           None \<Rightarrow> None
         | Some i0 \<Rightarrow>
             (case packed_get (ARRAY_INDEX a) (int i + 1) of
                None \<Rightarrow> None
              | Some i1 \<Rightarrow>
                  (case packed_get (ARRAY_INDEX a) (int i + 2) of
                     None \<Rightarrow> None
                   | Some i2 \<Rightarrow>
                       (case bake_triangle C a bake_tangents i i0 i1 i2 v of
                          None \<Rightarrow> None
                        | Some v' \<Rightarrow> bake_loop C a bake_tangents (i + 3) v'))))
      else Some v)"
  by pat_completeness auto
termination
  by (relation "measure (\<lambda>(C, a, bake_tangents, i, v). length (ARRAY_INDEX a) - i)") auto

declare bake_loop.simps [simp del]

text \<open>An empty UV array is replaced by one of the size of the position array, zero-filled.\<close>

definition fill_uvs :: "MeshArrays \<Rightarrow> MeshArrays" where
  "fill_uvs arrays =
     (if length (ARRAY_TEX_UV arrays) = 0
      then arrays\<lparr>ARRAY_TEX_UV := replicate (length (ARRAY_VERTEX arrays)) (Vector2f 0 0)\<rparr>
      else arrays)"

text \<open>
  \<open>bake_mesh_geometry\<close>. A null mesh reference marks the record empty and returns. The three
  \<open>ERR_FAIL_COND\<close> checks (no surface arrays, index count not a multiple of three, no
  normals) return with the record as it is at that point; the emptiness flag is assigned
  between the second and the third. A crash of the triangle loop brings the call down.
\<close>

definition bake_mesh_geometry ::
  "CubeTables \<Rightarrow> Heap \<Rightarrow> VoxelBlockyModel \<Rightarrow> BakedData \<Rightarrow> bool \<Rightarrow> BakedData outcome" where
  "bake_mesh_geometry C h config baked_data bake_tangents =
     (case m_custom_mesh config of
        None \<Rightarrow> Returned (baked_data\<lparr>empty := True\<rparr>)
      | Some r \<Rightarrow>
          (case surface_get_arrays (mesh_at h r) of
             None \<Rightarrow> ErrFailed baked_data
           | Some arrays \<Rightarrow>
               if length (ARRAY_INDEX arrays) mod 3 \<noteq> 0 then ErrFailed baked_data
               else
                 let bd = baked_data\<lparr>empty := (length (ARRAY_VERTEX arrays) = 0)\<rparr>
                 in if length (ARRAY_NORMAL arrays) = 0 then ErrFailed bd
                    else
                      let a = fill_uvs arrays;
                          v0 = \<lparr>bv_model = model bd,
                                added_side_indices = (\<lambda>_. Map.empty),
                                added_regular_indices = Map.empty\<rparr>
                      in (case bake_loop C a bake_tangents 0 v0 of
                            None \<Rightarrow> Crashed
                          | Some v \<Rightarrow> Returned (bd\<lparr>model := bv_model v\<rparr>))))"

section \<open>Bake orchestration\<close>

text \<open>
  \<open>VoxelBlockyModel::bake\<close>: the call changes the baked record and the model's \<open>_empty\<close>;
  both are returned. An unknown geometry type is reported with \<open>ERR_PRINT\<close>.
\<close>

definition bake ::
  "CubeTables \<Rightarrow> Heap \<Rightarrow> VoxelBlockyModel \<Rightarrow> BakedData \<Rightarrow> int \<Rightarrow> bool \<Rightarrow>
   (VoxelBlockyModel \<times> BakedData) outcome" where
  "bake C h config baked_data p_atlas_size bake_tangents =
     (let bd = BakedData_clear baked_data;
          bd = bd\<lparr>transparency_index := m_transparency_index config,
                 material_id := m_material_id config,
                 color := m_color config\<rparr>;
          r = (case m_geometry_type config of
                 GEOMETRY_NONE \<Rightarrow> Returned (bd\<lparr>empty := True\<rparr>)
               | GEOMETRY_CUBE \<Rightarrow> bake_cube_geometry C config bd p_atlas_size bake_tangents
               | GEOMETRY_CUSTOM_MESH \<Rightarrow> bake_mesh_geometry C h config bd bake_tangents
               | GEOMETRY_MAX \<Rightarrow> ErrFailed bd)
      in (case r of
            Returned b \<Rightarrow> Returned (config\<lparr>m_empty := empty b\<rparr>, b)
          | ErrFailed b \<Rightarrow> ErrFailed (config\<lparr>m_empty := empty b\<rparr>, b)
          | Crashed \<Rightarrow> Crashed))"

section \<open>Notions used to state the properties\<close>

text \<open>
  These definitions are not translated from the source: they are the vocabulary of the
  statements below.
\<close>

text \<open>The number of bits set in a mask.\<close>

definition bit_count :: "8 word \<Rightarrow> nat" where
  "bit_count m = length (filter (bit m) [0..<8])"

text \<open>
  The side constants are admissible when they are six different values below
  \<open>SIDE_COUNT\<close>.
\<close>

definition side_values :: "CubeTables \<Rightarrow> nat list" where
  "side_values C = [SIDE_NEGATIVE_X C, SIDE_POSITIVE_X C, SIDE_NEGATIVE_Y C, SIDE_POSITIVE_Y C,
     SIDE_NEGATIVE_Z C, SIDE_POSITIVE_Z C]"

definition valid_sides :: "CubeTables \<Rightarrow> bool" where
  "valid_sides C = (distinct (side_values C) \<and> list_all (\<lambda>s. s < SIDE_COUNT) (side_values C))"

text \<open>
  The buckets of a model, addressed uniformly: \<open>None\<close> is the interior bucket and
  \<open>Some side\<close> the bucket of a side. \<open>bucket_added\<close> is the bucket's map from source to
  destination index during the loop.
\<close>

fun bucket_positions :: "Model \<Rightarrow> nat option \<Rightarrow> Vector3f list" where
  "bucket_positions m None = positions m"
| "bucket_positions m (Some side) = side_positions m side"

fun bucket_uvs :: "Model \<Rightarrow> nat option \<Rightarrow> Vector2f list" where
  "bucket_uvs m None = uvs m"
| "bucket_uvs m (Some side) = side_uvs m side"

fun bucket_indices :: "Model \<Rightarrow> nat option \<Rightarrow> int list" where
  "bucket_indices m None = indices m"
| "bucket_indices m (Some side) = side_indices m side"

fun bucket_tangents :: "Model \<Rightarrow> nat option \<Rightarrow> float list" where
  "bucket_tangents m None = tangents m"
| "bucket_tangents m (Some side) = side_tangents m side"

fun bucket_added :: "bake_vars \<Rightarrow> nat option \<Rightarrow> int \<rightharpoonup> int" where
  "bucket_added v None = added_regular_indices v"
| "bucket_added v (Some side) = added_side_indices v side"

text \<open>A step of the loop leaves bucket \<open>k\<close> as it was.\<close>

definition bucket_same :: "bake_vars \<Rightarrow> bake_vars \<Rightarrow> nat option \<Rightarrow> bool" where
  "bucket_same v v' k =
     (bucket_positions (bv_model v') k = bucket_positions (bv_model v) k \<and>
      bucket_uvs (bv_model v') k = bucket_uvs (bv_model v) k \<and>
      bucket_indices (bv_model v') k = bucket_indices (bv_model v) k \<and>
      bucket_tangents (bv_model v') k = bucket_tangents (bv_model v) k \<and>
      bucket_added v' k = bucket_added v k)"

text \<open>
  The triangle loop as a recursion over the index array from position \<open>i\<close> on, three
  indices at a time. It is the loop \<open>bake_loop\<close> whenever the index count is a multiple of
  three, which the baker has checked when the loop starts.
\<close>

fun bake_triangles ::
  "CubeTables \<Rightarrow> MeshArrays \<Rightarrow> bool \<Rightarrow> nat \<Rightarrow> int list \<Rightarrow> bake_vars \<Rightarrow> bake_vars option" where
  "bake_triangles C a bake_tangents i (i0 # i1 # i2 # rest) v =
     (case bake_triangle C a bake_tangents i i0 i1 i2 v of
        None \<Rightarrow> None
      | Some v' \<Rightarrow> bake_triangles C a bake_tangents (i + 3) rest v')"
| "bake_triangles C a bake_tangents i rest v = Some v"

text \<open>
  The source indices a bucket receives from an index array: those of the triangles that
  \<open>get_triangle_side\<close> puts into it, in order.
\<close>

fun bucket_refs :: "CubeTables \<Rightarrow> Vector3f list \<Rightarrow> nat option \<Rightarrow> int list \<Rightarrow> int list" where
  "bucket_refs C ps k (i0 # i1 # i2 # rest) =
     (if get_triangle_side C (ps ! nat i0) (ps ! nat i1) (ps ! nat i2) = k then [i0, i1, i2] else [])
       @ bucket_refs C ps k rest"
| "bucket_refs C ps k rest = []"

text \<open>
  Welding by source index, as the spec words it: the vertices of a bucket are the distinct
  source indices referenced in it, in the order of their first reference (\<open>firsts\<close>), and a
  reference is mapped to the place of its source index in that list (\<open>index_of\<close>).
\<close>

definition firsts :: "'a list \<Rightarrow> 'a list" where
  "firsts xs = rev (remdups (rev xs))"

definition index_of :: "'a list \<Rightarrow> 'a \<Rightarrow> nat" where
  "index_of ys s = length (takeWhile (\<lambda>y. y \<noteq> s) ys)"

text \<open>
  The invariant of the triangle loop: after the references \<open>R k\<close> have gone into bucket
  \<open>k\<close>, the bucket is the welding of \<open>R k\<close>, with four tangent floats per vertex when
  tangents are baked, and the interior normals are those of the welded source vertices.
\<close>

definition welded :: "MeshArrays \<Rightarrow> bool \<Rightarrow> int list \<Rightarrow> bake_vars \<Rightarrow> nat option \<Rightarrow> bool" where
  "welded a bt refs v k =
     (bucket_indices (bv_model v) k = map (\<lambda>s. int (index_of (firsts refs) s)) refs \<and>
      bucket_positions (bv_model v) k = map (\<lambda>s. ARRAY_VERTEX a ! nat s) (firsts refs) \<and>
      bucket_uvs (bv_model v) k = map (\<lambda>s. ARRAY_TEX_UV a ! nat s) (firsts refs) \<and>
      length (bucket_tangents (bv_model v) k) = (if bt then 4 * length (firsts refs) else 0) \<and>
      bucket_added v k = (\<lambda>s. if s \<in> set refs then Some (int (index_of (firsts refs) s)) else None))"

definition weld_inv :: "MeshArrays \<Rightarrow> bool \<Rightarrow> (nat option \<Rightarrow> int list) \<Rightarrow> bake_vars \<Rightarrow> bool" where
  "weld_inv a bt R v =
     ((\<forall>k. welded a bt (R k) v k) \<and>
      normals (bv_model v) = map (\<lambda>s. ARRAY_NORMAL a ! nat s) (firsts (R None)))"

text \<open>An index list is a triangle list over \<open>n\<close> vertices.\<close>

definition index_list_ok :: "int list \<Rightarrow> nat \<Rightarrow> bool" where
  "index_list_ok idx n = ((\<forall>x\<in>set idx. 0 \<le> x \<and> x < int n) \<and> length idx mod 3 = 0)"

text \<open>A source index that every per-vertex array of the mesh covers.\<close>

definition src_ok :: "MeshArrays \<Rightarrow> int \<Rightarrow> bool" where
  "src_ok a s = (0 \<le> s \<and> s < int (length (ARRAY_VERTEX a)) \<and> s < int (length (ARRAY_TEX_UV a)) \<and>
                 s < int (length (ARRAY_NORMAL a)))"

section \<open>Sample inputs\<close>

text \<open>
  A model definition and a store. \<open>sample_model\<close> is a cube model; \<open>mesh_model\<close> is the
  same model with custom mesh geometry.
\<close>

definition sample_model :: VoxelBlockyModel where
  "sample_model =
     \<lparr>m_id = 7, m_name = ''stone'', m_material_id = 2, m_transparency_index = 0,
      m_color = Color 1 1 1 1, m_geometry_type = GEOMETRY_CUBE,
      m_cube_tiles = (\<lambda>_. Vector2f 0 0), m_custom_mesh = Some 0,
      m_collision_aabbs = [AABB (Vector3f 0 0 0) (Vector3f 1 1 1)],
      m_collision_mask = 1, m_random_tickable = False, m_empty = False\<rparr>"

definition sample_heap :: Heap where
  "sample_heap = \<lparr>mesh_at = (\<lambda>_. Mesh None), heap_size = 1\<rparr>"

definition mesh_model :: VoxelBlockyModel where
  "mesh_model = sample_model\<lparr>m_geometry_type := GEOMETRY_CUSTOM_MESH\<rparr>"

text \<open>
  An instance of the cube tables for a unit cube, with the sides numbered -X, +X, -Y, +Y, -Z,
  +Z.
\<close>

definition sample_cube :: CubeTables where
  "sample_cube =
     \<lparr>SIDE_NEGATIVE_X = 0, SIDE_POSITIVE_X = 1, SIDE_NEGATIVE_Y = 2, SIDE_POSITIVE_Y = 3,
      SIDE_NEGATIVE_Z = 4, SIDE_POSITIVE_Z = 5,
      g_side_corners = (\<lambda>side i.
        [[1, 2, 6, 5], [3, 0, 4, 7], [1, 0, 3, 2], [4, 5, 6, 7], [0, 1, 5, 4], [2, 3, 7, 6]] ! side ! i),
      g_corner_position = (\<lambda>corner.
        [Vector3f 1 0 0, Vector3f 0 0 0, Vector3f 0 0 1, Vector3f 1 0 1,
         Vector3f 1 1 0, Vector3f 0 1 0, Vector3f 0 1 1, Vector3f 1 1 1] ! nat corner),
      g_side_quad_triangles = (\<lambda>side i. [0, 2, 1, 0, 3, 2] ! i),
      g_side_tangents = (\<lambda>side j.
        [[0, 0, -1, 1], [0, 0, 1, 1], [1, 0, 0, 1], [1, 0, 0, 1], [-1, 0, 0, 1], [1, 0, 0, 1]] ! side ! j)\<rparr>"

text \<open>A cleared baked record and the loop variables at the start of the triangle loop.\<close>

definition sample_baked :: BakedData where
  "sample_baked =
     \<lparr>model = Model_clear, color = Color 0 0 0 0, transparency_index = 0, material_id = 0,
      empty = True\<rparr>"

definition sample_vars :: bake_vars where
  "sample_vars =
     \<lparr>bv_model = Model_clear, added_side_indices = (\<lambda>_. Map.empty),
      added_regular_indices = Map.empty\<rparr>"

text \<open>
  A mesh of five vertices: the triangles (0,1,2) and (2,1,4) lie on the face z = 0 and share
  the vertices 1 and 2; the triangle (0,1,3) spans several faces and shares the vertices 0 and 1
  with the first.
\<close>

definition sample_arrays :: MeshArrays where
  "sample_arrays =
     \<lparr>ARRAY_VERTEX = [Vector3f 0 0 0, Vector3f 1 0 0, Vector3f 0 1 0, Vector3f 1 1 1, Vector3f 1 1 0],
      ARRAY_NORMAL = [Vector3f 0 0 (-1), Vector3f 0 (-1) 0, Vector3f (-1) 0 0, Vector3f 0 0 1, Vector3f 1 0 0],
      ARRAY_TANGENT = [1, 2, 3, 4, 5, 6, 7, 8, 9, 10, 11, 12, 13, 14, 15, 16, 17, 18, 19, 20],
      ARRAY_TEX_UV = [Vector2f 0 0, Vector2f 1 0, Vector2f 0 1, Vector2f 1 1, Vector2f 1 1],
      ARRAY_INDEX = [0, 1, 2, 2, 1, 4, 0, 1, 3]\<rparr>"

definition mesh_heap :: Heap where
  "mesh_heap = \<lparr>mesh_at = (\<lambda>_. Mesh (Some sample_arrays)), heap_size = 1\<rparr>"

text \<open>
  Variants of the mesh: without triangles; without UVs, with a non-triangle index count and
  without normals (at the addresses 0, 1 and 2 of \<open>faulty_heap\<close>); with zero UVs.
\<close>

definition unindexed_heap :: Heap where
  "unindexed_heap = \<lparr>mesh_at = (\<lambda>_. Mesh (Some (sample_arrays\<lparr>ARRAY_INDEX := []\<rparr>))), heap_size = 1\<rparr>"

definition faulty_heap :: Heap where
  "faulty_heap =
     \<lparr>mesh_at = (\<lambda>r. if r = 0 then Mesh (Some (sample_arrays\<lparr>ARRAY_TEX_UV := []\<rparr>))
                     else if r = 1 then Mesh (Some (sample_arrays\<lparr>ARRAY_INDEX := [0, 1, 2, 3]\<rparr>))
                     else Mesh (Some (sample_arrays\<lparr>ARRAY_NORMAL := []\<rparr>))),
      heap_size = 3\<rparr>"

definition zero_uv_heap :: Heap where
  "zero_uv_heap =
     \<lparr>mesh_at = (\<lambda>r. Mesh (Some (sample_arrays\<lparr>ARRAY_TEX_UV := replicate 5 (Vector2f 0 0)\<rparr>))),
      heap_size = 1\<rparr>"

section \<open>Auxiliary lemmas\<close>

subsection \<open>The triangle loop, by position and by triple\<close>

lemma drop_three:
  assumes "i + 3 \<le> length xs"
  shows "drop i xs = xs ! i # xs ! (i + 1) # xs ! (i + 2) # drop (i + 3) xs"
proof -
  have "drop i xs = xs ! i # drop (Suc i) xs"
    using assms by (simp add: Cons_nth_drop_Suc)
  also have "drop (Suc i) xs = xs ! (Suc i) # drop (Suc (Suc i)) xs"
    using assms by (simp add: Cons_nth_drop_Suc)
  also have "drop (Suc (Suc i)) xs = xs ! (Suc (Suc i)) # drop (Suc (Suc (Suc i))) xs"
    using assms by (simp add: Cons_nth_drop_Suc)
  finally show ?thesis by (simp add: numeral_3_eq_3)
qed

lemma bake_loop_triangles:
  "i \<le> length (ARRAY_INDEX a) \<Longrightarrow> (length (ARRAY_INDEX a) - i) mod 3 = 0 \<Longrightarrow>
   bake_loop C a bt i v = bake_triangles C a bt i (drop i (ARRAY_INDEX a)) v"
proof (induction C a bt i v rule: bake_loop.induct)
  case (1 C a bt i v)
  show ?case
  proof (cases "i < length (ARRAY_INDEX a)")
    case False
    then show ?thesis by (simp add: bake_loop.simps)
  next
    case True
    with "1.prems" have three: "i + 3 \<le> length (ARRAY_INDEX a)" by presburger
    let ?i0 = "ARRAY_INDEX a ! i" and ?i1 = "ARRAY_INDEX a ! Suc i" and ?i2 = "ARRAY_INDEX a ! Suc (Suc i)"
    have g: "packed_get (ARRAY_INDEX a) (int i) = Some ?i0"
      "packed_get (ARRAY_INDEX a) (int i + 1) = Some ?i1"
      "packed_get (ARRAY_INDEX a) (int i + 2) = Some ?i2"
      using three by (simp_all add: packed_get_def nat_add_distrib)
    have d: "drop i (ARRAY_INDEX a) = ?i0 # ?i1 # ?i2 # drop (i + 3) (ARRAY_INDEX a)"
      using drop_three [OF three] by simp
    have m: "(length (ARRAY_INDEX a) - (i + 3)) mod 3 = 0"
      using "1.prems" three by presburger
    show ?thesis
    proof (cases "bake_triangle C a bt i ?i0 ?i1 ?i2 v")
      case None
      then show ?thesis
        by (subst bake_loop.simps) (simp add: True g d)
    next
      case (Some v1)
      have "bake_loop C a bt (i + 3) v1 = bake_triangles C a bt (i + 3) (drop (i + 3) (ARRAY_INDEX a)) v1"
        using True g Some three m by (intro "1.IH") simp_all
      then show ?thesis
        by (subst bake_loop.simps) (simp add: True g d Some)
    qed
  qed
qed

lemma bake_loop_start:
  "length (ARRAY_INDEX a) mod 3 = 0 \<Longrightarrow>
   bake_loop C a bt 0 v = bake_triangles C a bt 0 (ARRAY_INDEX a) v"
  using bake_loop_triangles [of 0 a C bt v] by simp

lemma fill_uvs_index: "ARRAY_INDEX (fill_uvs arrays) = ARRAY_INDEX arrays"
  by (simp add: fill_uvs_def)

lemma bake_mesh_geometry_unfold:
  "bake_mesh_geometry C h config baked_data bake_tangents =
     (case m_custom_mesh config of
        None \<Rightarrow> Returned (baked_data\<lparr>empty := True\<rparr>)
      | Some r \<Rightarrow>
          (case surface_get_arrays (mesh_at h r) of
             None \<Rightarrow> ErrFailed baked_data
           | Some arrays \<Rightarrow>
               if length (ARRAY_INDEX arrays) mod 3 \<noteq> 0 then ErrFailed baked_data
               else
                 let bd = baked_data\<lparr>empty := (length (ARRAY_VERTEX arrays) = 0)\<rparr>
                 in if length (ARRAY_NORMAL arrays) = 0 then ErrFailed bd
                    else
                      let a = fill_uvs arrays;
                          v0 = \<lparr>bv_model = model bd,
                                added_side_indices = (\<lambda>_. Map.empty),
                                added_regular_indices = Map.empty\<rparr>
                      in (case bake_triangles C a bake_tangents 0 (ARRAY_INDEX a) v0 of
                            None \<Rightarrow> Crashed
                          | Some v \<Rightarrow> Returned (bd\<lparr>model := bv_model v\<rparr>))))"
proof (cases "m_custom_mesh config")
  case None
  then show ?thesis by (simp add: bake_mesh_geometry_def)
next
  case (Some r)
  show ?thesis
  proof (cases "surface_get_arrays (mesh_at h r)")
    case None
    with Some show ?thesis by (simp add: bake_mesh_geometry_def)
  next
    case arr: (Some arrays)
    show ?thesis
    proof (cases "length (ARRAY_INDEX arrays) mod 3 = 0")
      case False
      with Some arr show ?thesis by (simp add: bake_mesh_geometry_def)
    next
      case True
      then have "length (ARRAY_INDEX (fill_uvs arrays)) mod 3 = 0"
        by (simp add: fill_uvs_index)
      from bake_loop_start [OF this] Some arr True show ?thesis
        by (simp add: bake_mesh_geometry_def Let_def)
    qed
  qed
qed

subsection \<open>Masks and face classification\<close>

lemma filter_eq_upt: "filter (\<lambda>n. n = k) [0..<N] = (if k < N then [k] else [])"
  by (induction N) auto

lemma bit_pow: "bit (2 ^ k :: 8 word) n \<longleftrightarrow> n = k \<and> k < 8"
  by (auto simp add: bit_exp_iff possible_bit_word)

lemma bit_single: "bit (push_bit k 1 :: 8 word) n \<longleftrightarrow> n = k \<and> k < 8"
  by (simp add: bit_pow)

lemma pow_nz: "k < 8 \<Longrightarrow> (2 ^ k :: 8 word) \<noteq> 0"
proof
  assume k: "k < 8" and z: "(2 ^ k :: 8 word) = 0"
  have "bit (2 ^ k :: 8 word) k" using k by (simp add: bit_pow)
  then have "bit (0 :: 8 word) k" by (simp only: z)
  then show False by simp
qed

lemma bit_count_single: "k < 8 \<Longrightarrow> bit_count (2 ^ k) = 1"
proof -
  assume k: "k < 8"
  have "filter (bit (2 ^ k :: 8 word)) [0..<8] = filter (\<lambda>n. n = k) [0..<8]"
    by (rule filter_cong[OF refl]) (simp add: bit_pow k)
  then show ?thesis using k by (simp only: bit_count_def filter_eq_upt if_True length_Cons list.size One_nat_def)
qed

lemma length_one: "length xs = 1 \<Longrightarrow> \<exists>k. xs = [k]"
  by (cases xs) auto

lemma bit_count_one_imp: 
  assumes "bit_count m = 1"
  shows "\<exists>k<8. m = push_bit k 1"
proof -
  from assms have "\<exists>k. filter (bit m) [0..<8] = [k]"
    unfolding bit_count_def by (rule length_one)
  then obtain k where f: "filter (bit m) [0..<8] = [k]" ..
  have "set (filter (bit m) [0..<8]) = {k}" by (simp only: f list.set)
  then have s: "{n. n < 8 \<and> bit m n} = {k}" by auto
  then have k: "k < 8" "bit m k" by auto
  have "m = push_bit k 1"
  proof (rule bit_eqI)
    fix n
    show "bit m n = bit (push_bit k 1 :: 8 word) n"
    proof (cases "n < 8")
      case True
      then show ?thesis using s k unfolding bit_single by blast
    next
      case False
      then have "\<not> bit m n" by (auto dest: bit_imp_le_length)
      with False show ?thesis unfolding bit_single by blast
    qed
  qed
  with k show ?thesis by blast
qed

lemma bit_flag: "bit (push_bit k (of_bool b) :: 8 word) n \<longleftrightarrow> b \<and> n = k \<and> k < 8"
  by (cases b) (simp_all add: bit_pow)

lemma bit_get_sides:
  "bit (get_sides C p) n \<longleftrightarrow>
     ((n = SIDE_NEGATIVE_X C \<and> n < 8 \<and> is_equal_approx (v3_x p) 0 0.001) \<or>
      (n = SIDE_POSITIVE_X C \<and> n < 8 \<and> is_equal_approx (v3_x p) 1 0.001) \<or>
      (n = SIDE_NEGATIVE_Y C \<and> n < 8 \<and> is_equal_approx (v3_y p) 0 0.001) \<or>
      (n = SIDE_POSITIVE_Y C \<and> n < 8 \<and> is_equal_approx (v3_y p) 1 0.001) \<or>
      (n = SIDE_NEGATIVE_Z C \<and> n < 8 \<and> is_equal_approx (v3_z p) 0 0.001) \<or>
      (n = SIDE_POSITIVE_Z C \<and> n < 8 \<and> is_equal_approx (v3_z p) 1 0.001))"
  unfolding get_sides_def Let_def bit_or_iff bit_flag
  by (simp only: bit_0_eq) blast

lemma bit_get_sides_in: "bit (get_sides C p) n \<Longrightarrow> n \<in> set (side_values C)"
  unfolding bit_get_sides side_values_def by auto

lemma find_single:
  assumes "N \<le> 8"
  shows "find (\<lambda>side. (m::8 word) = 2 ^ side) [0..<N] = Some k \<longleftrightarrow> k < N \<and> m = 2 ^ k"
proof
  assume "find (\<lambda>side. m = 2 ^ side) [0..<N] = Some k"
  then show "k < N \<and> m = 2 ^ k"
    by (auto simp: find_Some_iff)
next
  assume r: "k < N \<and> m = 2 ^ k"
  have "\<And>j. j < k \<Longrightarrow> m \<noteq> 2 ^ j"
  proof
    fix j assume j: "j < k" and "m = 2 ^ j"
    with r have e: "(2 ^ k :: 8 word) = 2 ^ j" by simp
    have "bit (2 ^ k :: 8 word) k" using r assms by (simp add: bit_pow)
    then have "bit (2 ^ j :: 8 word) k" by (simp only: e)
    then show False using j by (simp add: bit_pow)
  qed
  with r show "find (\<lambda>side. m = 2 ^ side) [0..<N] = Some k"
    unfolding find_Some_iff by (intro exI[of _ k]) auto
qed

lemma get_triangle_side_Some:
  "get_triangle_side C a b c = Some side \<longleftrightarrow>
     side < SIDE_COUNT \<and> get_sides C a AND get_sides C b AND get_sides C c = push_bit side 1"
proof -
  show ?thesis
    using pow_nz [of side] by (auto simp: get_triangle_side_def Let_def find_single SIDE_COUNT_def)
qed

lemma get_triangle_side_iff_one_bit:
  assumes "valid_sides C"
  shows "(\<exists>side. get_triangle_side C a b c = Some side) \<longleftrightarrow>
         bit_count (get_sides C a AND get_sides C b AND get_sides C c) = 1"
proof
  assume "\<exists>side. get_triangle_side C a b c = Some side"
  then show "bit_count (get_sides C a AND get_sides C b AND get_sides C c) = 1"
    by (auto simp: get_triangle_side_Some SIDE_COUNT_def bit_count_single)
next
  assume "bit_count (get_sides C a AND get_sides C b AND get_sides C c) = 1"
  then obtain k where k: "k < 8" "get_sides C a AND get_sides C b AND get_sides C c = push_bit k 1"
    using bit_count_one_imp by blast
  then have "bit (get_sides C a AND get_sides C b AND get_sides C c) k"
    by (simp add: bit_pow)
  then have "bit (get_sides C a) k" by (simp add: bit_and_iff)
  then have "k \<in> set (side_values C)" by (rule bit_get_sides_in)
  with assms have "k < SIDE_COUNT" by (auto simp: valid_sides_def list_all_iff)
  with k show "\<exists>side. get_triangle_side C a b c = Some side"
    by (auto simp: get_triangle_side_Some)
qed

subsection \<open>First occurrences and their places\<close>

lemma firsts_snoc: "firsts (xs @ [s]) = (if s \<in> set xs then firsts xs else firsts xs @ [s])"
  by (simp add: firsts_def)

lemma set_firsts: "set (firsts xs) = set xs"
  by (simp add: firsts_def)

lemma distinct_firsts: "distinct (firsts xs)"
  by (simp add: firsts_def)

lemma index_of_append: "s \<in> set ys \<Longrightarrow> index_of (ys @ zs) s = index_of ys s"
  by (simp add: index_of_def takeWhile_append1)

lemma index_of_snoc: "s \<notin> set ys \<Longrightarrow> index_of (ys @ [s]) s = length ys"
  unfolding index_of_def by (induction ys) auto

lemma index_of_less: "s \<in> set ys \<Longrightarrow> index_of ys s < length ys"
  unfolding index_of_def by (induction ys) auto

lemma nth_index_of: "s \<in> set ys \<Longrightarrow> ys ! index_of ys s = s"
  unfolding index_of_def by (induction ys) auto

lemma index_of_inj: "s \<in> set ys \<Longrightarrow> t \<in> set ys \<Longrightarrow> index_of ys s = index_of ys t \<Longrightarrow> s = t"
  by (metis nth_index_of)

subsection \<open>The welding invariant of the triangle loop\<close>

lemma packed_get_Some: "packed_get xs i = Some x \<longleftrightarrow> 0 \<le> i \<and> i < int (length xs) \<and> x = xs ! nat i"
  by (auto simp: packed_get_def)

lemma vertex_tangent_length:
  assumes "vertex_tangent a bt tangent i = Some tg"
    and "bt \<and> length (ARRAY_TANGENT a) = 0 \<longrightarrow> length tangent = 4"
  shows "length tg = (if bt then 4 else 0)"
  using assms
  by (auto simp: vertex_tangent_def Let_def split: if_splits bind_splits)

lemma weld_new:
  assumes "s \<notin> set refs"
  shows "map (\<lambda>t. int (index_of (firsts (refs @ [s])) t)) (refs @ [s]) =
         map (\<lambda>t. int (index_of (firsts refs) t)) refs @ [int (length (firsts refs))]"
  using assms by (simp add: firsts_snoc index_of_snoc index_of_append set_firsts)

lemma weld_old:
  assumes "s \<in> set refs"
  shows "map (\<lambda>t. int (index_of (firsts (refs @ [s])) t)) (refs @ [s]) =
         map (\<lambda>t. int (index_of (firsts refs) t)) refs @ [int (index_of (firsts refs) s)]"
  using assms by (simp add: firsts_snoc)

lemma welded_other_side:
  assumes "welded a bt refs v k"
    and "bucket_indices (bv_model v') k = bucket_indices (bv_model v) k"
    and "bucket_positions (bv_model v') k = bucket_positions (bv_model v) k"
    and "bucket_uvs (bv_model v') k = bucket_uvs (bv_model v) k"
    and "bucket_tangents (bv_model v') k = bucket_tangents (bv_model v) k"
    and "bucket_added v' k = bucket_added v k"
  shows "welded a bt refs v' k"
  using assms by (simp add: welded_def)

lemma welded_step_new:
  assumes w: "welded a bt refs v k"
    and n: "bucket_added v k s = None"
    and i: "bucket_indices (bv_model v') k = bucket_indices (bv_model v) k @ [int (length (bucket_positions (bv_model v) k))]"
    and p: "bucket_positions (bv_model v') k = bucket_positions (bv_model v) k @ [ARRAY_VERTEX a ! nat s]"
    and u: "bucket_uvs (bv_model v') k = bucket_uvs (bv_model v) k @ [ARRAY_TEX_UV a ! nat s]"
    and t: "bucket_tangents (bv_model v') k = bucket_tangents (bv_model v) k @ tg"
    and tl: "length tg = (if bt then 4 else 0)"
    and m: "bucket_added v' k = (bucket_added v k)(s \<mapsto> int (length (bucket_positions (bv_model v) k)))"
  shows "welded a bt (refs @ [s]) v' k"
proof -
  from w n have notin: "s \<notin> set refs"
    by (auto simp: welded_def split: if_splits)
  from w have len: "length (bucket_positions (bv_model v) k) = length (firsts refs)"
    by (simp add: welded_def)
  have f: "firsts (refs @ [s]) = firsts refs @ [s]"
    using notin by (simp add: firsts_snoc)
  have a1: "bucket_indices (bv_model v') k = map (\<lambda>t. int (index_of (firsts (refs @ [s])) t)) (refs @ [s])"
    using w by (simp only: i len weld_new [OF notin]) (simp add: welded_def)
  have a2: "bucket_positions (bv_model v') k = map (\<lambda>s. ARRAY_VERTEX a ! nat s) (firsts (refs @ [s]))"
    using w by (simp add: p f welded_def)
  have a3: "bucket_uvs (bv_model v') k = map (\<lambda>s. ARRAY_TEX_UV a ! nat s) (firsts (refs @ [s]))"
    using w by (simp add: u f welded_def)
  have a4: "length (bucket_tangents (bv_model v') k) = (if bt then 4 * length (firsts (refs @ [s])) else 0)"
    using w by (simp add: t tl f welded_def)
  have a5: "bucket_added v' k = (\<lambda>t. if t \<in> set (refs @ [s]) then Some (int (index_of (firsts (refs @ [s])) t)) else None)"
  proof
    fix t
    show "bucket_added v' k t = (if t \<in> set (refs @ [s]) then Some (int (index_of (firsts (refs @ [s])) t)) else None)"
    proof (cases "t = s")
      case True
      then show ?thesis using notin by (simp add: m len f index_of_snoc set_firsts)
    next
      case False
      then show ?thesis using w by (simp add: m f index_of_append set_firsts welded_def)
    qed
  qed
  from a1 a2 a3 a4 a5 show ?thesis unfolding welded_def by blast
qed

lemma welded_step_old:
  assumes w: "welded a bt refs v k"
    and n: "bucket_added v k s = Some d"
    and i: "bucket_indices (bv_model v') k = bucket_indices (bv_model v) k @ [d]"
    and p: "bucket_positions (bv_model v') k = bucket_positions (bv_model v) k"
    and u: "bucket_uvs (bv_model v') k = bucket_uvs (bv_model v) k"
    and t: "bucket_tangents (bv_model v') k = bucket_tangents (bv_model v) k"
    and m: "bucket_added v' k = bucket_added v k"
  shows "welded a bt (refs @ [s]) v' k"
proof -
  from w n have isin: "s \<in> set refs" and d: "d = int (index_of (firsts refs) s)"
    by (auto simp: welded_def split: if_splits)
  have f: "firsts (refs @ [s]) = firsts refs"
    using isin by (simp add: firsts_snoc)
  have s: "set (refs @ [s]) = set refs" using isin by auto
  show ?thesis
    using w unfolding welded_def f s by (simp add: i p u t m d)
qed

lemma side_add_vertex_inv:
  assumes inv: "weld_inv a bt R v"
    and step: "side_add_vertex a bt tangent i side p s (v, n) = Some (v', n')"
    and n: "n = int (length (side_positions (bv_model v) side))"
    and p: "packed_get (ARRAY_VERTEX a) s = Some p"
    and tl: "bt \<and> length (ARRAY_TANGENT a) = 0 \<longrightarrow> length tangent = 4"
  shows "weld_inv a bt (R(Some side := R (Some side) @ [s])) v' \<and>
         n' = int (length (side_positions (bv_model v') side))"
proof -
  from inv have w: "\<And>k. welded a bt (R k) v k"
    and nr: "normals (bv_model v) = map (\<lambda>s. ARRAY_NORMAL a ! nat s) (firsts (R None))"
    by (simp_all add: weld_inv_def)
  from p have pv: "p = ARRAY_VERTEX a ! nat s" by (simp add: packed_get_Some)
  show ?thesis
  proof (cases "added_side_indices v side s")
    case None
    from step None obtain uv tg where
      uv: "packed_get (ARRAY_TEX_UV a) s = Some uv" and
      tg: "vertex_tangent a bt tangent i = Some tg" and
      v': "v' = v\<lparr>bv_model := (bv_model v)
              \<lparr>side_indices := (side_indices (bv_model v))(side := side_indices (bv_model v) side @ [n]),
               side_positions := (side_positions (bv_model v))(side := side_positions (bv_model v) side @ [p]),
               side_uvs := (side_uvs (bv_model v))(side := side_uvs (bv_model v) side @ [uv]),
               side_tangents := (side_tangents (bv_model v))(side := side_tangents (bv_model v) side @ tg)\<rparr>,
             added_side_indices := (added_side_indices v)
               (side := (added_side_indices v side)(s \<mapsto> n))\<rparr>" and
      n': "n' = n + 1"
      by (auto simp: side_add_vertex_def Let_def split: bind_splits)
    from uv have uvv: "uv = ARRAY_TEX_UV a ! nat s" by (simp add: packed_get_Some)
    have tgl: "length tg = (if bt then 4 else 0)"
      using tg tl by (rule vertex_tangent_length)
    have main: "welded a bt (R (Some side) @ [s]) v' (Some side)"
      by (rule welded_step_new [OF w [of "Some side"], where tg = tg])
         (simp_all add: None v' n pv uvv tgl)
    have other: "\<And>k. k \<noteq> Some side \<Longrightarrow> welded a bt (R k) v' k"
    proof -
      fix k :: "nat option" assume "k \<noteq> Some side"
      then show "welded a bt (R k) v' k"
        by (intro welded_other_side [OF w [of k]]) (cases k; simp add: v')+
    qed
    have "normals (bv_model v') = normals (bv_model v)" by (simp add: v')
    with main other nr show ?thesis
      by (simp add: weld_inv_def v' n' n)
  next
    case (Some d)
    from step Some have
      v': "v' = v\<lparr>bv_model := (bv_model v)
              \<lparr>side_indices := (side_indices (bv_model v))(side := side_indices (bv_model v) side @ [d])\<rparr>\<rparr>" and
      n': "n' = n"
      by (auto simp: side_add_vertex_def Let_def)
    have main: "welded a bt (R (Some side) @ [s]) v' (Some side)"
      by (rule welded_step_old [OF w [of "Some side"], where d = d])
         (simp_all add: Some v')
    have other: "\<And>k. k \<noteq> Some side \<Longrightarrow> welded a bt (R k) v' k"
    proof -
      fix k :: "nat option" assume "k \<noteq> Some side"
      then show "welded a bt (R k) v' k"
        by (intro welded_other_side [OF w [of k]]) (cases k; simp add: v')+
    qed
    have "normals (bv_model v') = normals (bv_model v)" by (simp add: v')
    with main other nr show ?thesis
      by (simp add: weld_inv_def v' n' n)
  qed
qed

lemma regular_add_vertex_inv:
  assumes inv: "weld_inv a bt R v"
    and step: "regular_add_vertex a bt tangent i p s (v, n) = Some (v', n')"
    and n: "n = int (length (positions (bv_model v)))"
    and p: "packed_get (ARRAY_VERTEX a) s = Some p"
    and tl: "bt \<and> length (ARRAY_TANGENT a) = 0 \<longrightarrow> length tangent = 4"
  shows "weld_inv a bt (R(None := R None @ [s])) v' \<and>
         n' = int (length (positions (bv_model v')))"
proof -
  from inv have w: "\<And>k. welded a bt (R k) v k"
    and nr: "normals (bv_model v) = map (\<lambda>s. ARRAY_NORMAL a ! nat s) (firsts (R None))"
    by (simp_all add: weld_inv_def)
  from p have pv: "p = ARRAY_VERTEX a ! nat s" by (simp add: packed_get_Some)
  show ?thesis
  proof (cases "added_regular_indices v s")
    case None
    from step None obtain nm uv tg where
      nm: "packed_get (ARRAY_NORMAL a) s = Some nm" and
      uv: "packed_get (ARRAY_TEX_UV a) s = Some uv" and
      tg: "vertex_tangent a bt tangent i = Some tg" and
      v': "v' = v\<lparr>bv_model := (bv_model v)
              \<lparr>indices := indices (bv_model v) @ [n],
               positions := positions (bv_model v) @ [p],
               normals := normals (bv_model v) @ [nm],
               uvs := uvs (bv_model v) @ [uv],
               tangents := tangents (bv_model v) @ tg\<rparr>,
             added_regular_indices := (added_regular_indices v)(s \<mapsto> n)\<rparr>" and
      n': "n' = n + 1"
      by (auto simp: regular_add_vertex_def Let_def split: bind_splits)
    from uv have uvv: "uv = ARRAY_TEX_UV a ! nat s" by (simp add: packed_get_Some)
    from nm have nmv: "nm = ARRAY_NORMAL a ! nat s" by (simp add: packed_get_Some)
    have tgl: "length tg = (if bt then 4 else 0)"
      using tg tl by (rule vertex_tangent_length)
    from w [of None] None have notin: "s \<notin> set (R None)"
      by (auto simp: welded_def split: if_splits)
    have main: "welded a bt (R None @ [s]) v' None"
      by (rule welded_step_new [OF w [of None], where tg = tg])
         (simp_all add: None v' n pv uvv tgl)
    have other: "\<And>k. k \<noteq> None \<Longrightarrow> welded a bt (R k) v' k"
    proof -
      fix k :: "nat option" assume "k \<noteq> None"
      then show "welded a bt (R k) v' k"
        by (intro welded_other_side [OF w [of k]]) (cases k; simp add: v')+
    qed
    have "normals (bv_model v') = map (\<lambda>s. ARRAY_NORMAL a ! nat s) (firsts (R None @ [s]))"
      using notin by (simp add: v' nr nmv firsts_snoc)
    with main other show ?thesis
      by (simp add: weld_inv_def v' n' n)
  next
    case (Some d)
    from step Some have
      v': "v' = v\<lparr>bv_model := (bv_model v)\<lparr>indices := indices (bv_model v) @ [d]\<rparr>\<rparr>" and
      n': "n' = n"
      by (auto simp: regular_add_vertex_def Let_def)
    from w [of None] Some have isin: "s \<in> set (R None)"
      by (auto simp: welded_def split: if_splits)
    have main: "welded a bt (R None @ [s]) v' None"
      by (rule welded_step_old [OF w [of None], where d = d])
         (simp_all add: Some v')
    have other: "\<And>k. k \<noteq> None \<Longrightarrow> welded a bt (R k) v' k"
    proof -
      fix k :: "nat option" assume "k \<noteq> None"
      then show "welded a bt (R k) v' k"
        by (intro welded_other_side [OF w [of k]]) (cases k; simp add: v')+
    qed
    have "normals (bv_model v') = map (\<lambda>s. ARRAY_NORMAL a ! nat s) (firsts (R None @ [s]))"
      using isin by (simp add: v' nr firsts_snoc)
    with main other show ?thesis
      by (simp add: weld_inv_def v' n' n)
  qed
qed

lemma generate_tangent_length: "generate_tangent a i0 i1 i2 p0 p1 p2 = Some t \<Longrightarrow> length t = 4"
  by (auto simp: generate_tangent_def Let_def split: bind_splits)

lemma bake_triangle_inv:
  assumes inv: "weld_inv a bt R v"
    and step: "bake_triangle C a bt i i0 i1 i2 v = Some v'"
  shows "weld_inv a bt
           (R(get_triangle_side C (ARRAY_VERTEX a ! nat i0) (ARRAY_VERTEX a ! nat i1) (ARRAY_VERTEX a ! nat i2) :=
                R (get_triangle_side C (ARRAY_VERTEX a ! nat i0) (ARRAY_VERTEX a ! nat i1) (ARRAY_VERTEX a ! nat i2))
                  @ [i0, i1, i2])) v'"
proof -
  from step obtain p0 p1 p2 tangent where
    p0: "packed_get (ARRAY_VERTEX a) i0 = Some p0" and
    p1: "packed_get (ARRAY_VERTEX a) i1 = Some p1" and
    p2: "packed_get (ARRAY_VERTEX a) i2 = Some p2" and
    tg: "(if length (ARRAY_TANGENT a) = 0 \<and> bt then generate_tangent a i0 i1 i2 p0 p1 p2 else Some [])
           = Some tangent" and
    rest: "(case get_triangle_side C p0 p1 p2 of
          Some side \<Rightarrow>
            do {
              let next_side_index = int (length (side_positions (bv_model v) side));
              st \<leftarrow> side_add_vertex a bt tangent i side p0 i0 (v, next_side_index);
              st \<leftarrow> side_add_vertex a bt tangent i side p1 i1 st;
              st \<leftarrow> side_add_vertex a bt tangent i side p2 i2 st;
              Some (fst st)
            }
        | None \<Rightarrow>
            do {
              let next_regular_index = int (length (positions (bv_model v)));
              st \<leftarrow> regular_add_vertex a bt tangent i p0 i0 (v, next_regular_index);
              st \<leftarrow> regular_add_vertex a bt tangent i p1 i1 st;
              st \<leftarrow> regular_add_vertex a bt tangent i p2 i2 st;
              Some (fst st)
            }) = Some v'"
    unfolding bake_triangle_def by (auto split: bind_splits)
  have tl: "bt \<and> length (ARRAY_TANGENT a) = 0 \<longrightarrow> length tangent = 4"
    using tg by (auto dest: generate_tangent_length split: if_splits)
  have pe: "ARRAY_VERTEX a ! nat i0 = p0" "ARRAY_VERTEX a ! nat i1 = p1" "ARRAY_VERTEX a ! nat i2 = p2"
    using p0 p1 p2 by (simp_all add: packed_get_Some)
  show ?thesis
  proof (cases "get_triangle_side C p0 p1 p2")
    case None
    from rest None obtain v1 n1 v2 n2 n3 where
      s1: "regular_add_vertex a bt tangent i p0 i0 (v, int (length (positions (bv_model v)))) = Some (v1, n1)" and
      s2: "regular_add_vertex a bt tangent i p1 i1 (v1, n1) = Some (v2, n2)" and
      s3: "regular_add_vertex a bt tangent i p2 i2 (v2, n2) = Some (v', n3)"
      by (auto simp: Let_def split: bind_splits)
    from regular_add_vertex_inv [OF inv s1 refl p0 tl]
    have i1: "weld_inv a bt (R(None := R None @ [i0])) v1" and l1: "n1 = int (length (positions (bv_model v1)))"
      by simp_all
    from regular_add_vertex_inv [OF i1 s2 l1 p1 tl]
    have i2: "weld_inv a bt (R(None := R None @ [i0, i1])) v2" and l2: "n2 = int (length (positions (bv_model v2)))"
      by simp_all
    from regular_add_vertex_inv [OF i2 s3 l2 p2 tl]
    have "weld_inv a bt (R(None := R None @ [i0, i1, i2])) v'"
      by simp
    then show ?thesis by (simp add: pe None)
  next
    case (Some side)
    from rest Some obtain v1 n1 v2 n2 n3 where
      s1: "side_add_vertex a bt tangent i side p0 i0 (v, int (length (side_positions (bv_model v) side))) = Some (v1, n1)" and
      s2: "side_add_vertex a bt tangent i side p1 i1 (v1, n1) = Some (v2, n2)" and
      s3: "side_add_vertex a bt tangent i side p2 i2 (v2, n2) = Some (v', n3)"
      by (auto simp: Let_def split: bind_splits)
    from side_add_vertex_inv [OF inv s1 refl p0 tl]
    have i1: "weld_inv a bt (R(Some side := R (Some side) @ [i0])) v1"
      and l1: "n1 = int (length (side_positions (bv_model v1) side))"
      by simp_all
    from side_add_vertex_inv [OF i1 s2 l1 p1 tl]
    have i2: "weld_inv a bt (R(Some side := R (Some side) @ [i0, i1])) v2"
      and l2: "n2 = int (length (side_positions (bv_model v2) side))"
      by simp_all
    from side_add_vertex_inv [OF i2 s3 l2 p2 tl]
    have "weld_inv a bt (R(Some side := R (Some side) @ [i0, i1, i2])) v'"
      by simp
    then show ?thesis by (simp add: pe Some)
  qed
qed

lemma bake_triangles_inv:
  "weld_inv a bt R v \<Longrightarrow> bake_triangles C a bt i idx v = Some v' \<Longrightarrow>
   weld_inv a bt (\<lambda>k. R k @ bucket_refs C (ARRAY_VERTEX a) k idx) v'"
proof (induction C a bt i idx v arbitrary: R rule: bake_triangles.induct)
  case (1 C a bt i i0 i1 i2 rest v)
  let ?k = "get_triangle_side C (ARRAY_VERTEX a ! nat i0) (ARRAY_VERTEX a ! nat i1) (ARRAY_VERTEX a ! nat i2)"
  from "1.prems"(2) obtain v1 where
    t: "bake_triangle C a bt i i0 i1 i2 v = Some v1" and
    r: "bake_triangles C a bt (i + 3) rest v1 = Some v'"
    by (auto split: option.splits)
  have "weld_inv a bt (R(?k := R ?k @ [i0, i1, i2])) v1"
    using "1.prems"(1) t by (rule bake_triangle_inv)
  from "1.IH" [OF t this r]
  have "weld_inv a bt (\<lambda>k. (R(?k := R ?k @ [i0, i1, i2])) k @ bucket_refs C (ARRAY_VERTEX a) k rest) v'" .
  moreover have "(\<lambda>k. (R(?k := R ?k @ [i0, i1, i2])) k @ bucket_refs C (ARRAY_VERTEX a) k rest) =
                 (\<lambda>k. R k @ bucket_refs C (ARRAY_VERTEX a) k (i0 # i1 # i2 # rest))"
    by (auto simp: fun_eq_iff)
  ultimately show ?case by simp
qed simp_all

lemma weld_inv_initial:
  "weld_inv a bt (\<lambda>_. [])
     \<lparr>bv_model = Model_clear, added_side_indices = (\<lambda>_. Map.empty), added_regular_indices = Map.empty\<rparr>"
proof -
  have "welded a bt []
     \<lparr>bv_model = Model_clear, added_side_indices = (\<lambda>_. Map.empty), added_regular_indices = Map.empty\<rparr> k"
    for k
    by (cases k) (simp_all add: welded_def Model_clear_def firsts_def)
  then show ?thesis
    by (simp add: weld_inv_def Model_clear_def firsts_def)
qed

lemma bake_mesh_geometry_welded:
  assumes mesh: "m_custom_mesh config = Some r"
    and arr: "surface_get_arrays (mesh_at h r) = Some arrays"
    and clr: "model baked_data = Model_clear"
    and ret: "bake_mesh_geometry C h config baked_data bt = Returned bd"
  shows "\<exists>v. bv_model v = model bd \<and>
           weld_inv (fill_uvs arrays) bt
             (\<lambda>k. bucket_refs C (ARRAY_VERTEX (fill_uvs arrays)) k (ARRAY_INDEX (fill_uvs arrays))) v"
proof -
  let ?a = "fill_uvs arrays"
  let ?v0 = "\<lparr>bv_model = Model_clear, added_side_indices = (\<lambda>_. Map.empty),
              added_regular_indices = Map.empty\<rparr>"
  from ret mesh arr clr obtain v where
    run: "bake_triangles C ?a bt 0 (ARRAY_INDEX ?a) ?v0 = Some v" and
    bd: "model bd = bv_model v"
    by (auto simp: bake_mesh_geometry_unfold Let_def split: if_splits option.splits)
  from bake_triangles_inv [OF weld_inv_initial run]
  have "weld_inv ?a bt (\<lambda>k. bucket_refs C (ARRAY_VERTEX ?a) k (ARRAY_INDEX ?a)) v"
    by simp
  with bd show ?thesis by auto
qed

lemma welded_reuse:
  assumes "n < length refs" "n' < length refs"
  shows "(int (index_of (firsts refs) (refs ! n)) = int (index_of (firsts refs) (refs ! n'))) =
         (refs ! n = refs ! n')"
  using assms by (metis index_of_inj nth_mem of_nat_eq_iff set_firsts)

lemma length_firsts: "length (firsts refs) = card (set refs)"
  by (metis distinct_card distinct_firsts set_firsts)

subsection \<open>The loops of the cube baker\<close>

lemma fold_cube_side_geometry:
  "fold (cube_side_geometry C) [0..<n] m =
     m\<lparr>side_positions := (\<lambda>s. if s < n then side_positions (cube_side_geometry C s m) s else side_positions m s),
       side_indices := (\<lambda>s. if s < n then side_indices (cube_side_geometry C s m) s else side_indices m s)\<rparr>"
proof (induction n)
  case 0
  show ?case by simp
next
  case (Suc n)
  show ?case
    by (simp add: Suc) (auto simp add: cube_side_geometry_def fun_eq_iff)
qed

lemma fold_cube_side_uvs:
  "fold (cube_side_uvs C config s bt) [0..<n] m =
     m\<lparr>side_uvs := (\<lambda>k. if k < n then side_uvs (cube_side_uvs C config s bt k m) k else side_uvs m k),
       side_tangents := (\<lambda>k. if k < n then side_tangents (cube_side_uvs C config s bt k m) k else side_tangents m k)\<rparr>"
proof (induction n)
  case 0
  show ?case by simp
next
  case (Suc n)
  show ?case
    by (simp add: Suc) (auto simp add: cube_side_uvs_def Let_def fun_eq_iff)
qed

lemma snap_y_id: "v3_y p = 1 \<Longrightarrow> Vector3f (v3_x p) 1 (v3_z p) = p"
  by (cases p) simp

lemma upt_4: "[0..<4] = [0, 1, 2, 3]"
  by (simp add: upt_rec)

lemma upt_6: "[0..<6] = [0, 1, 2, 3, 4, 5]"
  by (simp add: upt_rec)

lemma bake_cube_geometry_Returned:
  assumes "0 < n"
  shows "bake_cube_geometry C config bd n bt =
     Returned (bd\<lparr>model := fold (cube_side_uvs C config (1 / real_of_int n) bt) [0..<SIDE_COUNT]
                    (fold (cube_side_geometry C) [0..<SIDE_COUNT] (model bd)),
                 empty := False\<rparr>)"
  using assms by (simp add: bake_cube_geometry_def Let_def)

lemma cube_side_positions:
  assumes "side < SIDE_COUNT"
  shows "side_positions (fold (cube_side_uvs C config s bt) [0..<SIDE_COUNT]
                    (fold (cube_side_geometry C) [0..<SIDE_COUNT] m)) side =
         map (\<lambda>i. let p = g_corner_position C (g_side_corners C side i)
                   in if 0.9 < v3_y p then Vector3f (v3_x p) 1 (v3_z p) else p) [0..<4]"
  using assms
  by (simp add: fold_cube_side_geometry fold_cube_side_uvs cube_side_geometry_def Let_def)

lemma cube_side_indices:
  assumes "side < SIDE_COUNT"
  shows "side_indices (fold (cube_side_uvs C config s bt) [0..<SIDE_COUNT]
                    (fold (cube_side_geometry C) [0..<SIDE_COUNT] m)) side =
         map (g_side_quad_triangles C side) [0..<6]"
  using assms
  by (simp add: fold_cube_side_geometry fold_cube_side_uvs cube_side_geometry_def Let_def)

lemma cube_side_uvs_val:
  assumes "side < SIDE_COUNT"
  shows "side_uvs (fold (cube_side_uvs C config s bt) [0..<SIDE_COUNT] m) side =
         map (\<lambda>i. v2_scale (v2_add (m_cube_tiles config side) (cube_uv ! i)) s) [0..<4]"
  using assms
  by (simp add: fold_cube_side_uvs cube_side_uvs_def Let_def)

subsection \<open>Buckets a triangle leaves untouched\<close>

lemma bucket_same_refl: "bucket_same v v k"
  by (simp add: bucket_same_def)

lemma bucket_same_trans: "bucket_same v v1 k \<Longrightarrow> bucket_same v1 v2 k \<Longrightarrow> bucket_same v v2 k"
  by (simp add: bucket_same_def)

lemma side_add_vertex_frame:
  assumes step: "side_add_vertex a bt tangent i side p s (v, n) = Some (v', n')"
  shows "(\<forall>k. k \<noteq> Some side \<longrightarrow> bucket_same v v' k) \<and>
         normals (bv_model v') = normals (bv_model v) \<and>
         length (side_indices (bv_model v') side) = Suc (length (side_indices (bv_model v) side))"
proof -
  have "bucket_same v v' k" if "k \<noteq> Some side" for k
    using step that
    by (cases k; cases "added_side_indices v side s")
       (auto simp: side_add_vertex_def bucket_same_def Let_def split: bind_splits)
  moreover have "normals (bv_model v') = normals (bv_model v) \<and>
         length (side_indices (bv_model v') side) = Suc (length (side_indices (bv_model v) side))"
    using step
    by (cases "added_side_indices v side s")
       (auto simp: side_add_vertex_def Let_def split: bind_splits)
  ultimately show ?thesis by blast
qed

lemma regular_add_vertex_frame:
  assumes step: "regular_add_vertex a bt tangent i p s (v, n) = Some (v', n')"
    and p: "packed_get (ARRAY_VERTEX a) s = Some p"
  shows "(\<forall>k. k \<noteq> None \<longrightarrow> bucket_same v v' k) \<and>
         length (indices (bv_model v')) = Suc (length (indices (bv_model v))) \<and>
         (\<exists>new. set new \<subseteq> {s} \<and>
            positions (bv_model v') = positions (bv_model v) @ map (\<lambda>s. ARRAY_VERTEX a ! nat s) new \<and>
            normals (bv_model v') = normals (bv_model v) @ map (\<lambda>s. ARRAY_NORMAL a ! nat s) new)"
proof -
  have "bucket_same v v' k" if "k \<noteq> None" for k
    using step that
    by (cases k; cases "added_regular_indices v s")
       (auto simp: regular_add_vertex_def bucket_same_def Let_def split: bind_splits)
  moreover have "length (indices (bv_model v')) = Suc (length (indices (bv_model v)))"
    using step
    by (cases "added_regular_indices v s")
       (auto simp: regular_add_vertex_def Let_def split: bind_splits)
  moreover have "\<exists>new. set new \<subseteq> {s} \<and>
            positions (bv_model v') = positions (bv_model v) @ map (\<lambda>s. ARRAY_VERTEX a ! nat s) new \<and>
            normals (bv_model v') = normals (bv_model v) @ map (\<lambda>s. ARRAY_NORMAL a ! nat s) new"
  proof (cases "added_regular_indices v s")
    case None
    with step p have "positions (bv_model v') = positions (bv_model v) @ map (\<lambda>s. ARRAY_VERTEX a ! nat s) [s] \<and>
            normals (bv_model v') = normals (bv_model v) @ map (\<lambda>s. ARRAY_NORMAL a ! nat s) [s]"
      by (auto simp: regular_add_vertex_def Let_def packed_get_Some split: bind_splits)
    then show ?thesis by (intro exI [of _ "[s]"]) simp
  next
    case (Some d)
    with step have "positions (bv_model v') = positions (bv_model v) @ map (\<lambda>s. ARRAY_VERTEX a ! nat s) [] \<and>
            normals (bv_model v') = normals (bv_model v) @ map (\<lambda>s. ARRAY_NORMAL a ! nat s) []"
      by (auto simp: regular_add_vertex_def Let_def)
    then show ?thesis by (intro exI [of _ "[]"]) simp
  qed
  ultimately show ?thesis by blast
qed

lemma bake_triangle_frame:
  assumes step: "bake_triangle C a bt i i0 i1 i2 v = Some v'"
  shows "(case get_triangle_side C (ARRAY_VERTEX a ! nat i0) (ARRAY_VERTEX a ! nat i1) (ARRAY_VERTEX a ! nat i2) of
            None \<Rightarrow>
              (\<forall>side. bucket_same v v' (Some side)) \<and>
              length (indices (bv_model v')) = length (indices (bv_model v)) + 3 \<and>
              (\<exists>new. set new \<subseteq> {i0, i1, i2} \<and>
                 positions (bv_model v') = positions (bv_model v) @ map (\<lambda>s. ARRAY_VERTEX a ! nat s) new \<and>
                 normals (bv_model v') = normals (bv_model v) @ map (\<lambda>s. ARRAY_NORMAL a ! nat s) new)
          | Some side \<Rightarrow>
              (\<forall>k. k \<noteq> Some side \<longrightarrow> bucket_same v v' k) \<and>
              normals (bv_model v') = normals (bv_model v) \<and>
              length (side_indices (bv_model v') side) = length (side_indices (bv_model v) side) + 3)"
proof -
  from step obtain p0 p1 p2 tangent where
    p0: "packed_get (ARRAY_VERTEX a) i0 = Some p0" and
    p1: "packed_get (ARRAY_VERTEX a) i1 = Some p1" and
    p2: "packed_get (ARRAY_VERTEX a) i2 = Some p2" and
    rest: "(case get_triangle_side C p0 p1 p2 of
          Some side \<Rightarrow>
            do {
              let next_side_index = int (length (side_positions (bv_model v) side));
              st \<leftarrow> side_add_vertex a bt tangent i side p0 i0 (v, next_side_index);
              st \<leftarrow> side_add_vertex a bt tangent i side p1 i1 st;
              st \<leftarrow> side_add_vertex a bt tangent i side p2 i2 st;
              Some (fst st)
            }
        | None \<Rightarrow>
            do {
              let next_regular_index = int (length (positions (bv_model v)));
              st \<leftarrow> regular_add_vertex a bt tangent i p0 i0 (v, next_regular_index);
              st \<leftarrow> regular_add_vertex a bt tangent i p1 i1 st;
              st \<leftarrow> regular_add_vertex a bt tangent i p2 i2 st;
              Some (fst st)
            }) = Some v'"
    unfolding bake_triangle_def by (auto split: bind_splits)
  have pe: "ARRAY_VERTEX a ! nat i0 = p0" "ARRAY_VERTEX a ! nat i1 = p1" "ARRAY_VERTEX a ! nat i2 = p2"
    using p0 p1 p2 by (simp_all add: packed_get_Some)
  show ?thesis
  proof (cases "get_triangle_side C p0 p1 p2")
    case None
    from rest None obtain v1 n1 v2 n2 n3 where
      s1: "regular_add_vertex a bt tangent i p0 i0 (v, int (length (positions (bv_model v)))) = Some (v1, n1)" and
      s2: "regular_add_vertex a bt tangent i p1 i1 (v1, n1) = Some (v2, n2)" and
      s3: "regular_add_vertex a bt tangent i p2 i2 (v2, n2) = Some (v', n3)"
      by (auto simp: Let_def split: bind_splits)
    note f1 = regular_add_vertex_frame [OF s1 p0]
    note f2 = regular_add_vertex_frame [OF s2 p1]
    note f3 = regular_add_vertex_frame [OF s3 p2]
    from f1 have b1: "\<And>side. bucket_same v v1 (Some side)"
      and l1: "length (indices (bv_model v1)) = Suc (length (indices (bv_model v)))" by simp_all
    from f2 have b2: "\<And>side. bucket_same v1 v2 (Some side)"
      and l2: "length (indices (bv_model v2)) = Suc (length (indices (bv_model v1)))" by simp_all
    from f3 have b3: "\<And>side. bucket_same v2 v' (Some side)"
      and l3: "length (indices (bv_model v')) = Suc (length (indices (bv_model v2)))" by simp_all
    from f1 obtain new1 where n1: "set new1 \<subseteq> {i0}"
      "positions (bv_model v1) = positions (bv_model v) @ map (\<lambda>s. ARRAY_VERTEX a ! nat s) new1"
      "normals (bv_model v1) = normals (bv_model v) @ map (\<lambda>s. ARRAY_NORMAL a ! nat s) new1"
      by blast
    from f2 obtain new2 where n2: "set new2 \<subseteq> {i1}"
      "positions (bv_model v2) = positions (bv_model v1) @ map (\<lambda>s. ARRAY_VERTEX a ! nat s) new2"
      "normals (bv_model v2) = normals (bv_model v1) @ map (\<lambda>s. ARRAY_NORMAL a ! nat s) new2"
      by blast
    from f3 obtain new3 where n3: "set new3 \<subseteq> {i2}"
      "positions (bv_model v') = positions (bv_model v2) @ map (\<lambda>s. ARRAY_VERTEX a ! nat s) new3"
      "normals (bv_model v') = normals (bv_model v2) @ map (\<lambda>s. ARRAY_NORMAL a ! nat s) new3"
      by blast
    have same: "bucket_same v v' (Some side)" for side
      using b1 [of side] b2 [of side] b3 [of side] by (simp add: bucket_same_def)
    have len: "length (indices (bv_model v')) = length (indices (bv_model v)) + 3"
      using l1 l2 l3 by simp
    have "set (new1 @ new2 @ new3) \<subseteq> {i0, i1, i2} \<and>
          positions (bv_model v') = positions (bv_model v) @ map (\<lambda>s. ARRAY_VERTEX a ! nat s) (new1 @ new2 @ new3) \<and>
          normals (bv_model v') = normals (bv_model v) @ map (\<lambda>s. ARRAY_NORMAL a ! nat s) (new1 @ new2 @ new3)"
      using n1 n2 n3 by auto
    then have "\<exists>new. set new \<subseteq> {i0, i1, i2} \<and>
          positions (bv_model v') = positions (bv_model v) @ map (\<lambda>s. ARRAY_VERTEX a ! nat s) new \<and>
          normals (bv_model v') = normals (bv_model v) @ map (\<lambda>s. ARRAY_NORMAL a ! nat s) new"
      by blast
    with same len show ?thesis by (simp add: pe None)
  next
    case (Some side)
    from rest Some obtain v1 n1 v2 n2 n3 where
      s1: "side_add_vertex a bt tangent i side p0 i0 (v, int (length (side_positions (bv_model v) side))) = Some (v1, n1)" and
      s2: "side_add_vertex a bt tangent i side p1 i1 (v1, n1) = Some (v2, n2)" and
      s3: "side_add_vertex a bt tangent i side p2 i2 (v2, n2) = Some (v', n3)"
      by (auto simp: Let_def split: bind_splits)
    note f1 = side_add_vertex_frame [OF s1]
    note f2 = side_add_vertex_frame [OF s2]
    note f3 = side_add_vertex_frame [OF s3]
    have same: "bucket_same v v' k" if "k \<noteq> Some side" for k
    proof -
      from f1 f2 f3 that have "bucket_same v v1 k" "bucket_same v1 v2 k" "bucket_same v2 v' k"
        by simp_all
      then show ?thesis by (simp add: bucket_same_def)
    qed
    from f1 f2 f3 have "normals (bv_model v1) = normals (bv_model v)"
      "normals (bv_model v2) = normals (bv_model v1)" "normals (bv_model v') = normals (bv_model v2)"
      "length (side_indices (bv_model v1) side) = Suc (length (side_indices (bv_model v) side))"
      "length (side_indices (bv_model v2) side) = Suc (length (side_indices (bv_model v1) side))"
      "length (side_indices (bv_model v') side) = Suc (length (side_indices (bv_model v2) side))"
      by simp_all
    then have "normals (bv_model v') = normals (bv_model v) \<and>
          length (side_indices (bv_model v') side) = length (side_indices (bv_model v) side) + 3"
      by simp
    with same show ?thesis by (simp add: pe Some)
  qed
qed

subsection \<open>Masks of the sample mesh\<close>

lemma is_equal_approx_abs: "is_equal_approx a b 0.001 = (\<bar>a - b\<bar> < 0.001)"
  by (auto simp: is_equal_approx_def)

lemma valid_sides_lt: "valid_sides C \<Longrightarrow> n \<in> set (side_values C) \<Longrightarrow> n < 8"
  by (auto simp: valid_sides_def list_all_iff SIDE_COUNT_def)

lemma sample_valid: "valid_sides sample_cube"
  by (simp add: valid_sides_def side_values_def sample_cube_def SIDE_COUNT_def)

lemma gs0: "get_sides sample_cube (Vector3f 0 0 0) = 21"
  by (simp add: get_sides_def sample_cube_def is_equal_approx_def)

lemma gs1: "get_sides sample_cube (Vector3f 1 0 0) = 22"
  by (simp add: get_sides_def sample_cube_def is_equal_approx_def)

lemma gs2: "get_sides sample_cube (Vector3f 0 1 0) = 25"
  by (simp add: get_sides_def sample_cube_def is_equal_approx_def)

lemma gs3: "get_sides sample_cube (Vector3f 1 1 1) = 42"
  by (simp add: get_sides_def sample_cube_def is_equal_approx_def)

lemma gts1: "get_triangle_side sample_cube (Vector3f 0 0 0) (Vector3f 1 0 0) (Vector3f 0 1 0) = Some 4"
  by (simp add: get_triangle_side_def gs0 gs1 gs2 SIDE_COUNT_def upt_6)

lemma gts2: "get_triangle_side sample_cube (Vector3f 0 0 0) (Vector3f 1 0 0) (Vector3f 1 1 1) = None"
  by (simp add: get_triangle_side_def gs0 gs1 gs3)

lemma gs4: "get_sides sample_cube (Vector3f 1 1 0) = 26"
  by (simp add: get_sides_def sample_cube_def is_equal_approx_def)

lemma gts3: "get_triangle_side sample_cube (Vector3f 0 1 0) (Vector3f 1 0 0) (Vector3f 1 1 0) = Some 4"
  by (simp add: get_triangle_side_def gs1 gs2 gs4 SIDE_COUNT_def upt_6)

subsection \<open>First references\<close>

lemma index_of_first_occurrence:
  "s \<notin> set xs \<Longrightarrow> index_of (firsts (xs @ s # ys)) s = length (firsts xs)"
proof (induction ys rule: rev_induct)
  case Nil
  then show ?case by (simp add: firsts_snoc index_of_snoc set_firsts)
next
  case (snoc y ys)
  have "firsts (xs @ s # ys @ [y]) = firsts ((xs @ s # ys) @ [y])" by simp
  also have "\<dots> = (if y \<in> set (xs @ s # ys) then firsts (xs @ s # ys) else firsts (xs @ s # ys) @ [y])"
    by (rule firsts_snoc)
  finally show ?case
    using snoc by (simp add: index_of_append set_firsts)
qed

lemma index_of_nth_first:
  assumes "n < length refs" and "refs ! n \<notin> set (take n refs)"
  shows "index_of (firsts refs) (refs ! n) = card (set (take n refs))"
proof -
  have "refs = take n refs @ refs ! n # drop (Suc n) refs"
    using assms(1) by (simp add: id_take_nth_drop)
  then have "index_of (firsts refs) (refs ! n) =
             index_of (firsts (take n refs @ refs ! n # drop (Suc n) refs)) (refs ! n)"
    by simp
  also have "\<dots> = length (firsts (take n refs))"
    using assms(2) by (rule index_of_first_occurrence)
  finally show ?thesis by (simp add: length_firsts)
qed

lemma length_bucket_refs: "length (bucket_refs C ps k idx) mod 3 = 0"
  by (induction C ps k idx rule: bucket_refs.induct) simp_all

subsection \<open>The sample mesh\<close>

lemma sample_fill_uvs: "fill_uvs sample_arrays = sample_arrays"
  by (simp add: fill_uvs_def sample_arrays_def)

lemma sample_refs_side:
  "bucket_refs sample_cube (ARRAY_VERTEX sample_arrays) (Some 4) (ARRAY_INDEX sample_arrays) =
     [0, 1, 2, 2, 1, 4]"
  by (simp add: sample_arrays_def gts1 gts2 gts3)

lemma sample_refs_interior:
  "bucket_refs sample_cube (ARRAY_VERTEX sample_arrays) None (ARRAY_INDEX sample_arrays) = [0, 1, 3]"
  by (simp add: sample_arrays_def gts1 gts2 gts3)

lemma sample_mesh_facts:
  "m_custom_mesh mesh_model = Some 0" "surface_get_arrays (mesh_at mesh_heap 0) = Some sample_arrays"
  "model sample_baked = Model_clear" "m_geometry_type mesh_model = GEOMETRY_CUSTOM_MESH"
  by (simp_all add: mesh_model_def sample_model_def mesh_heap_def sample_baked_def)

lemmas bake_eval = bake_mesh_geometry_unfold mesh_heap_def mesh_model_def sample_model_def sample_arrays_def
  fill_uvs_def bake_triangle_def packed_get_def gts1 gts2 gts3 side_add_vertex_def
  regular_add_vertex_def vertex_tangent_def Let_def sample_baked_def Model_clear_def

subsection \<open>Index lists of the buckets\<close>

lemma bucket_Model_clear:
  "bucket_indices Model_clear k = []" "bucket_positions Model_clear k = []"
  by (cases k; simp add: Model_clear_def)+

lemma weld_inv_index_ok:
  assumes inv: "weld_inv a bt R v" and len: "length (R k) mod 3 = 0"
  shows "index_list_ok (bucket_indices (bv_model v) k) (length (bucket_positions (bv_model v) k))"
proof -
  from inv have w: "welded a bt (R k) v k" by (simp add: weld_inv_def)
  then have ix: "bucket_indices (bv_model v) k = map (\<lambda>s. int (index_of (firsts (R k)) s)) (R k)"
    and ps: "length (bucket_positions (bv_model v) k) = length (firsts (R k))"
    by (simp_all add: welded_def)
  have "\<forall>x\<in>set (bucket_indices (bv_model v) k). 0 \<le> x \<and> x < int (length (firsts (R k)))"
    by (auto simp: ix set_firsts intro: index_of_less)
  then show ?thesis using len by (simp add: index_list_ok_def ps ix)
qed

lemma bake_mesh_geometry_cases:
  assumes clr: "model b0 = Model_clear"
    and ret: "bake_mesh_geometry C h config b0 bt = Returned bd \<or>
              bake_mesh_geometry C h config b0 bt = ErrFailed bd"
  shows "model bd = Model_clear \<or>
         (\<exists>r arrays. m_custom_mesh config = Some r \<and> surface_get_arrays (mesh_at h r) = Some arrays \<and>
            bake_mesh_geometry C h config b0 bt = Returned bd)"
  using ret clr
  by (auto simp: bake_mesh_geometry_unfold Let_def split: option.splits if_splits)

lemma bake_mesh_geometry_index_ok:
  assumes clr: "model b0 = Model_clear"
    and ret: "bake_mesh_geometry C h config b0 bt = Returned bd \<or>
              bake_mesh_geometry C h config b0 bt = ErrFailed bd"
  shows "index_list_ok (bucket_indices (model bd) k) (length (bucket_positions (model bd) k))"
proof -
  from bake_mesh_geometry_cases [OF clr ret]
  show ?thesis
  proof
    assume "model bd = Model_clear"
    then show ?thesis by (simp add: bucket_Model_clear index_list_ok_def)
  next
    assume "\<exists>r arrays. m_custom_mesh config = Some r \<and> surface_get_arrays (mesh_at h r) = Some arrays \<and>
            bake_mesh_geometry C h config b0 bt = Returned bd"
    then obtain r arrays where m: "m_custom_mesh config = Some r"
      and a: "surface_get_arrays (mesh_at h r) = Some arrays"
      and r: "bake_mesh_geometry C h config b0 bt = Returned bd"
      by blast
    from bake_mesh_geometry_welded [OF m a clr r] obtain v where
      v: "bv_model v = model bd" and
      inv: "weld_inv (fill_uvs arrays) bt
             (\<lambda>k. bucket_refs C (ARRAY_VERTEX (fill_uvs arrays)) k (ARRAY_INDEX (fill_uvs arrays))) v"
      by blast
    from weld_inv_index_ok [OF inv, of k] show ?thesis
      by (simp add: length_bucket_refs v)
  qed
qed

lemma cube_fold_other:
  "positions (fold (cube_side_uvs C config s bt) [0..<N] (fold (cube_side_geometry C) [0..<N] m)) = positions m"
  "indices (fold (cube_side_uvs C config s bt) [0..<N] (fold (cube_side_geometry C) [0..<N] m)) = indices m"
  "N \<le> side \<Longrightarrow>
     side_positions (fold (cube_side_uvs C config s bt) [0..<N] (fold (cube_side_geometry C) [0..<N] m)) side =
       side_positions m side"
  "N \<le> side \<Longrightarrow>
     side_indices (fold (cube_side_uvs C config s bt) [0..<N] (fold (cube_side_geometry C) [0..<N] m)) side =
       side_indices m side"
  by (simp_all add: fold_cube_side_geometry fold_cube_side_uvs)

lemma bake_cube_geometry_index_ok:
  assumes tab: "\<forall>side<SIDE_COUNT. \<forall>i<6. 0 \<le> g_side_quad_triangles C side i \<and> g_side_quad_triangles C side i < 4"
    and clr: "model b0 = Model_clear"
    and ret: "bake_cube_geometry C config b0 n bt = Returned bd \<or>
              bake_cube_geometry C config b0 n bt = ErrFailed bd"
  shows "index_list_ok (bucket_indices (model bd) k) (length (bucket_positions (model bd) k))"
proof -
  have n: "0 < n" using ret by (auto simp: bake_cube_geometry_def Let_def split: if_splits)
  from ret have bd: "model bd = fold (cube_side_uvs C config (1 / real_of_int n) bt) [0..<SIDE_COUNT]
                    (fold (cube_side_geometry C) [0..<SIDE_COUNT] Model_clear)"
    by (auto simp: bake_cube_geometry_Returned [OF n] clr)
  show ?thesis
  proof (cases k)
    case None
    then show ?thesis by (simp add: bd cube_fold_other Model_clear_def index_list_ok_def)
  next
    case (Some side)
    show ?thesis
    proof (cases "side < SIDE_COUNT")
      case True
      with tab have "\<forall>i<6. 0 \<le> g_side_quad_triangles C side i \<and> g_side_quad_triangles C side i < 4"
        by blast
      then show ?thesis
        by (auto simp: Some bd cube_side_positions [OF True] cube_side_indices [OF True] index_list_ok_def)
    next
      case False
      then show ?thesis
        by (simp add: Some bd cube_fold_other Model_clear_def index_list_ok_def)
    qed
  qed
qed

lemma sample_quad_triangles:
  "\<forall>side<SIDE_COUNT. \<forall>i<6.
     0 \<le> g_side_quad_triangles sample_cube side i \<and> g_side_quad_triangles sample_cube side i < 4"
proof -
  have "\<forall>i\<in>set [0..<6]. 0 \<le> [0, 2, 1, 0, 3, 2::int] ! i \<and> [0, 2, 1, 0, 3, 2::int] ! i < 4"
    unfolding upt_6 by simp
  then show ?thesis by (simp add: sample_cube_def)
qed

subsection \<open>Emptiness and scalar fields\<close>

lemma BakedData_clear_scalars:
  "(BakedData_clear baked_data)\<lparr>transparency_index := t, material_id := m, color := c\<rparr> =
     \<lparr>model = Model_clear, color = c, transparency_index = t, material_id = m, empty = True\<rparr>"
  by (cases baked_data) (simp add: BakedData_clear_def)

lemma packed_get_Nil: "packed_get [] i = None"
  by (auto simp: packed_get_def)

lemma bake_triangles_no_positions:
  "ARRAY_VERTEX a = [] \<Longrightarrow> bake_triangles C a bt i idx v = Some v' \<Longrightarrow> v' = v"
proof (induction C a bt i idx v rule: bake_triangles.induct)
  case (1 C a bt i i0 i1 i2 rest v)
  from "1.prems"(1) have "bake_triangle C a bt i i0 i1 i2 v = None"
    by (simp add: bake_triangle_def packed_get_Nil)
  with "1.prems"(2) show ?case by simp
qed simp_all

lemma bake_cube_geometry_scalars:
  assumes "bake_cube_geometry C config b0 n bt = Returned bd \<or> bake_cube_geometry C config b0 n bt = ErrFailed bd"
  shows "color bd = color b0 \<and> transparency_index bd = transparency_index b0 \<and>
         material_id bd = material_id b0 \<and> \<not> empty bd"
  using assms by (auto simp: bake_cube_geometry_def Let_def split: if_splits)

lemma bake_mesh_geometry_scalars:
  assumes "bake_mesh_geometry C h config b0 bt = Returned bd \<or> bake_mesh_geometry C h config b0 bt = ErrFailed bd"
  shows "color bd = color b0 \<and> transparency_index bd = transparency_index b0 \<and>
         material_id bd = material_id b0"
  using assms by (auto simp: bake_mesh_geometry_unfold Let_def split: if_splits option.splits)

lemma bake_mesh_geometry_empty:
  assumes ret: "bake_mesh_geometry C h config b0 bt = Returned bd \<or> bake_mesh_geometry C h config b0 bt = ErrFailed bd"
    and clr: "model b0 = Model_clear"
  shows "(m_custom_mesh config = None \<longrightarrow> empty bd \<and> model bd = Model_clear) \<and>
         (\<forall>r arrays. m_custom_mesh config = Some r \<longrightarrow> surface_get_arrays (mesh_at h r) = Some arrays \<longrightarrow>
            length (ARRAY_INDEX arrays) mod 3 = 0 \<longrightarrow> empty bd = (ARRAY_VERTEX arrays = [])) \<and>
         (empty bd \<longrightarrow> model bd = Model_clear)"
proof -
  have p1: "m_custom_mesh config = None \<longrightarrow> empty bd \<and> model bd = Model_clear"
    using ret clr by (auto simp: bake_mesh_geometry_unfold)
  have p2: "\<forall>r arrays. m_custom_mesh config = Some r \<longrightarrow> surface_get_arrays (mesh_at h r) = Some arrays \<longrightarrow>
            length (ARRAY_INDEX arrays) mod 3 = 0 \<longrightarrow> empty bd = (ARRAY_VERTEX arrays = [])"
    using ret by (auto simp: bake_mesh_geometry_unfold Let_def split: if_splits option.splits)
  have p3: "empty bd \<longrightarrow> model bd = Model_clear"
  proof (intro impI)
    assume e: "empty bd"
    show "model bd = Model_clear"
    proof (cases "\<exists>r arrays v. m_custom_mesh config = Some r \<and> surface_get_arrays (mesh_at h r) = Some arrays \<and>
        bake_triangles C (fill_uvs arrays) bt 0 (ARRAY_INDEX (fill_uvs arrays))
          \<lparr>bv_model = Model_clear, added_side_indices = (\<lambda>_. Map.empty), added_regular_indices = Map.empty\<rparr> = Some v \<and>
        model bd = bv_model v \<and> empty bd = (ARRAY_VERTEX arrays = [])")
      case True
      then obtain r arrays v where
        run: "bake_triangles C (fill_uvs arrays) bt 0 (ARRAY_INDEX (fill_uvs arrays))
          \<lparr>bv_model = Model_clear, added_side_indices = (\<lambda>_. Map.empty), added_regular_indices = Map.empty\<rparr> = Some v"
        and m: "model bd = bv_model v" and em: "empty bd = (ARRAY_VERTEX arrays = [])"
        by blast
      from e em have "ARRAY_VERTEX (fill_uvs arrays) = []" by (simp add: fill_uvs_def)
      from bake_triangles_no_positions [OF this run] m show ?thesis by simp
    next
      case False
      with ret clr show ?thesis
        by (auto simp: bake_mesh_geometry_unfold Let_def split: if_splits option.splits)
    qed
  qed
  show ?thesis by (intro conjI p1 p2 p3)
qed

lemma bake_cases:
  assumes "bake C h config baked_data n bt = Returned (config', bd) \<or>
           bake C h config baked_data n bt = ErrFailed (config', bd)"
  shows "config' = config\<lparr>m_empty := empty bd\<rparr> \<and>
     (let b0 = \<lparr>model = Model_clear, color = m_color config,
                transparency_index = m_transparency_index config,
                material_id = m_material_id config, empty = True\<rparr>
      in (m_geometry_type config = GEOMETRY_NONE \<and> bd = b0) \<or>
         (m_geometry_type config = GEOMETRY_MAX \<and> bd = b0) \<or>
         (m_geometry_type config = GEOMETRY_CUBE \<and>
            (bake_cube_geometry C config b0 n bt = Returned bd \<or>
             bake_cube_geometry C config b0 n bt = ErrFailed bd)) \<or>
         (m_geometry_type config = GEOMETRY_CUSTOM_MESH \<and>
            (bake_mesh_geometry C h config b0 bt = Returned bd \<or>
             bake_mesh_geometry C h config b0 bt = ErrFailed bd)))"
  using assms unfolding bake_def Let_def BakedData_clear_scalars
  by (cases "m_geometry_type config") (auto split: outcome.splits)

lemma bake_ignores_m_empty:
  "bake C h (config\<lparr>m_empty := e\<rparr>) baked_data n bt =
     (case bake C h config baked_data n bt of
        Returned (c, b) \<Rightarrow> Returned (c\<lparr>m_empty := empty b\<rparr>, b)
      | ErrFailed (c, b) \<Rightarrow> ErrFailed (c\<lparr>m_empty := empty b\<rparr>, b)
      | Crashed \<Rightarrow> Crashed)"
proof -
  have c: "bake_cube_geometry C (config\<lparr>m_empty := e\<rparr>) b n bt = bake_cube_geometry C config b n bt" for b
    by (simp add: bake_cube_geometry_def cube_side_uvs_def [abs_def])
  have m: "bake_mesh_geometry C h (config\<lparr>m_empty := e\<rparr>) b bt = bake_mesh_geometry C h config b bt" for b
    by (simp add: bake_mesh_geometry_unfold)
  show ?thesis
    unfolding bake_def Let_def
    by (cases "m_geometry_type config") (simp_all add: c m split: outcome.splits)
qed

lemma bake_prior_record:
  "bake C h config baked_data' n bt = bake C h config baked_data n bt"
  unfolding bake_def Let_def BakedData_clear_scalars ..

subsection \<open>When the triangle loop does not crash\<close>

lemma packed_get_in_range: "0 \<le> i \<Longrightarrow> i < int (length xs) \<Longrightarrow> packed_get xs i = Some (xs ! nat i)"
  by (simp add: packed_get_def)

lemma vertex_tangent_total:
  assumes "bt \<longrightarrow> ARRAY_TANGENT a = [] \<or> (int i div 3) * 4 + 4 \<le> int (length (ARRAY_TANGENT a))"
  shows "\<exists>tg. vertex_tangent a bt tangent i = Some tg"
proof (cases "bt \<and> ARRAY_TANGENT a \<noteq> []")
  case True
  with assms have l: "(int i div 3) * 4 + 4 \<le> int (length (ARRAY_TANGENT a))" by blast
  have nn: "0 \<le> (int i div 3) * 4" by simp
  have "packed_get (ARRAY_TANGENT a) ((int i div 3) * 4) = Some (ARRAY_TANGENT a ! nat ((int i div 3) * 4))"
    "packed_get (ARRAY_TANGENT a) ((int i div 3) * 4 + 1) = Some (ARRAY_TANGENT a ! nat ((int i div 3) * 4 + 1))"
    "packed_get (ARRAY_TANGENT a) ((int i div 3) * 4 + 2) = Some (ARRAY_TANGENT a ! nat ((int i div 3) * 4 + 2))"
    "packed_get (ARRAY_TANGENT a) ((int i div 3) * 4 + 3) = Some (ARRAY_TANGENT a ! nat ((int i div 3) * 4 + 3))"
    using l nn by (intro packed_get_in_range; linarith)+
  with True show ?thesis by (simp add: vertex_tangent_def Let_def)
next
  case False
  then show ?thesis by (auto simp: vertex_tangent_def)
qed

lemma side_add_vertex_total:
  assumes "0 \<le> s" "s < int (length (ARRAY_TEX_UV a))"
    and "bt \<longrightarrow> ARRAY_TANGENT a = [] \<or> (int i div 3) * 4 + 4 \<le> int (length (ARRAY_TANGENT a))"
  shows "\<exists>st'. side_add_vertex a bt tangent i side p s st = Some st'"
proof -
  from vertex_tangent_total [OF assms(3)] obtain tg where tg: "vertex_tangent a bt tangent i = Some tg"
    by blast
  have uv: "packed_get (ARRAY_TEX_UV a) s = Some (ARRAY_TEX_UV a ! nat s)"
    using assms(1,2) by (rule packed_get_in_range)
  show ?thesis
    by (cases st; cases "added_side_indices (fst st) side s")
       (simp_all add: side_add_vertex_def Let_def tg uv)
qed

lemma regular_add_vertex_total:
  assumes "0 \<le> s" "s < int (length (ARRAY_TEX_UV a))" "s < int (length (ARRAY_NORMAL a))"
    and "bt \<longrightarrow> ARRAY_TANGENT a = [] \<or> (int i div 3) * 4 + 4 \<le> int (length (ARRAY_TANGENT a))"
  shows "\<exists>st'. regular_add_vertex a bt tangent i p s st = Some st'"
proof -
  from vertex_tangent_total [OF assms(4)] obtain tg where tg: "vertex_tangent a bt tangent i = Some tg"
    by blast
  have uv: "packed_get (ARRAY_TEX_UV a) s = Some (ARRAY_TEX_UV a ! nat s)"
    using assms(1,2) by (rule packed_get_in_range)
  have nm: "packed_get (ARRAY_NORMAL a) s = Some (ARRAY_NORMAL a ! nat s)"
    using assms(1,3) by (rule packed_get_in_range)
  show ?thesis
    by (cases st; cases "added_regular_indices (fst st) s")
       (simp_all add: regular_add_vertex_def Let_def tg uv nm)
qed

lemma generate_tangent_total:
  assumes "src_ok a i0" "src_ok a i1" "src_ok a i2"
  shows "\<exists>t. generate_tangent a i0 i1 i2 p0 p1 p2 = Some t"
  using assms by (simp add: generate_tangent_def src_ok_def packed_get_in_range Let_def)

lemma bake_triangle_total:
  assumes s: "src_ok a i0" "src_ok a i1" "src_ok a i2"
    and t: "bt \<longrightarrow> ARRAY_TANGENT a = [] \<or> (int i div 3) * 4 + 4 \<le> int (length (ARRAY_TANGENT a))"
  shows "\<exists>v'. bake_triangle C a bt i i0 i1 i2 v = Some v'"
proof -
  let ?p0 = "ARRAY_VERTEX a ! nat i0" and ?p1 = "ARRAY_VERTEX a ! nat i1" and ?p2 = "ARRAY_VERTEX a ! nat i2"
  have p: "packed_get (ARRAY_VERTEX a) i0 = Some ?p0" "packed_get (ARRAY_VERTEX a) i1 = Some ?p1"
    "packed_get (ARRAY_VERTEX a) i2 = Some ?p2"
    using s by (simp_all add: src_ok_def packed_get_in_range)
  obtain tangent where tg: "(if length (ARRAY_TANGENT a) = 0 \<and> bt
                    then generate_tangent a i0 i1 i2 ?p0 ?p1 ?p2 else Some []) = Some tangent"
    using generate_tangent_total [OF s, of ?p0 ?p1 ?p2] by (cases "length (ARRAY_TANGENT a) = 0 \<and> bt") auto
  have r: "0 \<le> i0" "i0 < int (length (ARRAY_TEX_UV a))" "i0 < int (length (ARRAY_NORMAL a))"
    "0 \<le> i1" "i1 < int (length (ARRAY_TEX_UV a))" "i1 < int (length (ARRAY_NORMAL a))"
    "0 \<le> i2" "i2 < int (length (ARRAY_TEX_UV a))" "i2 < int (length (ARRAY_NORMAL a))"
    using s by (simp_all add: src_ok_def)
  show ?thesis
  proof (cases "get_triangle_side C ?p0 ?p1 ?p2")
    case None
    obtain st1 where a1: "regular_add_vertex a bt tangent i ?p0 i0
        (v, int (length (positions (bv_model v)))) = Some st1"
      using regular_add_vertex_total [OF r(1,2,3) t] by blast
    obtain st2 where a2: "regular_add_vertex a bt tangent i ?p1 i1 st1 = Some st2"
      using regular_add_vertex_total [OF r(4,5,6) t] by blast
    obtain st3 where a3: "regular_add_vertex a bt tangent i ?p2 i2 st2 = Some st3"
      using regular_add_vertex_total [OF r(7,8,9) t] by blast
    show ?thesis
      unfolding bake_triangle_def
      by (simp only: p tg None bind.bind_lunit option.case Let_def a1 a2 a3) simp
  next
    case (Some side)
    obtain st1 where a1: "side_add_vertex a bt tangent i side ?p0 i0
        (v, int (length (side_positions (bv_model v) side))) = Some st1"
      using side_add_vertex_total [OF r(1,2) t] by blast
    obtain st2 where a2: "side_add_vertex a bt tangent i side ?p1 i1 st1 = Some st2"
      using side_add_vertex_total [OF r(4,5) t] by blast
    obtain st3 where a3: "side_add_vertex a bt tangent i side ?p2 i2 st2 = Some st3"
      using side_add_vertex_total [OF r(7,8) t] by blast
    show ?thesis
      unfolding bake_triangle_def
      by (simp only: p tg Some bind.bind_lunit option.case Let_def a1 a2 a3) simp
  qed
qed

lemma bake_triangles_total:
  assumes "\<forall>s\<in>set idx. src_ok a s"
    and "bt \<longrightarrow> ARRAY_TANGENT a = [] \<or> 4 * ((i + length idx) div 3) \<le> length (ARRAY_TANGENT a)"
  shows "\<exists>v'. bake_triangles C a bt i idx v = Some v'"
  using assms
proof (induction C a bt i idx v rule: bake_triangles.induct)
  case (1 C a bt i i0 i1 i2 rest v)
  have s: "src_ok a i0" "src_ok a i1" "src_ok a i2" using "1.prems"(1) by simp_all
  have d: "(i + length (i0 # i1 # i2 # rest)) div 3 = (i + 3 + length rest) div 3"
    by (simp add: add.assoc add.commute)
  have ge: "i div 3 + 1 \<le> (i + 3 + length rest) div 3"
    by presburger
  have t: "bt \<longrightarrow> ARRAY_TANGENT a = [] \<or> (int i div 3) * 4 + 4 \<le> int (length (ARRAY_TANGENT a))"
  proof (intro impI)
    assume bt
    with "1.prems"(2) have "ARRAY_TANGENT a = [] \<or> 4 * ((i + 3 + length rest) div 3) \<le> length (ARRAY_TANGENT a)"
      by (simp only: d)
    then show "ARRAY_TANGENT a = [] \<or> (int i div 3) * 4 + 4 \<le> int (length (ARRAY_TANGENT a))"
    proof
      assume "ARRAY_TANGENT a = []" then show ?thesis by blast
    next
      assume "4 * ((i + 3 + length rest) div 3) \<le> length (ARRAY_TANGENT a)"
      with ge have "(i div 3) * 4 + 4 \<le> length (ARRAY_TANGENT a)" by linarith
      then have "int ((i div 3) * 4 + 4) \<le> int (length (ARRAY_TANGENT a))" by (simp only: of_nat_le_iff)
      then have "(int i div 3) * 4 + 4 \<le> int (length (ARRAY_TANGENT a))"
        by (simp add: zdiv_int)
      then show ?thesis by blast
    qed
  qed
  from bake_triangle_total [OF s t] obtain v1 where v1: "bake_triangle C a bt i i0 i1 i2 v = Some v1"
    by blast
  have "\<exists>v'. bake_triangles C a bt (i + 3) rest v1 = Some v'"
  proof (rule "1.IH" [OF v1])
    show "\<forall>s\<in>set rest. src_ok a s" using "1.prems"(1) by simp
    show "bt \<longrightarrow> ARRAY_TANGENT a = [] \<or> 4 * ((i + 3 + length rest) div 3) \<le> length (ARRAY_TANGENT a)"
      using "1.prems"(2) by (simp only: d)
  qed
  then show ?case by (simp add: v1)
qed simp_all

subsection \<open>Bake of a custom mesh\<close>

lemma bake_custom_mesh:
  assumes "m_geometry_type config = GEOMETRY_CUSTOM_MESH"
  shows "bake C h config baked_data n bt =
     (case bake_mesh_geometry C h config
             \<lparr>model = Model_clear, color = m_color config,
              transparency_index = m_transparency_index config,
              material_id = m_material_id config, empty = True\<rparr> bt of
        Returned b \<Rightarrow> Returned (config\<lparr>m_empty := empty b\<rparr>, b)
      | ErrFailed b \<Rightarrow> ErrFailed (config\<lparr>m_empty := empty b\<rparr>, b)
      | Crashed \<Rightarrow> Crashed)"
  unfolding bake_def Let_def BakedData_clear_scalars by (simp add: assms)

lemma bake_mesh_geometry_uv_fill:
  assumes "m_custom_mesh config = Some r"
    and "surface_get_arrays (mesh_at h r) = Some arrays"
    and "ARRAY_TEX_UV arrays = []"
    and "surface_get_arrays (mesh_at h' r) =
           Some (arrays\<lparr>ARRAY_TEX_UV := replicate (length (ARRAY_VERTEX arrays)) (Vector2f 0 0)\<rparr>)"
  shows "bake_mesh_geometry C h config b bt = bake_mesh_geometry C h' config b bt"
proof -
  have "fill_uvs (arrays\<lparr>ARRAY_TEX_UV := replicate (length (ARRAY_VERTEX arrays)) (Vector2f 0 0)\<rparr>) =
        fill_uvs arrays"
    using assms(3) by (simp add: fill_uvs_def)
  then show ?thesis
    using assms by (simp add: bake_mesh_geometry_unfold Let_def)
qed

lemma bake_mesh_geometry_total:
  assumes m: "m_custom_mesh config = Some r"
    and a: "surface_get_arrays (mesh_at h r) = Some arrays"
    and uv: "ARRAY_TEX_UV arrays = []"
    and l: "length (ARRAY_INDEX arrays) mod 3 = 0"
    and nn: "ARRAY_NORMAL arrays \<noteq> []"
    and nl: "length (ARRAY_VERTEX arrays) \<le> length (ARRAY_NORMAL arrays)"
    and ix: "\<forall>s\<in>set (ARRAY_INDEX arrays). 0 \<le> s \<and> s < int (length (ARRAY_VERTEX arrays))"
    and tg: "bt \<longrightarrow> ARRAY_TANGENT arrays = [] \<or>
               4 * (length (ARRAY_INDEX arrays) div 3) \<le> length (ARRAY_TANGENT arrays)"
  shows "\<exists>bd. bake_mesh_geometry C h config b bt = Returned bd"
proof -
  let ?a = "fill_uvs arrays"
  have f: "ARRAY_VERTEX ?a = ARRAY_VERTEX arrays" "ARRAY_NORMAL ?a = ARRAY_NORMAL arrays"
    "ARRAY_INDEX ?a = ARRAY_INDEX arrays" "ARRAY_TANGENT ?a = ARRAY_TANGENT arrays"
    "length (ARRAY_TEX_UV ?a) = length (ARRAY_VERTEX arrays)"
    using uv by (simp_all add: fill_uvs_def)
  have ok: "\<forall>s\<in>set (ARRAY_INDEX ?a). src_ok ?a s"
    using ix nl by (auto simp: src_ok_def f)
  have t: "bt \<longrightarrow> ARRAY_TANGENT ?a = [] \<or>
             4 * ((0 + length (ARRAY_INDEX ?a)) div 3) \<le> length (ARRAY_TANGENT ?a)"
    using tg by (simp add: f)
  from bake_triangles_total [OF ok t] obtain v where
    "bake_triangles C ?a bt 0 (ARRAY_INDEX ?a)
       \<lparr>bv_model = model (b\<lparr>empty := (length (ARRAY_VERTEX arrays) = 0)\<rparr>),
        added_side_indices = (\<lambda>_. Map.empty), added_regular_indices = Map.empty\<rparr> = Some v"
    by blast
  then show ?thesis
    using m a l nn by (simp add: bake_mesh_geometry_unfold Let_def)
qed

section \<open>Geometry kind switch\<close>

text \<open>
  C9 (as the code has it). Setting the kind the model already has changes nothing. Switching
  to another kind: None empties the collision boxes; Cube replaces them by the single full
  unit box and sets the emptiness flag to false; CustomMesh changes the kind and nothing
  else, so boxes and emptiness flag stay as they were. For None the statement is up to the
  emptiness flag.
\<close>

theorem set_geometry_type_effect:
  "(type = m_geometry_type c \<longrightarrow> set_geometry_type type c = c) \<and>
   (m_geometry_type c \<noteq> GEOMETRY_NONE \<longrightarrow>
      (set_geometry_type GEOMETRY_NONE c)\<lparr>m_empty := e\<rparr> =
        c\<lparr>m_geometry_type := GEOMETRY_NONE, m_collision_aabbs := [], m_empty := e\<rparr>) \<and>
   (m_geometry_type c \<noteq> GEOMETRY_CUBE \<longrightarrow>
      set_geometry_type GEOMETRY_CUBE c =
        c\<lparr>m_geometry_type := GEOMETRY_CUBE,
          m_collision_aabbs := [AABB (Vector3f 0 0 0) (Vector3f 1 1 1)],
          m_empty := False\<rparr>) \<and>
   (m_geometry_type c \<noteq> GEOMETRY_CUSTOM_MESH \<longrightarrow>
      set_geometry_type GEOMETRY_CUSTOM_MESH c = c\<lparr>m_geometry_type := GEOMETRY_CUSTOM_MESH\<rparr>)"
  by (auto simp: set_geometry_type_def Let_def)

theorem set_geometry_type_effect_witness:
  "set_geometry_type GEOMETRY_CUBE sample_model = sample_model \<and>
   m_collision_aabbs (set_geometry_type GEOMETRY_NONE sample_model) = [] \<and>
   set_geometry_type GEOMETRY_CUBE (sample_model\<lparr>m_geometry_type := GEOMETRY_NONE, m_empty := True\<rparr>) =
     sample_model\<lparr>m_empty := False\<rparr> \<and>
   set_geometry_type GEOMETRY_CUSTOM_MESH sample_model =
     sample_model\<lparr>m_geometry_type := GEOMETRY_CUSTOM_MESH\<rparr>"
proof -
  have k: "m_geometry_type sample_model = GEOMETRY_CUBE"
    by (simp add: sample_model_def)
  have a: "set_geometry_type GEOMETRY_CUBE sample_model = sample_model"
    using set_geometry_type_effect [of GEOMETRY_CUBE sample_model] k by simp
  have "(set_geometry_type GEOMETRY_NONE sample_model)\<lparr>m_empty := True\<rparr> =
        sample_model\<lparr>m_geometry_type := GEOMETRY_NONE, m_collision_aabbs := [], m_empty := True\<rparr>"
    using set_geometry_type_effect [of GEOMETRY_CUBE sample_model True] k by simp
  then have "m_collision_aabbs ((set_geometry_type GEOMETRY_NONE sample_model)\<lparr>m_empty := True\<rparr>) = []"
    by simp
  then have b: "m_collision_aabbs (set_geometry_type GEOMETRY_NONE sample_model) = []"
    by simp
  have c: "set_geometry_type GEOMETRY_CUBE
             (sample_model\<lparr>m_geometry_type := GEOMETRY_NONE, m_empty := True\<rparr>) =
           sample_model\<lparr>m_empty := False\<rparr>"
    using set_geometry_type_effect
      [of GEOMETRY_NONE "sample_model\<lparr>m_geometry_type := GEOMETRY_NONE, m_empty := True\<rparr>"]
    by (simp add: sample_model_def)
  have d: "set_geometry_type GEOMETRY_CUSTOM_MESH sample_model =
           sample_model\<lparr>m_geometry_type := GEOMETRY_CUSTOM_MESH\<rparr>"
    using set_geometry_type_effect [of GEOMETRY_CUBE sample_model] k by simp
  from a b c d show ?thesis by simp
qed

text \<open>
  C9 (as stated) fails: a switch to CustomMesh does not write the emptiness flag. Two cube
  models that differ in the flag alone still differ in it after the switch. Nor does the
  switch of a cube model to None write it.
\<close>

theorem set_geometry_type_flag_counterexample:
  "m_geometry_type sample_model = GEOMETRY_CUBE \<and>
   m_empty (set_geometry_type GEOMETRY_CUSTOM_MESH (sample_model\<lparr>m_empty := True\<rparr>)) = True \<and>
   m_empty (set_geometry_type GEOMETRY_CUSTOM_MESH (sample_model\<lparr>m_empty := False\<rparr>)) = False \<and>
   m_empty (set_geometry_type GEOMETRY_NONE (sample_model\<lparr>m_empty := True\<rparr>)) = True \<and>
   m_empty (set_geometry_type GEOMETRY_NONE (sample_model\<lparr>m_empty := False\<rparr>)) = False"
  by (simp add: set_geometry_type_def sample_model_def)

section \<open>Duplication\<close>

text \<open>
  C10. The copy has id -1 whatever the original's id; name, material id, transparency index,
  colour, geometry type, cube tiles, collision boxes, random-tickable flag and emptiness flag
  are the original's. Without sub-resources the mesh reference and the store are the
  original's. With sub-resources and a non-null reference to an allocated mesh, the copy
  refers to a newly allocated mesh, different from the original's, with the same contents,
  and the meshes already in the store are untouched; a null reference stays null.
\<close>

theorem duplicate_copy:
  "(case duplicate decl h c p_subresources of (h', d) \<Rightarrow>
      m_id d = -1 \<and>
      m_name d = m_name c \<and>
      m_material_id d = m_material_id c \<and>
      m_transparency_index d = m_transparency_index c \<and>
      m_color d = m_color c \<and>
      m_geometry_type d = m_geometry_type c \<and>
      m_cube_tiles d = m_cube_tiles c \<and>
      m_collision_aabbs d = m_collision_aabbs c \<and>
      m_random_tickable d = m_random_tickable c \<and>
      m_empty d = m_empty c \<and>
      (\<not> p_subresources \<longrightarrow> m_custom_mesh d = m_custom_mesh c \<and> h' = h) \<and>
      (p_subresources \<longrightarrow>
         (case m_custom_mesh c of
            None \<Rightarrow> m_custom_mesh d = None \<and> h' = h
          | Some r \<Rightarrow>
              m_custom_mesh d = Some (heap_size h) \<and>
              heap_size h' = heap_size h + 1 \<and>
              mesh_at h' (heap_size h) = mesh_at h r \<and>
              (\<forall>a. a \<noteq> heap_size h \<longrightarrow> mesh_at h' a = mesh_at h a) \<and>
              (r < heap_size h \<longrightarrow> m_custom_mesh d \<noteq> m_custom_mesh c))))"
  by (auto simp: duplicate_def VoxelBlockyModel_ctor_def mesh_duplicate_def heap_alloc_def
      Let_def split: option.splits)

theorem duplicate_copy_witness:
  "m_id (snd (duplicate sample_model sample_heap sample_model True)) = -1 \<and>
   m_name (snd (duplicate sample_model sample_heap sample_model True)) = ''stone'' \<and>
   m_custom_mesh (snd (duplicate sample_model sample_heap sample_model True)) = Some 1 \<and>
   m_custom_mesh (snd (duplicate sample_model sample_heap sample_model False)) = Some 0 \<and>
   fst (duplicate sample_model sample_heap sample_model False) = sample_heap"
proof -
  have m: "m_custom_mesh sample_model = Some 0" "m_name sample_model = ''stone''"
    "heap_size sample_heap = 1"
    by (simp_all add: sample_model_def sample_heap_def)
  show ?thesis
    using duplicate_copy [where decl = sample_model and h = sample_heap and c = sample_model
        and p_subresources = True]
      duplicate_copy [where decl = sample_model and h = sample_heap and c = sample_model
        and p_subresources = False] m
    by (auto split: prod.splits)
qed

section \<open>Cube geometry\<close>

text \<open>
  C3. For an atlas size \<open>n > 0\<close> the cube baker returns a record that is not empty and
  whose six side buckets hold: four positions, the \<open>i\<close>-th being the corner
  \<open>g_corner_position[g_side_corners[side][i]]\<close> of the table with its height snapped to 1
  when above 0.9 (so the table's corner itself when its height is at most 0.9 or is 1); the six
  indices \<open>g_side_quad_triangles[side][0..5]\<close>; and the four UVs (tile + corner UV) / n, the
  corner UVs being (e, 1-e), (1-e, 1-e), (1-e, e), (e, e) with e = 0.001. For \<open>n \<le> 0\<close> the call
  crashes.
\<close>

theorem bake_cube_geometry_faces:
  "(0 < n \<longrightarrow>
      (\<exists>bd. bake_cube_geometry C config baked_data n bake_tangents = Returned bd \<and>
         \<not> empty bd \<and>
         (\<forall>side<SIDE_COUNT.
            length (side_positions (model bd) side) = 4 \<and>
            (\<forall>i<4. let p = g_corner_position C (g_side_corners C side i) in
                     side_positions (model bd) side ! i =
                       (if 0.9 < v3_y p then Vector3f (v3_x p) 1 (v3_z p) else p) \<and>
                     (v3_y p \<le> 0.9 \<or> v3_y p = 1 \<longrightarrow> side_positions (model bd) side ! i = p)) \<and>
            side_indices (model bd) side = map (g_side_quad_triangles C side) [0..<6] \<and>
            side_uvs (model bd) side =
              (let e = 0.001; t = m_cube_tiles config side in
               [Vector2f ((v2_x t + e) / real_of_int n) ((v2_y t + (1 - e)) / real_of_int n),
                Vector2f ((v2_x t + (1 - e)) / real_of_int n) ((v2_y t + (1 - e)) / real_of_int n),
                Vector2f ((v2_x t + (1 - e)) / real_of_int n) ((v2_y t + e) / real_of_int n),
                Vector2f ((v2_x t + e) / real_of_int n) ((v2_y t + e) / real_of_int n)])))) \<and>
   (n \<le> 0 \<longrightarrow> bake_cube_geometry C config baked_data n bake_tangents = Crashed)"
proof (intro conjI impI)
  assume n: "0 < n"
  let ?m = "fold (cube_side_uvs C config (1 / real_of_int n) bake_tangents) [0..<SIDE_COUNT]
                    (fold (cube_side_geometry C) [0..<SIDE_COUNT] (model baked_data))"
  let ?bd = "baked_data\<lparr>model := ?m, empty := False\<rparr>"
  have r: "bake_cube_geometry C config baked_data n bake_tangents = Returned ?bd"
    using n by (rule bake_cube_geometry_Returned)
  have "length (side_positions ?m side) = 4 \<and>
        (\<forall>i<4. let p = g_corner_position C (g_side_corners C side i) in
                     side_positions ?m side ! i =
                       (if 0.9 < v3_y p then Vector3f (v3_x p) 1 (v3_z p) else p) \<and>
                     (v3_y p \<le> 0.9 \<or> v3_y p = 1 \<longrightarrow> side_positions ?m side ! i = p)) \<and>
        side_indices ?m side = map (g_side_quad_triangles C side) [0..<6] \<and>
        side_uvs ?m side =
              (let e = 0.001; t = m_cube_tiles config side in
               [Vector2f ((v2_x t + e) / real_of_int n) ((v2_y t + (1 - e)) / real_of_int n),
                Vector2f ((v2_x t + (1 - e)) / real_of_int n) ((v2_y t + (1 - e)) / real_of_int n),
                Vector2f ((v2_x t + (1 - e)) / real_of_int n) ((v2_y t + e) / real_of_int n),
                Vector2f ((v2_x t + e) / real_of_int n) ((v2_y t + e) / real_of_int n)])"
    if s: "side < SIDE_COUNT" for side
  proof (intro conjI)
    show "length (side_positions ?m side) = 4"
      by (simp add: cube_side_positions [OF s])
    show "\<forall>i<4. let p = g_corner_position C (g_side_corners C side i) in
                     side_positions ?m side ! i =
                       (if 0.9 < v3_y p then Vector3f (v3_x p) 1 (v3_z p) else p) \<and>
                     (v3_y p \<le> 0.9 \<or> v3_y p = 1 \<longrightarrow> side_positions ?m side ! i = p)"
      by (auto simp add: cube_side_positions [OF s] Let_def snap_y_id)
    show "side_indices ?m side = map (g_side_quad_triangles C side) [0..<6]"
      by (rule cube_side_indices [OF s])
    show "side_uvs ?m side =
              (let e = 0.001; t = m_cube_tiles config side in
               [Vector2f ((v2_x t + e) / real_of_int n) ((v2_y t + (1 - e)) / real_of_int n),
                Vector2f ((v2_x t + (1 - e)) / real_of_int n) ((v2_y t + (1 - e)) / real_of_int n),
                Vector2f ((v2_x t + (1 - e)) / real_of_int n) ((v2_y t + e) / real_of_int n),
                Vector2f ((v2_x t + e) / real_of_int n) ((v2_y t + e) / real_of_int n)])"
      by (simp add: cube_side_uvs_val [OF s] upt_4 cube_uv_def v2_scale_def v2_add_def Let_def
          divide_simps)
  qed
  then show "\<exists>bd. bake_cube_geometry C config baked_data n bake_tangents = Returned bd \<and>
         \<not> empty bd \<and>
         (\<forall>side<SIDE_COUNT.
            length (side_positions (model bd) side) = 4 \<and>
            (\<forall>i<4. let p = g_corner_position C (g_side_corners C side i) in
                     side_positions (model bd) side ! i =
                       (if 0.9 < v3_y p then Vector3f (v3_x p) 1 (v3_z p) else p) \<and>
                     (v3_y p \<le> 0.9 \<or> v3_y p = 1 \<longrightarrow> side_positions (model bd) side ! i = p)) \<and>
            side_indices (model bd) side = map (g_side_quad_triangles C side) [0..<6] \<and>
            side_uvs (model bd) side =
              (let e = 0.001; t = m_cube_tiles config side in
               [Vector2f ((v2_x t + e) / real_of_int n) ((v2_y t + (1 - e)) / real_of_int n),
                Vector2f ((v2_x t + (1 - e)) / real_of_int n) ((v2_y t + (1 - e)) / real_of_int n),
                Vector2f ((v2_x t + (1 - e)) / real_of_int n) ((v2_y t + e) / real_of_int n),
                Vector2f ((v2_x t + e) / real_of_int n) ((v2_y t + e) / real_of_int n)]))"
    by (intro exI [of _ ?bd]) (simp add: r)
next
  assume "n \<le> 0"
  then show "bake_cube_geometry C config baked_data n bake_tangents = Crashed"
    by (simp add: bake_cube_geometry_def Let_def)
qed

theorem bake_cube_geometry_faces_witness:
  "(\<exists>bd. bake_cube_geometry sample_cube sample_model sample_baked 4 False = Returned bd \<and>
      \<not> empty bd \<and>
      length (side_positions (model bd) 0) = 4 \<and>
      side_positions (model bd) 0 ! 2 = Vector3f 0 1 1 \<and>
      side_indices (model bd) 0 = [0, 2, 1, 0, 3, 2] \<and>
      side_uvs (model bd) 0 =
        [Vector2f (1 / 4000) (999 / 4000), Vector2f (999 / 4000) (999 / 4000),
         Vector2f (999 / 4000) (1 / 4000), Vector2f (1 / 4000) (1 / 4000)]) \<and>
   bake_cube_geometry sample_cube sample_model sample_baked 0 False = Crashed"
proof -
  note t = bake_cube_geometry_faces
    [where n = 4 and C = sample_cube and config = sample_model and baked_data = sample_baked
       and bake_tangents = False]
  note t0 = bake_cube_geometry_faces
    [where n = 0 and C = sample_cube and config = sample_model and baked_data = sample_baked
       and bake_tangents = False]
  from t obtain bd where
    r: "bake_cube_geometry sample_cube sample_model sample_baked 4 False = Returned bd" and
    e: "\<not> empty bd" and
    f: "\<forall>side<SIDE_COUNT.
            length (side_positions (model bd) side) = 4 \<and>
            (\<forall>i<4. let p = g_corner_position sample_cube (g_side_corners sample_cube side i) in
                     side_positions (model bd) side ! i =
                       (if 0.9 < v3_y p then Vector3f (v3_x p) 1 (v3_z p) else p) \<and>
                     (v3_y p \<le> 0.9 \<or> v3_y p = 1 \<longrightarrow> side_positions (model bd) side ! i = p)) \<and>
            side_indices (model bd) side = map (g_side_quad_triangles sample_cube side) [0..<6] \<and>
            side_uvs (model bd) side =
              (let e = 0.001; t = m_cube_tiles sample_model side in
               [Vector2f ((v2_x t + e) / real_of_int 4) ((v2_y t + (1 - e)) / real_of_int 4),
                Vector2f ((v2_x t + (1 - e)) / real_of_int 4) ((v2_y t + (1 - e)) / real_of_int 4),
                Vector2f ((v2_x t + (1 - e)) / real_of_int 4) ((v2_y t + e) / real_of_int 4),
                Vector2f ((v2_x t + e) / real_of_int 4) ((v2_y t + e) / real_of_int 4)])"
    by auto
  have s: "(0::nat) < SIDE_COUNT" by (simp add: SIDE_COUNT_def)
  from f [rule_format, OF s] have
    a: "length (side_positions (model bd) 0) = 4" and
    b: "\<forall>i<4. let p = g_corner_position sample_cube (g_side_corners sample_cube 0 i) in
                     side_positions (model bd) 0 ! i =
                       (if 0.9 < v3_y p then Vector3f (v3_x p) 1 (v3_z p) else p) \<and>
                     (v3_y p \<le> 0.9 \<or> v3_y p = 1 \<longrightarrow> side_positions (model bd) 0 ! i = p)" and
    c: "side_indices (model bd) 0 = map (g_side_quad_triangles sample_cube 0) [0..<6]" and
    d: "side_uvs (model bd) 0 =
              (let e = 0.001; t = m_cube_tiles sample_model 0 in
               [Vector2f ((v2_x t + e) / real_of_int 4) ((v2_y t + (1 - e)) / real_of_int 4),
                Vector2f ((v2_x t + (1 - e)) / real_of_int 4) ((v2_y t + (1 - e)) / real_of_int 4),
                Vector2f ((v2_x t + (1 - e)) / real_of_int 4) ((v2_y t + e) / real_of_int 4),
                Vector2f ((v2_x t + e) / real_of_int 4) ((v2_y t + e) / real_of_int 4)])"
    by blast+
  have two: "(2::nat) < 4" by simp
  from b [rule_format, OF two] have b2: "side_positions (model bd) 0 ! 2 = Vector3f 0 1 1"
    by (simp add: sample_cube_def Let_def)
  from c have c2: "side_indices (model bd) 0 = [0, 2, 1, 0, 3, 2]"
    by (simp add: sample_cube_def upt_6)
  from d have d2: "side_uvs (model bd) 0 =
        [Vector2f (1 / 4000) (999 / 4000), Vector2f (999 / 4000) (999 / 4000),
         Vector2f (999 / 4000) (1 / 4000), Vector2f (1 / 4000) (1 / 4000)]"
    by (simp add: sample_model_def Let_def)
  from t0 have z: "bake_cube_geometry sample_cube sample_model sample_baked 0 False = Crashed"
    by simp
  from r e a b2 c2 d2 z show ?thesis by blast
qed

section \<open>Triangle classification\<close>

text \<open>
  C1. Let the six side constants be distinct values below 6. Bit \<open>n\<close> of a vertex mask is set
  exactly when \<open>n\<close> is the side of a face plane the vertex is within 0.001 of. A triangle is put
  on a face exactly when the AND of its three vertex masks has exactly one bit set, and the
  face is that bit. In the triangle loop, a triangle whose combined mask does not have exactly
  one bit set leaves every side bucket as it was, adds three indices to the interior bucket,
  and every vertex it appends there is one of its own source vertices, with that vertex's
  normal; a triangle whose combined mask is the single bit \<open>side\<close> leaves the interior bucket
  and the other side buckets as they were and adds three indices to that side's bucket.
\<close>

theorem triangle_face_classification:
  assumes "valid_sides C"
  shows
    "(\<forall>n. bit (get_sides C p) n =
        ((n = SIDE_NEGATIVE_X C \<and> \<bar>v3_x p - 0\<bar> < 0.001) \<or>
         (n = SIDE_POSITIVE_X C \<and> \<bar>v3_x p - 1\<bar> < 0.001) \<or>
         (n = SIDE_NEGATIVE_Y C \<and> \<bar>v3_y p - 0\<bar> < 0.001) \<or>
         (n = SIDE_POSITIVE_Y C \<and> \<bar>v3_y p - 1\<bar> < 0.001) \<or>
         (n = SIDE_NEGATIVE_Z C \<and> \<bar>v3_z p - 0\<bar> < 0.001) \<or>
         (n = SIDE_POSITIVE_Z C \<and> \<bar>v3_z p - 1\<bar> < 0.001))) \<and>
     ((\<exists>side. get_triangle_side C p0 p1 p2 = Some side) =
        (bit_count (get_sides C p0 AND get_sides C p1 AND get_sides C p2) = 1)) \<and>
     (\<forall>side. (get_triangle_side C p0 p1 p2 = Some side) =
        (side < SIDE_COUNT \<and> get_sides C p0 AND get_sides C p1 AND get_sides C p2 = push_bit side 1)) \<and>
     (\<forall>v'. bake_triangle C a bake_tangents i i0 i1 i2 v = Some v' \<longrightarrow>
        bit_count (get_sides C (ARRAY_VERTEX a ! nat i0) AND get_sides C (ARRAY_VERTEX a ! nat i1)
                     AND get_sides C (ARRAY_VERTEX a ! nat i2)) \<noteq> 1 \<longrightarrow>
          (\<forall>side. bucket_same v v' (Some side)) \<and>
          length (indices (bv_model v')) = length (indices (bv_model v)) + 3 \<and>
          (\<exists>new. set new \<subseteq> {i0, i1, i2} \<and>
             positions (bv_model v') = positions (bv_model v) @ map (\<lambda>s. ARRAY_VERTEX a ! nat s) new \<and>
             normals (bv_model v') = normals (bv_model v) @ map (\<lambda>s. ARRAY_NORMAL a ! nat s) new)) \<and>
     (\<forall>v' side. bake_triangle C a bake_tangents i i0 i1 i2 v = Some v' \<longrightarrow>
        side < SIDE_COUNT \<longrightarrow>
        get_sides C (ARRAY_VERTEX a ! nat i0) AND get_sides C (ARRAY_VERTEX a ! nat i1)
          AND get_sides C (ARRAY_VERTEX a ! nat i2) = push_bit side 1 \<longrightarrow>
          (\<forall>k. k \<noteq> Some side \<longrightarrow> bucket_same v v' k) \<and>
          normals (bv_model v') = normals (bv_model v) \<and>
          length (side_indices (bv_model v') side) = length (side_indices (bv_model v) side) + 3)"
proof -
  have lt: "SIDE_NEGATIVE_X C < 8" "SIDE_POSITIVE_X C < 8" "SIDE_NEGATIVE_Y C < 8"
    "SIDE_POSITIVE_Y C < 8" "SIDE_NEGATIVE_Z C < 8" "SIDE_POSITIVE_Z C < 8"
    using assms by (simp_all add: valid_sides_def side_values_def SIDE_COUNT_def)
  have p1: "\<forall>n. bit (get_sides C p) n =
        ((n = SIDE_NEGATIVE_X C \<and> \<bar>v3_x p - 0\<bar> < 0.001) \<or>
         (n = SIDE_POSITIVE_X C \<and> \<bar>v3_x p - 1\<bar> < 0.001) \<or>
         (n = SIDE_NEGATIVE_Y C \<and> \<bar>v3_y p - 0\<bar> < 0.001) \<or>
         (n = SIDE_POSITIVE_Y C \<and> \<bar>v3_y p - 1\<bar> < 0.001) \<or>
         (n = SIDE_NEGATIVE_Z C \<and> \<bar>v3_z p - 0\<bar> < 0.001) \<or>
         (n = SIDE_POSITIVE_Z C \<and> \<bar>v3_z p - 1\<bar> < 0.001))"
    unfolding bit_get_sides is_equal_approx_abs
    using lt by blast
  have p2: "(\<exists>side. get_triangle_side C p0 p1 p2 = Some side) =
        (bit_count (get_sides C p0 AND get_sides C p1 AND get_sides C p2) = 1)"
    using assms by (rule get_triangle_side_iff_one_bit)
  have p3: "\<forall>side. (get_triangle_side C p0 p1 p2 = Some side) =
        (side < SIDE_COUNT \<and> get_sides C p0 AND get_sides C p1 AND get_sides C p2 = push_bit side 1)"
    by (intro allI) (rule get_triangle_side_Some)
  have p4: "\<forall>v'. bake_triangle C a bake_tangents i i0 i1 i2 v = Some v' \<longrightarrow>
        bit_count (get_sides C (ARRAY_VERTEX a ! nat i0) AND get_sides C (ARRAY_VERTEX a ! nat i1)
                     AND get_sides C (ARRAY_VERTEX a ! nat i2)) \<noteq> 1 \<longrightarrow>
          (\<forall>side. bucket_same v v' (Some side)) \<and>
          length (indices (bv_model v')) = length (indices (bv_model v)) + 3 \<and>
          (\<exists>new. set new \<subseteq> {i0, i1, i2} \<and>
             positions (bv_model v') = positions (bv_model v) @ map (\<lambda>s. ARRAY_VERTEX a ! nat s) new \<and>
             normals (bv_model v') = normals (bv_model v) @ map (\<lambda>s. ARRAY_NORMAL a ! nat s) new)"
  proof (intro allI impI)
    fix v'
    assume step: "bake_triangle C a bake_tangents i i0 i1 i2 v = Some v'"
      and nb: "bit_count (get_sides C (ARRAY_VERTEX a ! nat i0) AND get_sides C (ARRAY_VERTEX a ! nat i1)
                     AND get_sides C (ARRAY_VERTEX a ! nat i2)) \<noteq> 1"
    from nb have none: "get_triangle_side C (ARRAY_VERTEX a ! nat i0) (ARRAY_VERTEX a ! nat i1)
                        (ARRAY_VERTEX a ! nat i2) = None"
      using get_triangle_side_iff_one_bit [OF assms, of "ARRAY_VERTEX a ! nat i0" "ARRAY_VERTEX a ! nat i1"
        "ARRAY_VERTEX a ! nat i2"]
      by (simp only: not_Some_eq [symmetric]) simp
    from bake_triangle_frame [OF step] none
    show "(\<forall>side. bucket_same v v' (Some side)) \<and>
          length (indices (bv_model v')) = length (indices (bv_model v)) + 3 \<and>
          (\<exists>new. set new \<subseteq> {i0, i1, i2} \<and>
             positions (bv_model v') = positions (bv_model v) @ map (\<lambda>s. ARRAY_VERTEX a ! nat s) new \<and>
             normals (bv_model v') = normals (bv_model v) @ map (\<lambda>s. ARRAY_NORMAL a ! nat s) new)"
      by simp
  qed
  have p5: "\<forall>v' side. bake_triangle C a bake_tangents i i0 i1 i2 v = Some v' \<longrightarrow>
        side < SIDE_COUNT \<longrightarrow>
        get_sides C (ARRAY_VERTEX a ! nat i0) AND get_sides C (ARRAY_VERTEX a ! nat i1)
          AND get_sides C (ARRAY_VERTEX a ! nat i2) = push_bit side 1 \<longrightarrow>
          (\<forall>k. k \<noteq> Some side \<longrightarrow> bucket_same v v' k) \<and>
          normals (bv_model v') = normals (bv_model v) \<and>
          length (side_indices (bv_model v') side) = length (side_indices (bv_model v) side) + 3"
  proof (intro allI impI)
    fix v' side
    assume step: "bake_triangle C a bake_tangents i i0 i1 i2 v = Some v'"
      and s: "side < SIDE_COUNT"
      and m: "get_sides C (ARRAY_VERTEX a ! nat i0) AND get_sides C (ARRAY_VERTEX a ! nat i1)
          AND get_sides C (ARRAY_VERTEX a ! nat i2) = push_bit side 1"
    from s m have some: "get_triangle_side C (ARRAY_VERTEX a ! nat i0) (ARRAY_VERTEX a ! nat i1)
                        (ARRAY_VERTEX a ! nat i2) = Some side"
      by (simp only: get_triangle_side_Some)
    from bake_triangle_frame [OF step] some
    show "(\<forall>k. k \<noteq> Some side \<longrightarrow> bucket_same v v' k) \<and>
          normals (bv_model v') = normals (bv_model v) \<and>
          length (side_indices (bv_model v') side) = length (side_indices (bv_model v) side) + 3"
      by simp
  qed
  show ?thesis
    by (intro conjI p1 p2 p3 p4 p5)
qed

theorem triangle_face_classification_witness:
  "valid_sides sample_cube \<and>
   bit (get_sides sample_cube (Vector3f 0 (1 / 2) 1)) 5 \<and>
   \<not> bit (get_sides sample_cube (Vector3f 0 (1 / 2) 1)) 2 \<and>
   get_triangle_side sample_cube (Vector3f 0 0 0) (Vector3f 1 0 0) (Vector3f 0 1 0) = Some 4 \<and>
   bit_count (get_sides sample_cube (Vector3f 0 0 0) AND get_sides sample_cube (Vector3f 1 0 0)
     AND get_sides sample_cube (Vector3f 0 1 0)) = 1 \<and>
   (\<exists>v'. bake_triangle sample_cube sample_arrays False 6 0 1 3 sample_vars = Some v' \<and>
      side_positions (bv_model v') 4 = [] \<and>
      side_indices (bv_model v') 4 = [] \<and>
      length (indices (bv_model v')) = 3 \<and>
      normals (bv_model v') = [Vector3f 0 0 (-1), Vector3f 0 (-1) 0, Vector3f 0 0 1]) \<and>
   (\<exists>v'. bake_triangle sample_cube sample_arrays False 0 0 1 2 sample_vars = Some v' \<and>
      positions (bv_model v') = [] \<and>
      indices (bv_model v') = [] \<and>
      normals (bv_model v') = [] \<and>
      length (side_indices (bv_model v') 4) = 3)"
proof -
  note t = triangle_face_classification [OF sample_valid,
      where p = "Vector3f 0 (1 / 2) 1" and ?p0.0 = "Vector3f 0 0 0" and ?p1.0 = "Vector3f 1 0 0"
        and ?p2.0 = "Vector3f 0 1 0" and a = sample_arrays and bake_tangents = False and i = 6
        and ?i0.0 = 0 and ?i1.0 = 1 and ?i2.0 = 3 and v = sample_vars]
  from t have b: "\<forall>n. bit (get_sides sample_cube (Vector3f 0 (1 / 2) 1)) n =
        ((n = SIDE_NEGATIVE_X sample_cube \<and> \<bar>v3_x (Vector3f 0 (1 / 2) 1) - 0\<bar> < 0.001) \<or>
         (n = SIDE_POSITIVE_X sample_cube \<and> \<bar>v3_x (Vector3f 0 (1 / 2) 1) - 1\<bar> < 0.001) \<or>
         (n = SIDE_NEGATIVE_Y sample_cube \<and> \<bar>v3_y (Vector3f 0 (1 / 2) 1) - 0\<bar> < 0.001) \<or>
         (n = SIDE_POSITIVE_Y sample_cube \<and> \<bar>v3_y (Vector3f 0 (1 / 2) 1) - 1\<bar> < 0.001) \<or>
         (n = SIDE_NEGATIVE_Z sample_cube \<and> \<bar>v3_z (Vector3f 0 (1 / 2) 1) - 0\<bar> < 0.001) \<or>
         (n = SIDE_POSITIVE_Z sample_cube \<and> \<bar>v3_z (Vector3f 0 (1 / 2) 1) - 1\<bar> < 0.001))"
    by (rule conjunct1)
  have b5: "bit (get_sides sample_cube (Vector3f 0 (1 / 2) 1)) 5"
    by (simp only: b [rule_format]) (simp add: sample_cube_def)
  have b2: "\<not> bit (get_sides sample_cube (Vector3f 0 (1 / 2) 1)) 2"
    by (simp only: b [rule_format]) (simp add: sample_cube_def)
  from t have c: "(\<exists>side. get_triangle_side sample_cube (Vector3f 0 0 0) (Vector3f 1 0 0) (Vector3f 0 1 0) = Some side) =
        (bit_count (get_sides sample_cube (Vector3f 0 0 0) AND get_sides sample_cube (Vector3f 1 0 0)
           AND get_sides sample_cube (Vector3f 0 1 0)) = 1)"
    by blast
  have c1: "bit_count (get_sides sample_cube (Vector3f 0 0 0) AND get_sides sample_cube (Vector3f 1 0 0)
           AND get_sides sample_cube (Vector3f 0 1 0)) = 1"
    using c gts1 by blast
  from t have d: "\<forall>v'. bake_triangle sample_cube sample_arrays False 6 0 1 3 sample_vars = Some v' \<longrightarrow>
        bit_count (get_sides sample_cube (ARRAY_VERTEX sample_arrays ! nat 0)
                     AND get_sides sample_cube (ARRAY_VERTEX sample_arrays ! nat 1)
                     AND get_sides sample_cube (ARRAY_VERTEX sample_arrays ! nat 3)) \<noteq> 1 \<longrightarrow>
          (\<forall>side. bucket_same sample_vars v' (Some side)) \<and>
          length (indices (bv_model v')) = length (indices (bv_model sample_vars)) + 3 \<and>
          (\<exists>new. set new \<subseteq> {0, 1, 3} \<and>
             positions (bv_model v') = positions (bv_model sample_vars) @ map (\<lambda>s. ARRAY_VERTEX sample_arrays ! nat s) new \<and>
             normals (bv_model v') = normals (bv_model sample_vars) @ map (\<lambda>s. ARRAY_NORMAL sample_arrays ! nat s) new)"
    by blast
  obtain v' where step: "bake_triangle sample_cube sample_arrays False 6 0 1 3 sample_vars = Some v'"
    and nrm: "normals (bv_model v') = [Vector3f 0 0 (-1), Vector3f 0 (-1) 0, Vector3f 0 0 1]"
    by (simp add: bake_triangle_def sample_arrays_def sample_vars_def packed_get_def gts2
        regular_add_vertex_def vertex_tangent_def Let_def Model_clear_def)
  have nb: "bit_count (get_sides sample_cube (ARRAY_VERTEX sample_arrays ! nat 0)
                     AND get_sides sample_cube (ARRAY_VERTEX sample_arrays ! nat 1)
                     AND get_sides sample_cube (ARRAY_VERTEX sample_arrays ! nat 3)) \<noteq> 1"
    by (simp add: sample_arrays_def gs0 gs1 gs3 bit_count_def)
  from d [rule_format, OF step nb] have
    same: "bucket_same sample_vars v' (Some 4)" and
    len: "length (indices (bv_model v')) = length (indices (bv_model sample_vars)) + 3"
    by blast+
  from same have e1: "side_positions (bv_model v') 4 = []" and e2: "side_indices (bv_model v') 4 = []"
    by (simp_all add: bucket_same_def sample_vars_def Model_clear_def)
  from len have e3: "length (indices (bv_model v')) = 3"
    by (simp add: sample_vars_def Model_clear_def)
  note u = triangle_face_classification [OF sample_valid,
      where a = sample_arrays and bake_tangents = False and i = 0
        and ?i0.0 = 0 and ?i1.0 = 1 and ?i2.0 = 2 and v = sample_vars]
  from u have f: "\<forall>v' side. bake_triangle sample_cube sample_arrays False 0 0 1 2 sample_vars = Some v' \<longrightarrow>
        side < SIDE_COUNT \<longrightarrow>
        get_sides sample_cube (ARRAY_VERTEX sample_arrays ! nat 0)
          AND get_sides sample_cube (ARRAY_VERTEX sample_arrays ! nat 1)
          AND get_sides sample_cube (ARRAY_VERTEX sample_arrays ! nat 2) = push_bit side 1 \<longrightarrow>
          (\<forall>k. k \<noteq> Some side \<longrightarrow> bucket_same sample_vars v' k) \<and>
          normals (bv_model v') = normals (bv_model sample_vars) \<and>
          length (side_indices (bv_model v') side) = length (side_indices (bv_model sample_vars) side) + 3"
    by blast
  obtain w' where wstep: "bake_triangle sample_cube sample_arrays False 0 0 1 2 sample_vars = Some w'"
    by (simp add: bake_triangle_def sample_arrays_def sample_vars_def packed_get_def gts1
        side_add_vertex_def vertex_tangent_def Let_def Model_clear_def)
  have four: "(4::nat) < SIDE_COUNT" by (simp add: SIDE_COUNT_def)
  have mask: "get_sides sample_cube (ARRAY_VERTEX sample_arrays ! nat 0)
          AND get_sides sample_cube (ARRAY_VERTEX sample_arrays ! nat 1)
          AND get_sides sample_cube (ARRAY_VERTEX sample_arrays ! nat 2) = push_bit 4 1"
    by (simp add: sample_arrays_def gs0 gs1 gs2)
  from f [rule_format, OF wstep four mask] have
    g1: "bucket_same sample_vars w' None" and
    g2: "normals (bv_model w') = normals (bv_model sample_vars)" and
    g3: "length (side_indices (bv_model w') 4) = length (side_indices (bv_model sample_vars) 4) + 3"
    by simp_all
  from g1 have h1: "positions (bv_model w') = []" and h2: "indices (bv_model w') = []"
    by (simp_all add: bucket_same_def sample_vars_def Model_clear_def)
  from g2 have h3: "normals (bv_model w') = []"
    by (simp add: sample_vars_def Model_clear_def)
  from g3 have h4: "length (side_indices (bv_model w') 4) = 3"
    by (simp add: sample_vars_def Model_clear_def)
  have I: "\<exists>v'. bake_triangle sample_cube sample_arrays False 6 0 1 3 sample_vars = Some v' \<and>
      side_positions (bv_model v') 4 = [] \<and>
      side_indices (bv_model v') 4 = [] \<and>
      length (indices (bv_model v')) = 3 \<and>
      normals (bv_model v') = [Vector3f 0 0 (-1), Vector3f 0 (-1) 0, Vector3f 0 0 1]"
    using step e1 e2 e3 nrm by (intro exI [of _ v'] conjI)
  have F: "\<exists>v'. bake_triangle sample_cube sample_arrays False 0 0 1 2 sample_vars = Some v' \<and>
      positions (bv_model v') = [] \<and>
      indices (bv_model v') = [] \<and>
      normals (bv_model v') = [] \<and>
      length (side_indices (bv_model v') 4) = 3"
    using wstep h1 h2 h3 h4 by (intro exI [of _ w'] conjI)
  from sample_valid b5 b2 gts1 c1 I F show ?thesis by (intro conjI)
qed

section \<open>Vertex welding\<close>

text \<open>
  C2. Take a custom mesh baked into a cleared record, and for a bucket \<open>k\<close> (a side, or
  \<open>None\<close> for the interior) let \<open>refs\<close> be the source indices of the triangles classified
  into \<open>k\<close>, in order. Then the bucket's index list has one entry per reference; the bucket
  has exactly one vertex (position, UV, normal in the interior, four tangent floats when
  tangents are baked) per distinct source index referenced in it; every reference points to a
  vertex of the bucket that carries the position, UV and (interior) normal of its source
  vertex; two references get the same destination index exactly when they are to the same
  source index; and a first reference gets the next free destination index. Since this holds
  bucket by bucket, a source vertex referenced in two buckets has a vertex in each.
\<close>

theorem mesh_welding_per_bucket:
  assumes "m_custom_mesh config = Some r"
    and "surface_get_arrays (mesh_at h r) = Some arrays"
    and "model baked_data = Model_clear"
    and "bake_mesh_geometry C h config baked_data bake_tangents = Returned bd"
  shows "\<forall>k. (let a = fill_uvs arrays;
                refs = bucket_refs C (ARRAY_VERTEX a) k (ARRAY_INDEX a);
                m = model bd
            in length (bucket_indices m k) = length refs \<and>
               length (bucket_positions m k) = card (set refs) \<and>
               length (bucket_uvs m k) = card (set refs) \<and>
               (k = None \<longrightarrow> length (normals m) = card (set refs)) \<and>
               length (bucket_tangents m k) = (if bake_tangents then 4 * card (set refs) else 0) \<and>
               (\<forall>n<length refs.
                  0 \<le> bucket_indices m k ! n \<and>
                  bucket_indices m k ! n < int (length (bucket_positions m k)) \<and>
                  bucket_positions m k ! nat (bucket_indices m k ! n) = ARRAY_VERTEX a ! nat (refs ! n) \<and>
                  bucket_uvs m k ! nat (bucket_indices m k ! n) = ARRAY_TEX_UV a ! nat (refs ! n) \<and>
                  (k = None \<longrightarrow> normals m ! nat (bucket_indices m k ! n) = ARRAY_NORMAL a ! nat (refs ! n))) \<and>
               (\<forall>n<length refs. \<forall>n'<length refs.
                  (bucket_indices m k ! n = bucket_indices m k ! n') = (refs ! n = refs ! n')) \<and>
               (\<forall>n<length refs. refs ! n \<notin> set (take n refs) \<longrightarrow>
                  bucket_indices m k ! n = int (card (set (take n refs)))))"
proof
  fix k
  let ?a = "fill_uvs arrays"
  let ?refs = "bucket_refs C (ARRAY_VERTEX ?a) k (ARRAY_INDEX ?a)"
  let ?F = "firsts ?refs"
  let ?m = "model bd"
  from bake_mesh_geometry_welded [OF assms] obtain v where
    v: "bv_model v = ?m" and
    inv: "weld_inv ?a bake_tangents (\<lambda>k. bucket_refs C (ARRAY_VERTEX ?a) k (ARRAY_INDEX ?a)) v"
    by blast
  from inv have w: "welded ?a bake_tangents ?refs v k"
    and nr: "normals (bv_model v) =
             map (\<lambda>s. ARRAY_NORMAL ?a ! nat s) (firsts (bucket_refs C (ARRAY_VERTEX ?a) None (ARRAY_INDEX ?a)))"
    by (simp_all add: weld_inv_def)
  from w have
    ix: "bucket_indices ?m k = map (\<lambda>s. int (index_of ?F s)) ?refs" and
    ps: "bucket_positions ?m k = map (\<lambda>s. ARRAY_VERTEX ?a ! nat s) ?F" and
    us: "bucket_uvs ?m k = map (\<lambda>s. ARRAY_TEX_UV ?a ! nat s) ?F" and
    tg: "length (bucket_tangents ?m k) = (if bake_tangents then 4 * length ?F else 0)"
    by (simp_all add: welded_def v)
  from nr have ns: "k = None \<Longrightarrow> normals ?m = map (\<lambda>s. ARRAY_NORMAL ?a ! nat s) ?F"
    by (simp add: v)
  have lf: "length ?F = card (set ?refs)" by (rule length_firsts)
  have c1: "length (bucket_indices ?m k) = length ?refs" by (simp add: ix)
  have c2: "length (bucket_positions ?m k) = card (set ?refs)" by (simp add: ps lf)
  have c3: "length (bucket_uvs ?m k) = card (set ?refs)" by (simp add: us lf)
  have c4: "k = None \<longrightarrow> length (normals ?m) = card (set ?refs)"
  proof
    assume kn: "k = None"
    from ns [OF kn] have "length (normals ?m) = length ?F" by simp
    then show "length (normals ?m) = card (set ?refs)" by (simp only: lf)
  qed
  have c5: "length (bucket_tangents ?m k) = (if bake_tangents then 4 * card (set ?refs) else 0)"
    by (simp add: tg lf)
  have c6: "\<forall>n<length ?refs.
                  0 \<le> bucket_indices ?m k ! n \<and>
                  bucket_indices ?m k ! n < int (length (bucket_positions ?m k)) \<and>
                  bucket_positions ?m k ! nat (bucket_indices ?m k ! n) = ARRAY_VERTEX ?a ! nat (?refs ! n) \<and>
                  bucket_uvs ?m k ! nat (bucket_indices ?m k ! n) = ARRAY_TEX_UV ?a ! nat (?refs ! n) \<and>
                  (k = None \<longrightarrow> normals ?m ! nat (bucket_indices ?m k ! n) = ARRAY_NORMAL ?a ! nat (?refs ! n))"
  proof (intro allI impI)
    fix n assume n: "n < length ?refs"
    then have mem: "?refs ! n \<in> set ?F" by (simp add: set_firsts)
    have lt: "index_of ?F (?refs ! n) < length ?F" using mem by (rule index_of_less)
    have nth: "?F ! index_of ?F (?refs ! n) = ?refs ! n" using mem by (rule nth_index_of)
    have i: "bucket_indices ?m k ! n = int (index_of ?F (?refs ! n))" using n by (simp add: ix)
    show "0 \<le> bucket_indices ?m k ! n \<and>
          bucket_indices ?m k ! n < int (length (bucket_positions ?m k)) \<and>
          bucket_positions ?m k ! nat (bucket_indices ?m k ! n) = ARRAY_VERTEX ?a ! nat (?refs ! n) \<and>
          bucket_uvs ?m k ! nat (bucket_indices ?m k ! n) = ARRAY_TEX_UV ?a ! nat (?refs ! n) \<and>
          (k = None \<longrightarrow> normals ?m ! nat (bucket_indices ?m k ! n) = ARRAY_NORMAL ?a ! nat (?refs ! n))"
    proof (intro conjI impI)
      show "0 \<le> bucket_indices ?m k ! n" by (simp add: i)
      show "bucket_indices ?m k ! n < int (length (bucket_positions ?m k))"
        using lt by (simp add: i ps)
      show "bucket_positions ?m k ! nat (bucket_indices ?m k ! n) = ARRAY_VERTEX ?a ! nat (?refs ! n)"
        using lt nth by (simp add: i ps)
      show "bucket_uvs ?m k ! nat (bucket_indices ?m k ! n) = ARRAY_TEX_UV ?a ! nat (?refs ! n)"
        using lt nth by (simp add: i us)
      assume kn: "k = None"
      show "normals ?m ! nat (bucket_indices ?m k ! n) = ARRAY_NORMAL ?a ! nat (?refs ! n)"
        using lt nth by (simp add: i ns [OF kn])
    qed
  qed
  have c7: "\<forall>n<length ?refs. \<forall>n'<length ?refs.
                  (bucket_indices ?m k ! n = bucket_indices ?m k ! n') = (?refs ! n = ?refs ! n')"
  proof (intro allI impI)
    fix n n' assume n: "n < length ?refs" and n': "n' < length ?refs"
    show "(bucket_indices ?m k ! n = bucket_indices ?m k ! n') = (?refs ! n = ?refs ! n')"
      using welded_reuse [OF n n'] n n' by (simp add: ix)
  qed
  have c8: "\<forall>n<length ?refs. ?refs ! n \<notin> set (take n ?refs) \<longrightarrow>
                  bucket_indices ?m k ! n = int (card (set (take n ?refs)))"
    by (simp add: ix index_of_nth_first)
  show "let a = fill_uvs arrays;
                refs = bucket_refs C (ARRAY_VERTEX a) k (ARRAY_INDEX a);
                m = model bd
            in length (bucket_indices m k) = length refs \<and>
               length (bucket_positions m k) = card (set refs) \<and>
               length (bucket_uvs m k) = card (set refs) \<and>
               (k = None \<longrightarrow> length (normals m) = card (set refs)) \<and>
               length (bucket_tangents m k) = (if bake_tangents then 4 * card (set refs) else 0) \<and>
               (\<forall>n<length refs.
                  0 \<le> bucket_indices m k ! n \<and>
                  bucket_indices m k ! n < int (length (bucket_positions m k)) \<and>
                  bucket_positions m k ! nat (bucket_indices m k ! n) = ARRAY_VERTEX a ! nat (refs ! n) \<and>
                  bucket_uvs m k ! nat (bucket_indices m k ! n) = ARRAY_TEX_UV a ! nat (refs ! n) \<and>
                  (k = None \<longrightarrow> normals m ! nat (bucket_indices m k ! n) = ARRAY_NORMAL a ! nat (refs ! n))) \<and>
               (\<forall>n<length refs. \<forall>n'<length refs.
                  (bucket_indices m k ! n = bucket_indices m k ! n') = (refs ! n = refs ! n')) \<and>
               (\<forall>n<length refs. refs ! n \<notin> set (take n refs) \<longrightarrow>
                  bucket_indices m k ! n = int (card (set (take n refs))))"
    unfolding Let_def by (intro conjI c1 c2 c3 c4 c5 c6 c7 c8)
qed

theorem mesh_welding_per_bucket_witness:
  "\<exists>bd. bake_mesh_geometry sample_cube mesh_heap mesh_model sample_baked True = Returned bd \<and>
     length (side_indices (model bd) 4) = 6 \<and>
     length (side_positions (model bd) 4) = 4 \<and>
     side_indices (model bd) 4 ! 1 = side_indices (model bd) 4 ! 4 \<and>
     side_indices (model bd) 4 ! 2 = side_indices (model bd) 4 ! 3 \<and>
     side_positions (model bd) 4 ! nat (side_indices (model bd) 4 ! 0) = Vector3f 0 0 0 \<and>
     length (indices (model bd)) = 3 \<and>
     length (positions (model bd)) = 3 \<and>
     positions (model bd) ! nat (indices (model bd) ! 0) = Vector3f 0 0 0 \<and>
     normals (model bd) ! nat (indices (model bd) ! 2) = Vector3f 0 0 1"
proof -
  obtain bd where r: "bake_mesh_geometry sample_cube mesh_heap mesh_model sample_baked True = Returned bd"
    by (simp add: bake_eval)
  note t = mesh_welding_per_bucket [OF sample_mesh_facts(1) sample_mesh_facts(2) sample_mesh_facts(3) r,
      rule_format]
  have "set [0, 1, 2, 2, 1, 4::int] = {0, 1, 2, 4}" by auto
  then have cs: "card (set [0, 1, 2, 2, 1, 4::int]) = 4" by simp
  have ci: "card (set [0, 1, 3::int]) = 3" by simp
  note ts = t [of "Some 4", unfolded Let_def sample_fill_uvs sample_refs_side cs]
  note ti = t [of None, unfolded Let_def sample_fill_uvs sample_refs_interior ci]
  from ts have s1: "length (side_indices (model bd) 4) = 6"
    and s2: "length (side_positions (model bd) 4) = 4"
    by simp_all
  from ts have s3: "\<forall>n<length [0, 1, 2, 2, 1, 4::int]. \<forall>n'<length [0, 1, 2, 2, 1, 4::int].
       (bucket_indices (model bd) (Some 4) ! n = bucket_indices (model bd) (Some 4) ! n') =
       ([0, 1, 2, 2, 1, 4::int] ! n = [0, 1, 2, 2, 1, 4] ! n')"
    by blast
  from s3 [rule_format, of 1 4] have s4: "side_indices (model bd) 4 ! 1 = side_indices (model bd) 4 ! 4"
    by simp
  from s3 [rule_format, of 2 3] have s5: "side_indices (model bd) 4 ! 2 = side_indices (model bd) 4 ! 3"
    by simp
  from ts have s6: "\<forall>n<length [0, 1, 2, 2, 1, 4::int].
       0 \<le> bucket_indices (model bd) (Some 4) ! n \<and>
       bucket_indices (model bd) (Some 4) ! n < int (length (bucket_positions (model bd) (Some 4))) \<and>
       bucket_positions (model bd) (Some 4) ! nat (bucket_indices (model bd) (Some 4) ! n) =
         ARRAY_VERTEX sample_arrays ! nat ([0, 1, 2, 2, 1, 4] ! n) \<and>
       bucket_uvs (model bd) (Some 4) ! nat (bucket_indices (model bd) (Some 4) ! n) =
         ARRAY_TEX_UV sample_arrays ! nat ([0, 1, 2, 2, 1, 4] ! n) \<and>
       (Some 4 = None \<longrightarrow> normals (model bd) ! nat (bucket_indices (model bd) (Some 4) ! n) =
         ARRAY_NORMAL sample_arrays ! nat ([0, 1, 2, 2, 1, 4] ! n))"
    by blast
  from s6 [rule_format, of 0] have s7:
    "side_positions (model bd) 4 ! nat (side_indices (model bd) 4 ! 0) = Vector3f 0 0 0"
    by (simp add: sample_arrays_def)
  from ti have i1: "length (indices (model bd)) = 3"
    and i2: "length (positions (model bd)) = 3"
    by simp_all
  from ti have i3: "\<forall>n<length [0, 1, 3::int].
       0 \<le> bucket_indices (model bd) None ! n \<and>
       bucket_indices (model bd) None ! n < int (length (bucket_positions (model bd) None)) \<and>
       bucket_positions (model bd) None ! nat (bucket_indices (model bd) None ! n) =
         ARRAY_VERTEX sample_arrays ! nat ([0, 1, 3] ! n) \<and>
       bucket_uvs (model bd) None ! nat (bucket_indices (model bd) None ! n) =
         ARRAY_TEX_UV sample_arrays ! nat ([0, 1, 3] ! n) \<and>
       (None = (None :: nat option) \<longrightarrow> normals (model bd) ! nat (bucket_indices (model bd) None ! n) =
         ARRAY_NORMAL sample_arrays ! nat ([0, 1, 3] ! n))"
    by blast
  from i3 [rule_format, of 0] have i4: "positions (model bd) ! nat (indices (model bd) ! 0) = Vector3f 0 0 0"
    by (simp add: sample_arrays_def)
  from i3 [rule_format, of 2] have i5: "normals (model bd) ! nat (indices (model bd) ! 2) = Vector3f 0 0 1"
    by (simp add: sample_arrays_def)
  from r s1 s2 s4 s5 s7 i1 i2 i4 i5 show ?thesis by blast
qed

section \<open>Index lists\<close>

text \<open>
  C4. Whenever \<open>bake\<close> returns (with or without a reported error), in every bucket of the
  baked record (the interior and each side) every index is at least 0 and below the number of
  positions of that bucket, and the number of indices is a multiple of 3. For cube geometry
  this needs the absent table \<open>g_side_quad_triangles\<close> to hold indices into the four corners of
  a face.
\<close>

theorem bake_index_lists_valid:
  assumes "m_geometry_type config = GEOMETRY_CUBE \<longrightarrow>
             (\<forall>side<SIDE_COUNT. \<forall>i<6.
                0 \<le> g_side_quad_triangles C side i \<and> g_side_quad_triangles C side i < 4)"
    and "bake C h config baked_data n bake_tangents = Returned (config', bd) \<or>
         bake C h config baked_data n bake_tangents = ErrFailed (config', bd)"
  shows "\<forall>k. (\<forall>x\<in>set (bucket_indices (model bd) k).
                 0 \<le> x \<and> x < int (length (bucket_positions (model bd) k))) \<and>
              length (bucket_indices (model bd) k) mod 3 = 0"
proof
  fix k
  let ?b0 = "(BakedData_clear baked_data)\<lparr>transparency_index := m_transparency_index config,
                 material_id := m_material_id config, color := m_color config\<rparr>"
  have clr: "model ?b0 = Model_clear" by (simp add: BakedData_clear_def)
  have "index_list_ok (bucket_indices (model bd) k) (length (bucket_positions (model bd) k))"
  proof (cases "m_geometry_type config")
    case GEOMETRY_NONE
    with assms(2) have "model bd = Model_clear"
      by (auto simp: bake_def Let_def BakedData_clear_def)
    then show ?thesis by (simp add: bucket_Model_clear index_list_ok_def)
  next
    case GEOMETRY_CUBE
    with assms(2) have "bake_cube_geometry C config ?b0 n bake_tangents = Returned bd \<or>
              bake_cube_geometry C config ?b0 n bake_tangents = ErrFailed bd"
      by (auto simp: bake_def Let_def split: outcome.splits)
    with assms(1) GEOMETRY_CUBE clr show ?thesis
      by (intro bake_cube_geometry_index_ok [where ?b0.0 = ?b0]) simp_all
  next
    case GEOMETRY_CUSTOM_MESH
    with assms(2) have "bake_mesh_geometry C h config ?b0 bake_tangents = Returned bd \<or>
              bake_mesh_geometry C h config ?b0 bake_tangents = ErrFailed bd"
      by (auto simp: bake_def Let_def split: outcome.splits)
    with clr show ?thesis
      by (intro bake_mesh_geometry_index_ok [where ?b0.0 = ?b0]) simp_all
  next
    case GEOMETRY_MAX
    with assms(2) have "model bd = Model_clear"
      by (auto simp: bake_def Let_def BakedData_clear_def)
    then show ?thesis by (simp add: bucket_Model_clear index_list_ok_def)
  qed
  then show "(\<forall>x\<in>set (bucket_indices (model bd) k).
                 0 \<le> x \<and> x < int (length (bucket_positions (model bd) k))) \<and>
              length (bucket_indices (model bd) k) mod 3 = 0"
    by (simp add: index_list_ok_def)
qed

theorem bake_index_lists_valid_witness:
  "(\<exists>c bd. bake sample_cube sample_heap sample_model sample_baked 4 False = Returned (c, bd) \<and>
      side_indices (model bd) 0 = [0, 2, 1, 0, 3, 2] \<and>
      3 < int (length (side_positions (model bd) 0)) \<and>
      length (side_indices (model bd) 0) mod 3 = 0) \<and>
   (\<exists>c bd. bake sample_cube mesh_heap mesh_model sample_baked 4 True = Returned (c, bd) \<and>
      side_indices (model bd) 4 = [0, 1, 2, 2, 1, 3] \<and>
      3 < int (length (side_positions (model bd) 4)) \<and>
      length (indices (model bd)) mod 3 = 0)"
proof -
  have cube: "m_geometry_type sample_model = GEOMETRY_CUBE \<longrightarrow>
             (\<forall>side<SIDE_COUNT. \<forall>i<6.
                0 \<le> g_side_quad_triangles sample_cube side i \<and> g_side_quad_triangles sample_cube side i < 4)"
    using sample_quad_triangles by simp
  have mesh: "m_geometry_type mesh_model = GEOMETRY_CUBE \<longrightarrow>
             (\<forall>side<SIDE_COUNT. \<forall>i<6.
                0 \<le> g_side_quad_triangles sample_cube side i \<and> g_side_quad_triangles sample_cube side i < 4)"
    using sample_quad_triangles by simp
  obtain c1 b1 where r1: "bake sample_cube sample_heap sample_model sample_baked 4 False = Returned (c1, b1)"
    and e1: "side_indices (model b1) 0 = [0, 2, 1, 0, 3, 2]"
    by (simp add: bake_def bake_cube_geometry_def Let_def sample_model_def SIDE_COUNT_def
        fold_cube_side_geometry fold_cube_side_uvs cube_side_geometry_def cube_side_uvs_def
        sample_cube_def upt_6)
  obtain c2 b2 where r2: "bake sample_cube mesh_heap mesh_model sample_baked 4 True = Returned (c2, b2)"
    and e2: "side_indices (model b2) 4 = [0, 1, 2, 2, 1, 3]"
    by (simp add: bake_def BakedData_clear_def bake_eval)
  note t1 = bake_index_lists_valid [OF cube disjI1 [OF r1], rule_format, of "Some 0"]
  note t2 = bake_index_lists_valid [OF mesh disjI1 [OF r2], rule_format, of "Some 4"]
  note t3 = bake_index_lists_valid [OF mesh disjI1 [OF r2], rule_format, of None]
  from t1 have a1: "3 < int (length (side_positions (model b1) 0))"
    and a2: "length (side_indices (model b1) 0) mod 3 = 0"
    by (simp_all add: e1)
  from t2 have a3: "3 < int (length (side_positions (model b2) 4))"
    by (simp add: e2)
  from t3 have a4: "length (indices (model b2)) mod 3 = 0"
    by simp
  have A: "\<exists>c bd. bake sample_cube sample_heap sample_model sample_baked 4 False = Returned (c, bd) \<and>
      side_indices (model bd) 0 = [0, 2, 1, 0, 3, 2] \<and>
      3 < int (length (side_positions (model bd) 0)) \<and>
      length (side_indices (model bd) 0) mod 3 = 0"
    using r1 e1 a1 a2 by (intro exI [of _ c1] exI [of _ b1] conjI)
  have B: "\<exists>c bd. bake sample_cube mesh_heap mesh_model sample_baked 4 True = Returned (c, bd) \<and>
      side_indices (model bd) 4 = [0, 1, 2, 2, 1, 3] \<and>
      3 < int (length (side_positions (model bd) 4)) \<and>
      length (indices (model bd)) mod 3 = 0"
    using r2 e2 a3 a4 by (intro exI [of _ c2] exI [of _ b2] conjI)
  from A B show ?thesis by (rule conjI)
qed

section \<open>Emptiness flag\<close>

text \<open>
  C5 (as the code has it). After a bake that returns: with geometry kind None the record is
  empty and every bucket is empty, whatever the other fields; after a cube bake the record is
  not empty; with a custom mesh whose reference is null the record is empty and every bucket
  is empty; with a custom mesh whose surface arrays exist and whose index count is a multiple
  of 3 the record is empty exactly when the mesh has no positions. A record that is empty has
  no vertex in any bucket; the converse does not hold.
\<close>

theorem bake_empty_flag:
  assumes "bake C h config baked_data n bake_tangents = Returned (config', bd) \<or>
           bake C h config baked_data n bake_tangents = ErrFailed (config', bd)"
  shows "(m_geometry_type config = GEOMETRY_NONE \<longrightarrow> empty bd \<and> model bd = Model_clear) \<and>
         (m_geometry_type config = GEOMETRY_CUBE \<longrightarrow> \<not> empty bd) \<and>
         (m_geometry_type config = GEOMETRY_CUSTOM_MESH \<longrightarrow> m_custom_mesh config = None \<longrightarrow>
            empty bd \<and> model bd = Model_clear) \<and>
         (\<forall>r arrays. m_geometry_type config = GEOMETRY_CUSTOM_MESH \<longrightarrow> m_custom_mesh config = Some r \<longrightarrow>
            surface_get_arrays (mesh_at h r) = Some arrays \<longrightarrow>
            length (ARRAY_INDEX arrays) mod 3 = 0 \<longrightarrow>
            empty bd = (ARRAY_VERTEX arrays = [])) \<and>
         (empty bd \<longrightarrow> (\<forall>k. bucket_positions (model bd) k = []))"
proof -
  let ?b0 = "\<lparr>model = Model_clear, color = m_color config,
                transparency_index = m_transparency_index config,
                material_id = m_material_id config, empty = True\<rparr>"
  note c = bake_cases [OF assms, unfolded Let_def, THEN conjunct2]
  have clr: "model ?b0 = Model_clear" by simp
  have mesh: "(m_custom_mesh config = None \<longrightarrow> empty bd \<and> model bd = Model_clear) \<and>
         (\<forall>r arrays. m_custom_mesh config = Some r \<longrightarrow> surface_get_arrays (mesh_at h r) = Some arrays \<longrightarrow>
            length (ARRAY_INDEX arrays) mod 3 = 0 \<longrightarrow> empty bd = (ARRAY_VERTEX arrays = [])) \<and>
         (empty bd \<longrightarrow> model bd = Model_clear)"
    if "m_geometry_type config = GEOMETRY_CUSTOM_MESH"
    using c that by (intro bake_mesh_geometry_empty [where ?b0.0 = ?b0]) auto
  have cube: "\<not> empty bd" if "m_geometry_type config = GEOMETRY_CUBE"
    using c that bake_cube_geometry_scalars [of C config ?b0 n bake_tangents bd] by auto
  have p1: "m_geometry_type config = GEOMETRY_NONE \<longrightarrow> empty bd \<and> model bd = Model_clear"
    using c by auto
  have p2: "m_geometry_type config = GEOMETRY_CUBE \<longrightarrow> \<not> empty bd"
    using cube by (intro impI)
  have p3: "m_geometry_type config = GEOMETRY_CUSTOM_MESH \<longrightarrow> m_custom_mesh config = None \<longrightarrow>
            empty bd \<and> model bd = Model_clear"
  proof (intro impI)
    assume k: "m_geometry_type config = GEOMETRY_CUSTOM_MESH" and m: "m_custom_mesh config = None"
    from mesh [OF k] have "m_custom_mesh config = None \<longrightarrow> empty bd \<and> model bd = Model_clear"
      by (elim conjE)
    with m show "empty bd \<and> model bd = Model_clear" by (elim impE)
  qed
  have p4: "\<forall>r arrays. m_geometry_type config = GEOMETRY_CUSTOM_MESH \<longrightarrow> m_custom_mesh config = Some r \<longrightarrow>
            surface_get_arrays (mesh_at h r) = Some arrays \<longrightarrow>
            length (ARRAY_INDEX arrays) mod 3 = 0 \<longrightarrow>
            empty bd = (ARRAY_VERTEX arrays = [])"
  proof (intro allI impI)
    fix r arrays
    assume k: "m_geometry_type config = GEOMETRY_CUSTOM_MESH" and m: "m_custom_mesh config = Some r"
      and a: "surface_get_arrays (mesh_at h r) = Some arrays"
      and l: "length (ARRAY_INDEX arrays) mod 3 = 0"
    from mesh [OF k] have "\<forall>r arrays. m_custom_mesh config = Some r \<longrightarrow>
            surface_get_arrays (mesh_at h r) = Some arrays \<longrightarrow>
            length (ARRAY_INDEX arrays) mod 3 = 0 \<longrightarrow> empty bd = (ARRAY_VERTEX arrays = [])"
      by (elim conjE)
    from this [rule_format, OF m a l] show "empty bd = (ARRAY_VERTEX arrays = [])" .
  qed
  have "model bd = Model_clear" if e: "empty bd"
  proof (cases "m_geometry_type config")
    case GEOMETRY_NONE
    with c show ?thesis by auto
  next
    case GEOMETRY_CUBE
    from cube [OF this] e show ?thesis by (elim notE)
  next
    case GEOMETRY_CUSTOM_MESH
    from mesh [OF this] have "empty bd \<longrightarrow> model bd = Model_clear" by (elim conjE)
    with e show ?thesis by (elim impE)
  next
    case GEOMETRY_MAX
    with c show ?thesis by auto
  qed
  then have p5: "empty bd \<longrightarrow> (\<forall>k. bucket_positions (model bd) k = [])"
    by (simp add: bucket_Model_clear)
  show ?thesis by (intro conjI p1 p2 p3 p4 p5)
qed

theorem bake_empty_flag_witness:
  "(\<exists>c bd. bake sample_cube sample_heap (sample_model\<lparr>m_geometry_type := GEOMETRY_NONE\<rparr>)
              sample_baked 4 True = Returned (c, bd) \<and>
            empty bd \<and> model bd = Model_clear) \<and>
   (\<exists>c bd. bake sample_cube sample_heap sample_model sample_baked 4 True = Returned (c, bd) \<and>
            \<not> empty bd) \<and>
   (\<exists>c bd. bake sample_cube mesh_heap mesh_model sample_baked 4 True = Returned (c, bd) \<and>
            \<not> empty bd)"
proof -
  obtain c1 b1 where r1: "bake sample_cube sample_heap (sample_model\<lparr>m_geometry_type := GEOMETRY_NONE\<rparr>)
              sample_baked 4 True = Returned (c1, b1)"
    by (simp add: bake_def Let_def)
  obtain c2 b2 where r2: "bake sample_cube sample_heap sample_model sample_baked 4 True = Returned (c2, b2)"
    by (simp add: bake_def bake_cube_geometry_def Let_def sample_model_def)
  obtain c3 b3 where r3: "bake sample_cube mesh_heap mesh_model sample_baked 4 True = Returned (c3, b3)"
    by (simp add: bake_def BakedData_clear_def bake_eval)
  note t1 = bake_empty_flag [OF disjI1 [OF r1]]
  note t2 = bake_empty_flag [OF disjI1 [OF r2]]
  note t3 = bake_empty_flag [OF disjI1 [OF r3]]
  from t1 have a1: "empty b1 \<and> model b1 = Model_clear" by simp
  from t2 have a2: "\<not> empty b2" by (simp add: sample_model_def)
  from t3 have "\<forall>r arrays. m_geometry_type mesh_model = GEOMETRY_CUSTOM_MESH \<longrightarrow> m_custom_mesh mesh_model = Some r \<longrightarrow>
            surface_get_arrays (mesh_at mesh_heap r) = Some arrays \<longrightarrow>
            length (ARRAY_INDEX arrays) mod 3 = 0 \<longrightarrow>
            empty b3 = (ARRAY_VERTEX arrays = [])"
    by (elim conjE)
  from this [rule_format, OF sample_mesh_facts(4) sample_mesh_facts(1) sample_mesh_facts(2)]
  have a3: "\<not> empty b3" by (simp add: sample_arrays_def)
  have A: "\<exists>c bd. bake sample_cube sample_heap (sample_model\<lparr>m_geometry_type := GEOMETRY_NONE\<rparr>)
              sample_baked 4 True = Returned (c, bd) \<and> empty bd \<and> model bd = Model_clear"
    using r1 a1 by (intro exI [of _ c1] exI [of _ b1] conjI) simp_all
  have B: "\<exists>c bd. bake sample_cube sample_heap sample_model sample_baked 4 True = Returned (c, bd) \<and>
            \<not> empty bd"
    using r2 a2 by (intro exI [of _ c2] exI [of _ b2] conjI)
  have D: "\<exists>c bd. bake sample_cube mesh_heap mesh_model sample_baked 4 True = Returned (c, bd) \<and>
            \<not> empty bd"
    using r3 a3 by (intro exI [of _ c3] exI [of _ b3] conjI)
  from A B D show ?thesis by (intro conjI)
qed

text \<open>
  C5 (as stated) fails: a mesh with positions and normals but no triangle bakes to a record
  whose buckets are all empty and whose emptiness flag is false, although the geometry kind is
  not None and the mesh reference is not missing.
\<close>

theorem bake_empty_flag_counterexample:
  "bake sample_cube unindexed_heap mesh_model sample_baked 4 False =
     Returned (mesh_model\<lparr>m_empty := False\<rparr>,
       \<lparr>model = Model_clear, color = Color 1 1 1 1, transparency_index = 0, material_id = 2,
        empty = False\<rparr>) \<and>
   m_geometry_type mesh_model = GEOMETRY_CUSTOM_MESH \<and>
   m_custom_mesh mesh_model = Some 0"
  by (simp add: bake_def BakedData_clear_def bake_mesh_geometry_unfold unindexed_heap_def mesh_model_def
      sample_model_def sample_arrays_def fill_uvs_def Let_def sample_baked_def)

section \<open>Effect of a bake on the definition\<close>

text \<open>
  C8. When \<open>bake\<close> returns, the model definition is the one passed in with its emptiness flag
  set to the emptiness of the baked record, and nothing else changed; the baked record carries
  the definition's material id, transparency index and colour; the result does not depend on
  what the record held before the call; and a second bake of the returned definition into
  the returned record gives the same definition and record again.
\<close>

theorem bake_frame:
  assumes "bake C h config baked_data n bake_tangents = Returned (config', bd) \<or>
           bake C h config baked_data n bake_tangents = ErrFailed (config', bd)"
  shows "config' = config\<lparr>m_empty := empty bd\<rparr> \<and>
         material_id bd = m_material_id config \<and>
         transparency_index bd = m_transparency_index config \<and>
         color bd = m_color config \<and>
         bake C h config baked_data' n bake_tangents = bake C h config baked_data n bake_tangents \<and>
         bake C h config' bd n bake_tangents = bake C h config baked_data n bake_tangents"
proof -
  let ?b0 = "\<lparr>model = Model_clear, color = m_color config,
                transparency_index = m_transparency_index config,
                material_id = m_material_id config, empty = True\<rparr>"
  note c = bake_cases [OF assms, unfolded Let_def]
  from c have p1: "config' = config\<lparr>m_empty := empty bd\<rparr>" by (rule conjunct1)
  have sc: "color bd = color ?b0 \<and> transparency_index bd = transparency_index ?b0 \<and>
            material_id bd = material_id ?b0"
  proof (cases "m_geometry_type config")
    case GEOMETRY_NONE
    with c show ?thesis by auto
  next
    case GEOMETRY_CUBE
    with c have "bake_cube_geometry C config ?b0 n bake_tangents = Returned bd \<or>
             bake_cube_geometry C config ?b0 n bake_tangents = ErrFailed bd"
      by auto
    from bake_cube_geometry_scalars [OF this] show ?thesis by blast
  next
    case GEOMETRY_CUSTOM_MESH
    with c have "bake_mesh_geometry C h config ?b0 bake_tangents = Returned bd \<or>
             bake_mesh_geometry C h config ?b0 bake_tangents = ErrFailed bd"
      by auto
    from bake_mesh_geometry_scalars [OF this] show ?thesis .
  next
    case GEOMETRY_MAX
    with c show ?thesis by auto
  qed
  have p5: "bake C h config baked_data' n bake_tangents = bake C h config baked_data n bake_tangents"
    by (rule bake_prior_record)
  have "bake C h config' bd n bake_tangents = bake C h (config\<lparr>m_empty := empty bd\<rparr>) baked_data n bake_tangents"
    unfolding p1 by (rule bake_prior_record)
  also have "\<dots> = bake C h config baked_data n bake_tangents"
    using assms p1 by (auto simp: bake_ignores_m_empty)
  finally have p6: "bake C h config' bd n bake_tangents = bake C h config baked_data n bake_tangents" .
  from p1 sc p5 p6 show ?thesis by simp
qed

theorem bake_frame_witness:
  "\<exists>bd. bake sample_cube mesh_heap (mesh_model\<lparr>m_empty := True\<rparr>) sample_baked 4 True =
          Returned (mesh_model\<lparr>m_empty := False\<rparr>, bd) \<and>
        material_id bd = 2 \<and> transparency_index bd = 0 \<and> color bd = Color 1 1 1 1 \<and>
        bake sample_cube mesh_heap (mesh_model\<lparr>m_empty := False\<rparr>) bd 4 True =
          Returned (mesh_model\<lparr>m_empty := False\<rparr>, bd)"
proof -
  obtain c b where r: "bake sample_cube mesh_heap (mesh_model\<lparr>m_empty := True\<rparr>) sample_baked 4 True =
      Returned (c, b)" and e: "\<not> empty b"
    by (simp add: bake_def BakedData_clear_def bake_eval)
  note t = bake_frame [OF disjI1 [OF r], where baked_data' = sample_baked]
  from t e have c: "c = mesh_model\<lparr>m_empty := False\<rparr>" by simp
  from t have s: "material_id b = 2" "transparency_index b = 0" "color b = Color 1 1 1 1"
    by (simp_all add: mesh_model_def sample_model_def)
  from t have "bake sample_cube mesh_heap c b 4 True =
               bake sample_cube mesh_heap (mesh_model\<lparr>m_empty := True\<rparr>) sample_baked 4 True"
    by (elim conjE)
  with r c have again: "bake sample_cube mesh_heap (mesh_model\<lparr>m_empty := False\<rparr>) b 4 True =
          Returned (mesh_model\<lparr>m_empty := False\<rparr>, b)"
    by simp
  from r c s again show ?thesis
    by (intro exI [of _ b]) simp
qed

section \<open>Failures of the mesh baker\<close>

text \<open>
  C6. Bake a custom mesh whose reference is valid and whose surface arrays exist. If the index
  count is not a multiple of 3, or the normal array is empty or absent, the bake returns after
  reporting an error and every bucket of the record is empty. If the UV array is empty, the
  bake behaves exactly as for the same mesh with a UV array of as many zero UVs as the mesh has
  positions; and then, when the index count is a multiple of 3, the normals are at least as
  many as the positions, every index is a position index and the tangent array (if tangents
  are baked and it is not empty) has four floats per triangle, the bake returns without error.
\<close>

theorem bake_mesh_failures:
  assumes "m_geometry_type config = GEOMETRY_CUSTOM_MESH"
    and "m_custom_mesh config = Some r"
    and "surface_get_arrays (mesh_at h r) = Some arrays"
  shows
    "(length (ARRAY_INDEX arrays) mod 3 \<noteq> 0 \<or> ARRAY_NORMAL arrays = [] \<longrightarrow>
        (\<exists>bd. bake C h config baked_data n bake_tangents = ErrFailed (config\<lparr>m_empty := empty bd\<rparr>, bd) \<and>
              model bd = Model_clear)) \<and>
     (ARRAY_TEX_UV arrays = [] \<longrightarrow>
        (\<forall>h'. surface_get_arrays (mesh_at h' r) =
                 Some (arrays\<lparr>ARRAY_TEX_UV := replicate (length (ARRAY_VERTEX arrays)) (Vector2f 0 0)\<rparr>) \<longrightarrow>
              bake C h config baked_data n bake_tangents = bake C h' config baked_data n bake_tangents)) \<and>
     (ARRAY_TEX_UV arrays = [] \<longrightarrow>
      length (ARRAY_INDEX arrays) mod 3 = 0 \<longrightarrow>
      ARRAY_NORMAL arrays \<noteq> [] \<longrightarrow>
      length (ARRAY_VERTEX arrays) \<le> length (ARRAY_NORMAL arrays) \<longrightarrow>
      (\<forall>s\<in>set (ARRAY_INDEX arrays). 0 \<le> s \<and> s < int (length (ARRAY_VERTEX arrays))) \<longrightarrow>
      (bake_tangents \<longrightarrow> ARRAY_TANGENT arrays = [] \<or>
         4 * (length (ARRAY_INDEX arrays) div 3) \<le> length (ARRAY_TANGENT arrays)) \<longrightarrow>
        (\<exists>c bd. bake C h config baked_data n bake_tangents = Returned (c, bd)))"
proof -
  let ?b0 = "\<lparr>model = Model_clear, color = m_color config,
              transparency_index = m_transparency_index config,
              material_id = m_material_id config, empty = True\<rparr>"
  note b = bake_custom_mesh [OF assms(1)]
  have p1: "length (ARRAY_INDEX arrays) mod 3 \<noteq> 0 \<or> ARRAY_NORMAL arrays = [] \<longrightarrow>
        (\<exists>bd. bake C h config baked_data n bake_tangents = ErrFailed (config\<lparr>m_empty := empty bd\<rparr>, bd) \<and>
              model bd = Model_clear)"
  proof
    assume f: "length (ARRAY_INDEX arrays) mod 3 \<noteq> 0 \<or> ARRAY_NORMAL arrays = []"
    then have "\<exists>bd. bake_mesh_geometry C h config ?b0 bake_tangents = ErrFailed bd \<and> model bd = Model_clear"
      using assms(2,3) by (auto simp: bake_mesh_geometry_unfold Let_def)
    then obtain bd where e: "bake_mesh_geometry C h config ?b0 bake_tangents = ErrFailed bd"
      and m: "model bd = Model_clear" by blast
    have "bake C h config baked_data n bake_tangents = ErrFailed (config\<lparr>m_empty := empty bd\<rparr>, bd)"
      by (simp add: b e)
    with m show "\<exists>bd. bake C h config baked_data n bake_tangents = ErrFailed (config\<lparr>m_empty := empty bd\<rparr>, bd) \<and>
              model bd = Model_clear"
      by blast
  qed
  have p2: "ARRAY_TEX_UV arrays = [] \<longrightarrow>
        (\<forall>h'. surface_get_arrays (mesh_at h' r) =
                 Some (arrays\<lparr>ARRAY_TEX_UV := replicate (length (ARRAY_VERTEX arrays)) (Vector2f 0 0)\<rparr>) \<longrightarrow>
              bake C h config baked_data n bake_tangents = bake C h' config baked_data n bake_tangents)"
  proof (intro impI allI)
    fix h' :: Heap
    assume uv: "ARRAY_TEX_UV arrays = []"
      and h': "surface_get_arrays (mesh_at h' r) =
                 Some (arrays\<lparr>ARRAY_TEX_UV := replicate (length (ARRAY_VERTEX arrays)) (Vector2f 0 0)\<rparr>)"
    have "bake_mesh_geometry C h config ?b0 bake_tangents = bake_mesh_geometry C h' config ?b0 bake_tangents"
      using assms(2,3) uv h' by (rule bake_mesh_geometry_uv_fill)
    then show "bake C h config baked_data n bake_tangents = bake C h' config baked_data n bake_tangents"
      by (simp only: bake_custom_mesh [OF assms(1)])
  qed
  have p3: "ARRAY_TEX_UV arrays = [] \<longrightarrow>
      length (ARRAY_INDEX arrays) mod 3 = 0 \<longrightarrow>
      ARRAY_NORMAL arrays \<noteq> [] \<longrightarrow>
      length (ARRAY_VERTEX arrays) \<le> length (ARRAY_NORMAL arrays) \<longrightarrow>
      (\<forall>s\<in>set (ARRAY_INDEX arrays). 0 \<le> s \<and> s < int (length (ARRAY_VERTEX arrays))) \<longrightarrow>
      (bake_tangents \<longrightarrow> ARRAY_TANGENT arrays = [] \<or>
         4 * (length (ARRAY_INDEX arrays) div 3) \<le> length (ARRAY_TANGENT arrays)) \<longrightarrow>
        (\<exists>c bd. bake C h config baked_data n bake_tangents = Returned (c, bd))"
  proof (intro impI)
    assume uv: "ARRAY_TEX_UV arrays = []"
      and l: "length (ARRAY_INDEX arrays) mod 3 = 0"
      and nn: "ARRAY_NORMAL arrays \<noteq> []"
      and nl: "length (ARRAY_VERTEX arrays) \<le> length (ARRAY_NORMAL arrays)"
      and ix: "\<forall>s\<in>set (ARRAY_INDEX arrays). 0 \<le> s \<and> s < int (length (ARRAY_VERTEX arrays))"
      and tg: "bake_tangents \<longrightarrow> ARRAY_TANGENT arrays = [] \<or>
         4 * (length (ARRAY_INDEX arrays) div 3) \<le> length (ARRAY_TANGENT arrays)"
    from bake_mesh_geometry_total [OF assms(2,3) uv l nn nl ix tg, of C ?b0]
    obtain bd where "bake_mesh_geometry C h config ?b0 bake_tangents = Returned bd" by blast
    then show "\<exists>c bd. bake C h config baked_data n bake_tangents = Returned (c, bd)"
      by (simp add: b)
  qed
  show ?thesis by (intro conjI p1 p2 p3)
qed

theorem bake_mesh_failures_witness:
  "(\<exists>bd. bake sample_cube faulty_heap (mesh_model\<lparr>m_custom_mesh := Some 1\<rparr>) sample_baked 4 False =
           ErrFailed (mesh_model\<lparr>m_custom_mesh := Some 1, m_empty := empty bd\<rparr>, bd) \<and>
         model bd = Model_clear) \<and>
   (\<exists>bd. bake sample_cube faulty_heap (mesh_model\<lparr>m_custom_mesh := Some 2\<rparr>) sample_baked 4 False =
           ErrFailed (mesh_model\<lparr>m_custom_mesh := Some 2, m_empty := empty bd\<rparr>, bd) \<and>
         model bd = Model_clear) \<and>
   bake sample_cube faulty_heap mesh_model sample_baked 4 False =
     bake sample_cube zero_uv_heap mesh_model sample_baked 4 False \<and>
   (\<exists>c bd. bake sample_cube faulty_heap mesh_model sample_baked 4 False = Returned (c, bd))"
proof -
  have k: "m_geometry_type (mesh_model\<lparr>m_custom_mesh := Some 1\<rparr>) = GEOMETRY_CUSTOM_MESH"
    "m_geometry_type (mesh_model\<lparr>m_custom_mesh := Some 2\<rparr>) = GEOMETRY_CUSTOM_MESH"
    "m_geometry_type mesh_model = GEOMETRY_CUSTOM_MESH"
    by (simp_all add: mesh_model_def)
  have m: "m_custom_mesh (mesh_model\<lparr>m_custom_mesh := Some 1\<rparr>) = Some 1"
    "m_custom_mesh (mesh_model\<lparr>m_custom_mesh := Some 2\<rparr>) = Some 2"
    "m_custom_mesh mesh_model = Some 0"
    by (simp_all add: mesh_model_def sample_model_def)
  have a: "surface_get_arrays (mesh_at faulty_heap 1) = Some (sample_arrays\<lparr>ARRAY_INDEX := [0, 1, 2, 3]\<rparr>)"
    "surface_get_arrays (mesh_at faulty_heap 2) = Some (sample_arrays\<lparr>ARRAY_NORMAL := []\<rparr>)"
    "surface_get_arrays (mesh_at faulty_heap 0) = Some (sample_arrays\<lparr>ARRAY_TEX_UV := []\<rparr>)"
    by (simp_all add: faulty_heap_def)
  note t1 = bake_mesh_failures [OF k(1) m(1) a(1), where C = sample_cube and baked_data = sample_baked
      and n = 4 and bake_tangents = False, THEN conjunct1]
  note t2 = bake_mesh_failures [OF k(2) m(2) a(2), where C = sample_cube and baked_data = sample_baked
      and n = 4 and bake_tangents = False, THEN conjunct1]
  note t3 = bake_mesh_failures [OF k(3) m(3) a(3), where C = sample_cube and baked_data = sample_baked
      and n = 4 and bake_tangents = False, THEN conjunct2, THEN conjunct1, rule_format, of zero_uv_heap]
  note t4 = bake_mesh_failures [OF k(3) m(3) a(3), where C = sample_cube and baked_data = sample_baked
      and n = 4 and bake_tangents = False, THEN conjunct2, THEN conjunct2, rule_format]
  from t1 have A: "\<exists>bd. bake sample_cube faulty_heap (mesh_model\<lparr>m_custom_mesh := Some 1\<rparr>) sample_baked 4 False =
           ErrFailed (mesh_model\<lparr>m_custom_mesh := Some 1, m_empty := empty bd\<rparr>, bd) \<and>
         model bd = Model_clear"
    by simp
  from t2 have B: "\<exists>bd. bake sample_cube faulty_heap (mesh_model\<lparr>m_custom_mesh := Some 2\<rparr>) sample_baked 4 False =
           ErrFailed (mesh_model\<lparr>m_custom_mesh := Some 2, m_empty := empty bd\<rparr>, bd) \<and>
         model bd = Model_clear"
    by simp
  have D: "bake sample_cube faulty_heap mesh_model sample_baked 4 False =
     bake sample_cube zero_uv_heap mesh_model sample_baked 4 False"
    by (rule t3) (simp_all add: zero_uv_heap_def sample_arrays_def numeral_eq_Suc)
  have E: "\<exists>c bd. bake sample_cube faulty_heap mesh_model sample_baked 4 False = Returned (c, bd)"
    by (rule t4) (auto simp add: sample_arrays_def)
  from A B D E show ?thesis by (intro conjI)
qed

section \<open>Source tangents\<close>

text \<open>
  C7, evaluated. The sample mesh has five vertices, the tangent buffer 1, 2, ..., 20 (vertex
  \<open>s\<close> owning the floats \<open>4s+1 .. 4s+4\<close>) and the triangles (0,1,2), (2,1,4) on a face and
  (0,1,3) in the interior. With tangent baking, the face bucket's vertices (source 0, 1, 2, 4)
  receive 1..4, 1..4, 1..4 and 5..8, and the interior ones (source 0, 1, 3) receive 9..12
  each: the floats are taken at four times the triangle number, the same for the three
  vertices of a triangle, not at the source vertex. Without tangent baking no tangent is
  stored in any bucket.
\<close>

theorem source_tangents_by_triangle:
  "(\<exists>bd. bake_mesh_geometry sample_cube mesh_heap mesh_model sample_baked True = Returned bd \<and>
      side_positions (model bd) 4 = [Vector3f 0 0 0, Vector3f 1 0 0, Vector3f 0 1 0, Vector3f 1 1 0] \<and>
      side_tangents (model bd) 4 = [1, 2, 3, 4, 1, 2, 3, 4, 1, 2, 3, 4, 5, 6, 7, 8] \<and>
      positions (model bd) = [Vector3f 0 0 0, Vector3f 1 0 0, Vector3f 1 1 1] \<and>
      tangents (model bd) = [9, 10, 11, 12, 9, 10, 11, 12, 9, 10, 11, 12]) \<and>
   (\<exists>bd. bake_mesh_geometry sample_cube mesh_heap mesh_model sample_baked False = Returned bd \<and>
      side_tangents (model bd) = (\<lambda>_. []) \<and> tangents (model bd) = [])"
  by (simp add: bake_eval)

end
